(* ===== verification/Prelude.thy ===== *)
theory Prelude
  imports Complex_Main "HOL-Library.Word"
begin

text \<open>
  Shared types, table operations and generic lemmas.

  \<^item> identifiers: a \<open>uuid.UUID\<close> is its 16 bytes read as one 128-bit number, so that
    \<open>uuid.Nil\<close> is 0 and PostgreSQL's bytewise order of \<open>UUID\<close> columns is the order
    of words;
  \<^item> \<open>time.Duration\<close> (and every Go value of type \<open>int64\<close>) is a 64-bit word read
    through \<open>sint\<close>;
  \<^item> instants are integers: nanoseconds on the Go side (\<open>time.Time\<close>), microseconds in
    the database (\<open>TIMESTAMPTZ\<close>);
  \<^item> a database table is the list of its rows; \<open>UPDATE\<close>, \<open>DELETE\<close> and the
    \<open>SELECT .. ORDER BY .. LIMIT .. SKIP LOCKED\<close> pattern of the queries are the three
    list operations below.
\<close>

named_theorems db_simps \<open>how the table operations act on keys, sets and counts\<close>

section \<open>Base types\<close>

type_synonym uuid = "128 word"
type_synonym duration = "64 word"
type_synonym instant = int

abbreviation nil_uuid :: uuid where
  "nil_uuid \<equiv> 0"

text \<open>Comparison and truncating division of signed 64-bit values.\<close>

definition int64 :: "int \<Rightarrow> duration" where
  "int64 n = word_of_int n"

definition dur_div :: "duration \<Rightarrow> int \<Rightarrow> duration" where
  "dur_div d n = word_of_int (sgn (sint d) * sgn n * (\<bar>sint d\<bar> div \<bar>n\<bar>))"

definition in_int64 :: "int \<Rightarrow> bool" where
  "in_int64 n \<longleftrightarrow> - (2 ^ 63) \<le> n \<and> n < 2 ^ 63"

lemma sint_int64: "in_int64 n \<Longrightarrow> sint (int64 n) = n"
  by (simp add: in_int64_def int64_def int_word_sint)

lemma sint_duration_range: "in_int64 (sint (d :: duration))"
  using sint_ge [of d] sint_less [of d] by (simp add: in_int64_def)

lemma duration_eqI: "sint a = sint b \<Longrightarrow> a = (b :: duration)"
  by (rule signed_word_eqI)

lemma sint_dur_div:
  assumes "0 \<le> sint d" "0 < n"
  shows "sint (dur_div d n) = sint d div n"
proof -
  have s: "sgn (sint d) * sgn n * (\<bar>sint d\<bar> div \<bar>n\<bar>) = sint d div n"
    using assms by (cases "sint d = 0") (simp_all add: sgn_if)
  have lo: "0 \<le> sint d div n"
    using assms by (simp add: pos_imp_zdiv_nonneg_iff)
  have "sint d div n \<le> sint d"
    using zdiv_mono2 [of "sint d" 1 n] assms by simp
  then have "in_int64 (sint d div n)"
    using lo sint_duration_range [of d] by (simp add: in_int64_def)
  then show ?thesis
    using sint_int64 [of "sint d div n"] by (simp add: dur_div_def s int64_def)
qed

text \<open>Named durations of the \<open>time\<close> package.\<close>

definition Nanosecond :: int where "Nanosecond = 1"
definition Millisecond :: int where "Millisecond = 1000000"
definition Second :: int where "Second = 1000000000"
definition Minute :: int where "Minute = 60 * Second"
definition Hour :: int where "Hour = 60 * Minute"

lemmas time_unit_defs = Nanosecond_def Millisecond_def Second_def Minute_def Hour_def

section \<open>Tables as lists of rows\<close>

definition upd :: "('r \<Rightarrow> bool) \<Rightarrow> ('r \<Rightarrow> 'r) \<Rightarrow> 'r list \<Rightarrow> 'r list" where
  \<comment> \<open>\<open>UPDATE .. SET f WHERE P\<close>\<close>
  "upd P f tab = map (\<lambda>r. if P r then f r else r) tab"

definition affected :: "('r \<Rightarrow> bool) \<Rightarrow> 'r list \<Rightarrow> nat" where
  \<comment> \<open>\<open>RowsAffected\<close> of a statement whose condition is \<open>P\<close>\<close>
  "affected P tab = length (filter P tab)"

definition del :: "('r \<Rightarrow> bool) \<Rightarrow> 'r list \<Rightarrow> 'r list" where
  \<comment> \<open>\<open>DELETE .. WHERE P\<close>\<close>
  "del P tab = filter (\<lambda>r. \<not> P r) tab"

definition select_for_update ::
  "('r \<Rightarrow> 'k::linorder) \<Rightarrow> nat \<Rightarrow> ('r \<Rightarrow> bool) \<Rightarrow> ('r \<Rightarrow> bool) \<Rightarrow> 'r list \<Rightarrow> 'r list" where
  \<comment> \<open>\<open>SELECT .. WHERE P ORDER BY key LIMIT n FOR UPDATE SKIP LOCKED\<close>: rows locked by
    another transaction are passed over and do not count towards the limit\<close>
  "select_for_update key n locked P tab =
     take n (filter (\<lambda>r. \<not> locked r) (sort_key key (filter P tab)))"

lemma set_upd [db_simps]: "set (upd P f tab) = (\<lambda>r. if P r then f r else r) ` set tab"
  by (simp add: upd_def)

lemma set_updE:
  assumes "x \<in> set (upd P f tab)"
  obtains (changed) r where "r \<in> set tab" "P r" "x = f r" | (kept) "x \<in> set tab" "\<not> P x"
  using assms by (auto simp: set_upd split: if_splits)

lemma upd_changed: "r \<in> set tab \<Longrightarrow> P r \<Longrightarrow> f r \<in> set (upd P f tab)"
  by (auto simp: set_upd)

lemma upd_kept: "r \<in> set tab \<Longrightarrow> \<not> P r \<Longrightarrow> r \<in> set (upd P f tab)"
  by (auto simp: set_upd intro: image_eqI [of _ _ r])

lemma upd_Nil [simp]: "upd P f [] = []"
  by (simp add: upd_def)

lemma length_upd [simp]: "length (upd P f tab) = length tab"
  by (simp add: upd_def)

lemma map_upd [db_simps]: "(\<And>r. P r \<Longrightarrow> k (f r) = k r) \<Longrightarrow> map k (upd P f tab) = map k tab"
  by (simp add: upd_def)

lemma upd_id: "(\<And>r. r \<in> set tab \<Longrightarrow> \<not> P r) \<Longrightarrow> upd P f tab = tab"
  by (simp add: upd_def map_idI)

lemma affected_0: "affected P tab = 0 \<longleftrightarrow> (\<forall>r \<in> set tab. \<not> P r)"
  by (auto simp: affected_def filter_empty_conv)

lemma upd_affected_0: "affected P tab = 0 \<Longrightarrow> upd P f tab = tab"
  by (simp add: affected_0 upd_id)

lemma set_del [db_simps]: "set (del P tab) = {r \<in> set tab. \<not> P r}"
  by (simp add: del_def)

lemma distinct_map_del: "distinct (map k tab) \<Longrightarrow> distinct (map k (del P tab))"
  by (simp add: del_def distinct_map inj_on_def)

lemma del_affected_0: "affected P tab = 0 \<Longrightarrow> del P tab = tab"
  by (simp add: affected_0 del_def filter_id_conv)

text \<open>How many rows still satisfy a condition after an update that gives it to none.\<close>

lemma length_filter_map_le:
  assumes "\<And>x. x \<in> set xs \<Longrightarrow> P (g x) \<Longrightarrow> P x"
  shows "length (filter P (map g xs)) \<le> length (filter P xs)"
  using assms by (induction xs) (auto simp: le_SucI)

lemma length_filter_map_less:
  assumes "\<And>x. x \<in> set xs \<Longrightarrow> P (g x) \<Longrightarrow> P x" "x \<in> set xs" "P x" "\<not> P (g x)"
  shows "length (filter P (map g xs)) < length (filter P xs)"
  using assms
proof (induction xs)
  case (Cons y ys)
  have le: "length (filter P (map g ys)) \<le> length (filter P ys)"
    by (rule length_filter_map_le) (use Cons.prems(1) in simp)
  show ?case
  proof (cases "x \<in> set ys")
    case True
    then show ?thesis using Cons.IH [OF _ True] Cons.prems by (auto simp: less_Suc_eq)
  next
    case False
    then show ?thesis using Cons.prems le by auto
  qed
qed simp

lemma set_select_for_update:
  "r \<in> set (select_for_update key n locked P tab) \<Longrightarrow> r \<in> set tab \<and> P r \<and> \<not> locked r"
  by (auto simp: select_for_update_def dest!: in_set_takeD)

lemma length_select_for_update: "length (select_for_update key n locked P tab) \<le> n"
  by (simp add: select_for_update_def)

lemma sorted_select_for_update: "sorted (map key (select_for_update key n locked P tab))"
proof -
  have "sorted (map key (filter (\<lambda>r. \<not> locked r) (sort_key key (filter P tab))))"
    by (rule sorted_filter) simp
  then show ?thesis
    by (simp add: select_for_update_def take_map [symmetric] sorted_wrt_take)
qed

lemma select_for_update_empty:
  "0 < n \<Longrightarrow> select_for_update key n locked P tab = [] \<longleftrightarrow>
     (\<forall>r \<in> set tab. P r \<longrightarrow> locked r)"
  by (auto simp: select_for_update_def filter_empty_conv)

lemma distinct_map_select:
  assumes "distinct (map k tab)"
  shows "distinct (map k (select_for_update key n locked P tab))"
proof -
  have "distinct (map k (sort_key key (filter P tab)))"
    using assms by (auto simp: distinct_map inj_on_def)
  then have "distinct (map k (filter (\<lambda>r. \<not> locked r) (sort_key key (filter P tab))))"
    by (auto simp: distinct_map inj_on_def)
  then show ?thesis
    by (simp add: select_for_update_def take_map [symmetric] distinct_take)
qed

text \<open>A key that is unique in a table identifies its row.\<close>

lemma unique_row:
  "distinct (map k tab) \<Longrightarrow> r \<in> set tab \<Longrightarrow> r' \<in> set tab \<Longrightarrow> k r = k r' \<Longrightarrow> r = r'"
  by (auto simp: distinct_map inj_on_def)

lemma affected_key_le_1:
  "distinct (map k tab) \<Longrightarrow> affected (\<lambda>r. k r = x \<and> P r) tab \<le> 1"
proof (induction tab)
  case Nil
  then show ?case by (simp add: affected_def)
next
  case (Cons r tab)
  show ?case
  proof (cases "k r = x")
    case True
    with Cons.prems have "\<forall>r' \<in> set tab. k r' \<noteq> x" by (auto simp: image_iff)
    then have "affected (\<lambda>r. k r = x \<and> P r) tab = 0" by (auto simp: affected_0)
    then show ?thesis by (simp add: affected_def)
  next
    case False
    with Cons show ?thesis by (simp add: affected_def)
  qed
qed

lemma affected_key_1:
  assumes "distinct (map k tab)" "r \<in> set tab" "k r = x" "P r"
  shows "affected (\<lambda>r. k r = x \<and> P r) tab = 1"
proof -
  have "affected (\<lambda>r. k r = x \<and> P r) tab \<noteq> 0"
    using assms(2-4) by (auto simp: affected_0)
  then show ?thesis
    using affected_key_le_1 [OF assms(1), of x P] by linarith
qed

lemma affected_1_obtain:
  assumes "affected P tab = 1"
  obtains r where "r \<in> set tab" "P r"
  using assms affected_0 [of P tab] by force

end
