(* ===== verification/Float64.thy ===== *)
theory Float64
  imports Prelude "HOL-Library.Log_Nat"
begin

text \<open>
  Go's \<open>float64\<close>: IEEE 754 binary64 with rounding to nearest, ties to even. A finite value
  is the rational number it stands for (the sign of zero is not kept: no code here reads it);
  \<open>binary64\<close> is the rounding function itself, built from the binade exponent of its
  argument, so that arithmetic evaluates. The lemmas are what the callers rely on: rounding is
  monotone, leaves a representable value alone, and integers up to \<open>2 ^ 53\<close> are
  representable.
\<close>

section \<open>Rounding to nearest even\<close>

definition round_even :: "rat \<Rightarrow> int" where
  "round_even x =
     (let f = \<lfloor>x\<rfloor>; d = x - of_int f in
      if d < 1 / 2 then f else if 1 / 2 < d then f + 1 else if even f then f else f + 1)"

lemma round_even_int [simp]: "round_even (of_int n) = n"
  by (simp add: round_even_def)

lemma round_even_0 [simp]: "round_even 0 = 0"
  by (metis of_int_0 round_even_int)

lemma round_even_power [simp]: "round_even (2 ^ n) = 2 ^ n"
  by (metis of_int_numeral of_int_power round_even_int)

lemma round_even_numeral [simp]: "round_even (numeral k) = numeral k"
  by (metis of_int_numeral round_even_int)

lemma round_even_bounds: "\<lfloor>x\<rfloor> \<le> round_even x" "round_even x \<le> \<lfloor>x\<rfloor> + 1"
  by (auto simp: round_even_def Let_def)

lemma round_even_mono:
  assumes "x \<le> y"
  shows "round_even x \<le> round_even y"
proof (cases "\<lfloor>x\<rfloor> = \<lfloor>y\<rfloor>")
  case True
  then show ?thesis using assms by (auto simp: round_even_def Let_def)
next
  case False
  then have "\<lfloor>x\<rfloor> + 1 \<le> \<lfloor>y\<rfloor>" using floor_mono [OF assms] by linarith
  then show ?thesis using round_even_bounds [of x] round_even_bounds [of y] by linarith
qed

section \<open>The binade of a positive rational\<close>

text \<open>Powers of two with an integer exponent.\<close>

definition pow2 :: "int \<Rightarrow> rat" where
  "pow2 e = (if 0 \<le> e then 2 ^ nat e else 1 / 2 ^ nat (- e))"

lemma pow2_powi: "pow2 e = 2 powi e"
  by (simp add: pow2_def power_int_def inverse_eq_divide power_one_over)

lemma pow2_pos [simp]: "0 < pow2 e"
  by (simp add: pow2_def)

lemma pow2_nonzero [simp]: "pow2 e \<noteq> 0"
  using pow2_pos [of e] by linarith

lemma pow2_add: "pow2 (a + b) = pow2 a * pow2 b"
  by (simp add: pow2_powi power_int_add)

lemma pow2_0 [simp]: "pow2 0 = 1"
  by (simp add: pow2_def)

lemma pow2_diff: "pow2 (a - b) = pow2 a / pow2 b"
  using pow2_add [of "a - b" b] by (simp add: field_simps)

lemma pow2_le: "a \<le> b \<Longrightarrow> pow2 a \<le> pow2 b"
  by (simp add: pow2_powi power_int_increasing)

lemma pow2_less: "a < b \<Longrightarrow> pow2 a < pow2 b"
  by (simp add: pow2_powi power_int_strict_increasing)

lemma pow2_le_iff [simp]: "pow2 a \<le> pow2 b \<longleftrightarrow> a \<le> b"
  using pow2_le [of a b] pow2_less [of b a] by linarith

lemma pow2_less_iff [simp]: "pow2 a < pow2 b \<longleftrightarrow> a < b"
  using pow2_le [of b a] pow2_less [of a b] by linarith

lemma pow2_nonneg_int: "0 \<le> e \<Longrightarrow> pow2 e = of_int (2 ^ nat e)"
  by (simp add: pow2_def)

definition ilog2 :: "rat \<Rightarrow> int" where
  \<comment> \<open>the largest \<open>k\<close> with \<open>pow2 k \<le> x\<close>, for a positive \<open>x\<close>\<close>
  "ilog2 x =
     (let (p, q) = quotient_of x; k = bitlen p - bitlen q in if pow2 k \<le> x then k else k - 1)"

lemma ilog2_bounds:
  assumes "0 < x"
  shows "pow2 (ilog2 x) \<le> x" "x < pow2 (ilog2 x + 1)"
proof -
  obtain p q where pq: "quotient_of x = (p, q)" by fastforce
  then have x: "x = of_int p / of_int q" and q: "0 < q"
    by (simp_all add: quotient_of_div quotient_of_denom_pos)
  with assms have p: "0 < p" by (simp add: zero_less_divide_iff)
  have bp: "1 \<le> bitlen p" "1 \<le> bitlen q"
    using bitlen_le_iff_power [of p 0] bitlen_le_iff_power [of q 0] p q by (auto simp: not_le)
  have P: "pow2 (bitlen p - 1) \<le> of_int p" "(of_int p :: rat) < pow2 (bitlen p)"
    using bitlen_bounds [OF p] bp
    by (simp_all add: pow2_nonneg_int del: of_int_power)
  have Q: "pow2 (bitlen q - 1) \<le> of_int q" "(of_int q :: rat) < pow2 (bitlen q)"
    using bitlen_bounds [OF q] bp
    by (simp_all add: pow2_nonneg_int del: of_int_power)
  let ?k = "bitlen p - bitlen q"
  have q0: "(0 :: rat) < of_int q" using q by simp
  have "pow2 (?k - 1) * of_int q < pow2 (?k - 1) * pow2 (bitlen q)"
    using Q by simp
  also have "\<dots> = pow2 (bitlen p - 1)"
    by (simp flip: pow2_add)
  also have "\<dots> \<le> of_int p" by (rule P)
  finally have lo: "pow2 (?k - 1) \<le> x"
    using q0 by (simp add: x field_simps)
  have "of_int p < pow2 (?k + 1) * pow2 (bitlen q - 1)"
    using P by (simp flip: pow2_add)
  also have "\<dots> \<le> pow2 (?k + 1) * of_int q"
    using Q by simp
  finally have hi: "x < pow2 (?k + 1)"
    using q0 by (simp add: x field_simps)
  show "pow2 (ilog2 x) \<le> x" "x < pow2 (ilog2 x + 1)"
    using lo hi by (auto simp: ilog2_def pq Let_def)
qed

lemma ilog2_mono:
  assumes "0 < x" "x \<le> y"
  shows "ilog2 x \<le> ilog2 y"
proof -
  have "pow2 (ilog2 x) < pow2 (ilog2 y + 1)"
    using ilog2_bounds [of x] ilog2_bounds [of y] assms by linarith
  then show ?thesis by simp
qed

lemma ilog2_unique:
  assumes "pow2 k \<le> x" "x < pow2 (k + 1)"
  shows "ilog2 x = k"
proof -
  have "0 < x" using assms(1) pow2_pos [of k] by linarith
  then have "pow2 k < pow2 (ilog2 x + 1)" "pow2 (ilog2 x) < pow2 (k + 1)"
    using ilog2_bounds [of x] assms by linarith+
  then show ?thesis by simp
qed

section \<open>binary64\<close>

definition ulp_exp :: "rat \<Rightarrow> int" where
  \<comment> \<open>the exponent of the unit in the last place; -1074 is that of the subnormals\<close>
  "ulp_exp x = max (-1074) (ilog2 x - 52)"

definition round_pos :: "rat \<Rightarrow> rat" where
  "round_pos x = of_int (round_even (x / pow2 (ulp_exp x))) * pow2 (ulp_exp x)"

definition binary64 :: "rat \<Rightarrow> rat" where
  "binary64 x = (if x = 0 then 0 else if 0 < x then round_pos x else - round_pos (- x))"

lemma binary64_0 [simp]: "binary64 0 = 0"
  by (simp add: binary64_def)

lemma binary64_minus: "binary64 (- x) = - binary64 x"
  by (simp add: binary64_def)

lemma round_pos_nonneg: "0 < x \<Longrightarrow> 0 \<le> round_pos x"
  using round_even_mono [of 0 "x / pow2 (ulp_exp x)"] 
  by (simp add: round_pos_def less_imp_le)

lemma round_pos_mono:
  assumes "0 < x" "x \<le> y"
  shows "round_pos x \<le> round_pos y"
proof -
  let ?e = "ulp_exp x" and ?f = "ulp_exp y"
  have ef: "?e \<le> ?f" using ilog2_mono [OF assms] by (simp add: ulp_exp_def)
  show ?thesis
  proof (cases "?e = ?f")
    case True
    have "round_even (x / pow2 ?f) \<le> round_even (y / pow2 ?f)"
      using assms(2) by (intro round_even_mono) (simp add: divide_right_mono less_imp_le)
    then show ?thesis using True by (simp add: round_pos_def less_imp_le)
  next
    case False
    with ef have f: "?f = ilog2 y - 52" and lt: "ilog2 x < ilog2 y"
      by (auto simp: ulp_exp_def)
    let ?L = "ilog2 y"
    have xL: "x \<le> pow2 ?L"
    proof -
      have "pow2 (ilog2 x + 1) \<le> pow2 ?L" using lt by simp
      then show ?thesis using ilog2_bounds(2) [of x] assms by linarith
    qed
    have "round_even (x / pow2 ?e) \<le> round_even (pow2 ?L / pow2 ?e)"
      using xL by (intro round_even_mono) (simp add: divide_right_mono less_imp_le)
    also have "\<dots> = 2 ^ nat (?L - ?e)"
      using ef f by (subst pow2_diff [symmetric], subst pow2_nonneg_int) simp_all
    finally have "of_int (round_even (x / pow2 ?e)) \<le> pow2 (?L - ?e)"
      using ef f by (simp add: pow2_nonneg_int del: of_int_power)
    then have a: "round_pos x \<le> pow2 ?L"
      by (simp add: round_pos_def pow2_diff field_simps)
    have "round_even (pow2 ?L / pow2 ?f) \<le> round_even (y / pow2 ?f)"
      using ilog2_bounds(1) [of y] assms
      by (intro round_even_mono) (simp add: divide_right_mono less_imp_le)
    moreover have "round_even (pow2 ?L / pow2 ?f) = 2 ^ nat (?L - ?f)"
      using f by (subst pow2_diff [symmetric], subst pow2_nonneg_int) simp_all
    ultimately have "pow2 (?L - ?f) \<le> of_int (round_even (y / pow2 ?f))"
      using f by (simp add: pow2_nonneg_int del: of_int_power)
    then have b: "pow2 ?L \<le> round_pos y"
      by (simp add: round_pos_def pow2_diff field_simps)
    show ?thesis using a b by linarith
  qed
qed

lemma binary64_mono: "x \<le> y \<Longrightarrow> binary64 x \<le> binary64 y"
  using round_pos_mono [of x y] round_pos_mono [of "- y" "- x"]
    round_pos_nonneg [of y] round_pos_nonneg [of "- x"]
  by (auto simp: binary64_def)

text \<open>What is representable: 53 significant bits, exponent at least -1074.\<close>

lemma round_pos_exact:
  assumes "0 < m" "m \<le> 2 ^ 53" "-1074 \<le> e"
  shows "round_pos (of_int m * pow2 e) = of_int m * pow2 e"
proof -
  let ?v = "of_int m * pow2 e"
  have v: "0 < ?v" using assms(1) by simp
  let ?u = "ulp_exp ?v"
  have "?u \<le> e \<or> m = 2 ^ 53"
  proof (cases "m = 2 ^ 53")
    case False
    with assms(2) have "(of_int m :: rat) < pow2 53"
      by (simp add: pow2_def)
    then have "?v < pow2 (53 + e)" by (simp add: pow2_add)
    then have "pow2 (ilog2 ?v) < pow2 (53 + e)" using ilog2_bounds(1) [OF v] by linarith
    then show ?thesis using assms(3) by (simp add: ulp_exp_def)
  qed simp
  then obtain k where k: "?v / pow2 ?u = of_int k"
  proof
    assume "?u \<le> e"
    then have "pow2 (e - ?u) = of_int (2 ^ nat (e - ?u))"
      by (simp add: pow2_nonneg_int)
    then have "?v / pow2 ?u = of_int (m * 2 ^ nat (e - ?u))"
      by (simp add: pow2_diff flip: times_divide_eq_right)
    then show ?thesis by (rule that)
  next
    assume m: "m = 2 ^ 53"
    have "pow2 53 = (9007199254740992 :: rat)" by (simp add: pow2_def)
    then have v': "?v = pow2 (53 + e)" using m by (simp add: pow2_add)
    have "pow2 (ilog2 ?v) \<le> pow2 (53 + e)"
      using ilog2_bounds(1) [OF v] unfolding v' .
    then have u: "?u \<le> 53 + e" using assms(3) by (simp add: ulp_exp_def)
    have "?v / pow2 ?u = pow2 (53 + e - ?u)"
      unfolding pow2_diff using v' by simp
    also have "\<dots> = of_int (2 ^ nat (53 + e - ?u))"
      using u by (simp add: pow2_nonneg_int)
    finally show ?thesis by (rule that)
  qed
  then have "round_pos ?v = ?v / pow2 ?u * pow2 ?u" by (simp add: round_pos_def)
  then show ?thesis by simp
qed

lemma binary64_int:
  assumes "\<bar>n\<bar> \<le> 2 ^ 53"
  shows "binary64 (of_int n) = of_int n"
  using assms round_pos_exact [of n 0] round_pos_exact [of "- n" 0]
  by (auto simp: binary64_def)

lemma round_pos_idem:
  assumes "0 < x"
  shows "binary64 (round_pos x) = round_pos x"
proof -
  let ?e = "ulp_exp x" and ?m = "round_even (x / pow2 (ulp_exp x))"
  have e: "-1074 \<le> ?e" by (simp add: ulp_exp_def)
  have "x < pow2 (53 + ?e)"
  proof -
    have "pow2 (ilog2 x + 1) \<le> pow2 (53 + ?e)" by (simp add: ulp_exp_def)
    then show ?thesis using ilog2_bounds(2) [OF assms] by linarith
  qed
  then have "x / pow2 ?e \<le> pow2 53" by (simp add: pow2_add field_simps)
  then have "?m \<le> round_even (pow2 53)" by (rule round_even_mono)
  also have "\<dots> = 2 ^ 53" using round_even_int [of "2 ^ 53"] by (simp add: pow2_def)
  finally have m: "?m \<le> 2 ^ 53" .
  have m0: "0 \<le> ?m"
    using round_even_mono [of 0 "x / pow2 ?e"] assms by (simp add: less_imp_le)
  show ?thesis
  proof (cases "?m = 0")
    case True
    then show ?thesis by (simp add: round_pos_def)
  next
    case False
    with m0 have "0 < ?m" by simp
    then show ?thesis
      using round_pos_exact [OF _ m e] by (simp add: round_pos_def binary64_def)
  qed
qed

lemma binary64_idem: "binary64 (binary64 x) = binary64 x"
  using round_pos_idem [of x] round_pos_idem [of "- x"]
  by (simp add: binary64_def [of x] binary64_minus)

section \<open>Values and operations\<close>

datatype f64 = NaN | PInf | NInf | Fin rat

definition f64_of_rat :: "rat \<Rightarrow> f64" where
  \<comment> \<open>the correctly rounded result of an exact operation\<close>
  "f64_of_rat x =
     (let r = binary64 x in if pow2 1024 \<le> r then PInf else if r \<le> - pow2 1024 then NInf else Fin r)"

fun f64_less :: "f64 \<Rightarrow> f64 \<Rightarrow> bool" where
  "f64_less NaN _ = False"
| "f64_less _ NaN = False"
| "f64_less (Fin a) (Fin b) = (a < b)"
| "f64_less NInf NInf = False"
| "f64_less NInf _ = True"
| "f64_less _ PInf = True"
| "f64_less _ _ = False"

fun f64_eq :: "f64 \<Rightarrow> f64 \<Rightarrow> bool" where
  "f64_eq NaN _ = False"
| "f64_eq a b = (a = b)"

definition f64_le :: "f64 \<Rightarrow> f64 \<Rightarrow> bool" where
  "f64_le a b \<longleftrightarrow> f64_less a b \<or> f64_eq a b"

fun f64_neg :: "f64 \<Rightarrow> f64" where
  "f64_neg NaN = NaN" | "f64_neg PInf = NInf" | "f64_neg NInf = PInf" | "f64_neg (Fin a) = Fin (- a)"

fun f64_add :: "f64 \<Rightarrow> f64 \<Rightarrow> f64" where
  "f64_add (Fin a) (Fin b) = f64_of_rat (a + b)"
| "f64_add NaN _ = NaN"
| "f64_add _ NaN = NaN"
| "f64_add PInf NInf = NaN"
| "f64_add NInf PInf = NaN"
| "f64_add PInf _ = PInf"
| "f64_add _ PInf = PInf"
| "f64_add NInf _ = NInf"
| "f64_add _ NInf = NInf"

definition f64_sub :: "f64 \<Rightarrow> f64 \<Rightarrow> f64" where
  "f64_sub a b = f64_add a (f64_neg b)"

definition f64_sgn :: "f64 \<Rightarrow> rat" where
  "f64_sgn x = (case x of NaN \<Rightarrow> 0 | PInf \<Rightarrow> 1 | NInf \<Rightarrow> -1 | Fin a \<Rightarrow> sgn a)"

fun f64_mul :: "f64 \<Rightarrow> f64 \<Rightarrow> f64" where
  "f64_mul (Fin a) (Fin b) = f64_of_rat (a * b)"
| "f64_mul NaN _ = NaN"
| "f64_mul _ NaN = NaN"
| "f64_mul a b =
     (let s = f64_sgn a * f64_sgn b in if s = 0 then NaN else if 0 < s then PInf else NInf)"

definition f64_of_int64 :: "duration \<Rightarrow> f64" where
  \<comment> \<open>\<open>float64(d)\<close>\<close>
  "f64_of_int64 d = f64_of_rat (of_int (sint d))"

definition rat_trunc :: "rat \<Rightarrow> int" where
  "rat_trunc x = (if 0 \<le> x then \<lfloor>x\<rfloor> else \<lceil>x\<rceil>)"

definition int64_of_f64 :: "(f64 \<Rightarrow> duration) \<Rightarrow> f64 \<Rightarrow> duration" where
  \<comment> \<open>\<open>int64(x)\<close>: the fraction is discarded; where the value is not an \<open>int64\<close> the
    language leaves the result to the implementation, the parameter\<close>
  "int64_of_f64 impl x =
     (case x of Fin a \<Rightarrow> if in_int64 (rat_trunc a) then int64 (rat_trunc a) else impl x | _ \<Rightarrow> impl x)"

definition f64_const :: "rat \<Rightarrow> f64" where
  \<comment> \<open>an untyped constant converted to \<open>float64\<close>\<close>
  "f64_const x = f64_of_rat x"

lemma f64_le_Fin: "f64_le (Fin a) (Fin b) \<longleftrightarrow> a \<le> b"
  by (auto simp: f64_le_def)

lemma f64_of_rat_Fin: "\<bar>binary64 x\<bar> < pow2 1024 \<Longrightarrow> f64_of_rat x = Fin (binary64 x)"
  by (auto simp: f64_of_rat_def Let_def abs_less_iff not_le)

lemma binary64_pow2:
  assumes "-1074 \<le> k"
  shows "binary64 (pow2 k) = pow2 k"
  using round_pos_exact [of 1 k] assms by (simp add: binary64_def less_imp_le not_less)

lemma binary64_bounded:
  assumes "\<bar>x\<bar> \<le> pow2 k" "-1074 \<le> k"
  shows "\<bar>binary64 x\<bar> \<le> pow2 k"
proof -
  have "binary64 x \<le> binary64 (pow2 k)" "binary64 (- pow2 k) \<le> binary64 x"
    using assms(1) by (auto intro!: binary64_mono)
  then show ?thesis using binary64_pow2 [OF assms(2)] by (simp add: binary64_minus abs_le_iff)
qed

lemma f64_of_rat_bounded:
  assumes "\<bar>x\<bar> \<le> pow2 k" "-1074 \<le> k" "k < 1024"
  shows "f64_of_rat x = Fin (binary64 x)" "\<bar>binary64 x\<bar> \<le> pow2 k"
proof -
  show b: "\<bar>binary64 x\<bar> \<le> pow2 k" by (rule binary64_bounded [OF assms(1,2)])
  have "pow2 k < pow2 1024" using assms(3) by simp
  then show "f64_of_rat x = Fin (binary64 x)" using b by (intro f64_of_rat_Fin) linarith
qed

lemma binary64_nonneg: "0 \<le> x \<Longrightarrow> 0 \<le> binary64 x"
  using binary64_mono [of 0 x] by simp

lemma f64_of_int64_Fin: "f64_of_int64 d = Fin (binary64 (of_int (sint d)))"
proof -
  have p: "pow2 63 = of_int (2 ^ 63)" by (simp add: pow2_nonneg_int)
  have "\<bar>of_int (sint d)\<bar> \<le> pow2 63"
    using sint_duration_range [of d] unfolding p in_int64_def
    by (simp only: of_int_abs [symmetric] of_int_le_iff) linarith
  then show ?thesis by (simp add: f64_of_int64_def f64_of_rat_bounded(1))
qed

text \<open>
  A representable value below the conversion of an integer does not exceed the integer, even
  where the conversion rounds up.
\<close>

lemma floor_below_converted:
  assumes "binary64 q = q" "q < binary64 (of_int n)"
  shows "\<lfloor>q\<rfloor> \<le> n"
proof (rule ccontr)
  assume "\<not> \<lfloor>q\<rfloor> \<le> n"
  then have "of_int n \<le> q" by (metis le_floor_iff linorder_le_cases order_trans)
  then have "binary64 (of_int n) \<le> binary64 q" by (rule binary64_mono)
  with assms show False by simp
qed

end
