(* ===== verification/GoText.thy ===== *)
theory GoText
  imports Prelude
begin

text \<open>
  Go strings: sequences of bytes (a HOL \<open>string\<close> is a list of 8-bit characters), read as
  UTF-8 where the standard library reads runes. The functions of the packages \<open>strings\<close>
  and \<open>unicode/utf8\<close> the program uses are defined here: rune decoding and encoding
  (\<open>[]rune(s)\<close>, \<open>string(rs)\<close>), \<open>TrimSpace\<close>, \<open>Fields\<close>,
  \<open>EqualFold\<close> against an ASCII word, \<open>ContainsAny\<close>, \<open>HasPrefix\<close>,
  \<open>TrimRight\<close>, \<open>Split\<close> and \<open>Join\<close>, and \<open>strconv\<close>'s decimal
  integers. The lemmas: chunks concatenate to the string, decoding inverts encoding, trimming
  gives nothing but a middle part, splitting inverts joining.
\<close>

section \<open>UTF-8\<close>

definition is_cont :: "nat \<Rightarrow> bool" where
  "is_cont b \<longleftrightarrow> 128 \<le> b \<and> b \<le> 191"

text \<open>
  The size \<open>utf8.DecodeRune\<close> reports for the first rune: an encoding that is not
  well-formed UTF-8 counts as one byte.
\<close>

definition first_size :: "nat list \<Rightarrow> nat" where
  "first_size bs =
     (case bs of
        [] \<Rightarrow> 0
      | b0 # _ \<Rightarrow>
          if 194 \<le> b0 \<and> b0 \<le> 223 then
            (case bs of _ # b1 # _ \<Rightarrow> if is_cont b1 then 2 else 1 | _ \<Rightarrow> 1)
          else if 224 \<le> b0 \<and> b0 \<le> 239 then
            (case bs of _ # b1 # b2 # _ \<Rightarrow>
               if is_cont b1 \<and> is_cont b2 \<and> (b0 = 224 \<longrightarrow> 160 \<le> b1) \<and> (b0 = 237 \<longrightarrow> b1 \<le> 159)
               then 3 else 1
             | _ \<Rightarrow> 1)
          else if 240 \<le> b0 \<and> b0 \<le> 244 then
            (case bs of _ # b1 # b2 # b3 # _ \<Rightarrow>
               if is_cont b1 \<and> is_cont b2 \<and> is_cont b3 \<and>
                  (b0 = 240 \<longrightarrow> 144 \<le> b1) \<and> (b0 = 244 \<longrightarrow> b1 \<le> 143)
               then 4 else 1
             | _ \<Rightarrow> 1)
          else 1)"

definition bytes_of :: "string \<Rightarrow> nat list" where
  "bytes_of s = map of_char s"

lemma first_size_pos: "bs \<noteq> [] \<Longrightarrow> 0 < first_size bs"
  by (cases bs) (auto simp: first_size_def split: list.splits)

function chunks :: "string \<Rightarrow> string list" where
  "chunks s =
     (if s = [] then []
      else let n = first_size (bytes_of (take 4 s)) in take n s # chunks (drop n s))"
  by pat_completeness auto

termination
proof (relation "measure length")
  fix s :: string and n
  assume "s \<noteq> []" "n = first_size (bytes_of (take 4 s))"
  then show "(drop n s, s) \<in> measure length"
    using first_size_pos [of "bytes_of (take 4 s)"] by (simp add: bytes_of_def)
qed simp

declare chunks.simps [simp del]

definition replacement_rune :: nat where
  "replacement_rune = 65533"

definition rune_of :: "string \<Rightarrow> nat" where
  \<comment> \<open>the rune of one chunk\<close>
  "rune_of c =
     (case bytes_of c of
        [b0] \<Rightarrow> if b0 < 128 then b0 else replacement_rune
      | [b0, b1] \<Rightarrow> (b0 - 192) * 64 + (b1 - 128)
      | [b0, b1, b2] \<Rightarrow> (b0 - 224) * 4096 + (b1 - 128) * 64 + (b2 - 128)
      | [b0, b1, b2, b3] \<Rightarrow>
          (b0 - 240) * 262144 + (b1 - 128) * 4096 + (b2 - 128) * 64 + (b3 - 128)
      | _ \<Rightarrow> replacement_rune)"

definition runes :: "string \<Rightarrow> nat list" where
  \<comment> \<open>\<open>[]rune(s)\<close>\<close>
  "runes s = map rune_of (chunks s)"

definition valid_rune :: "nat \<Rightarrow> bool" where
  "valid_rune r \<longleftrightarrow> r < 55296 \<or> (57343 < r \<and> r \<le> 1114111)"

definition encode_rune :: "nat \<Rightarrow> string" where
  \<comment> \<open>\<open>utf8.AppendRune\<close>\<close>
  "encode_rune r0 =
     (let r = (if valid_rune r0 then r0 else replacement_rune) in
      map char_of
       (if r < 128 then [r]
        else if r < 2048 then [192 + r div 64, 128 + r mod 64]
        else if r < 65536 then [224 + r div 4096, 128 + r div 64 mod 64, 128 + r mod 64]
        else [240 + r div 262144, 128 + r div 4096 mod 64, 128 + r div 64 mod 64, 128 + r mod 64]))"

definition string_of_runes :: "nat list \<Rightarrow> string" where
  \<comment> \<open>\<open>string(rs)\<close>\<close>
  "string_of_runes rs = concat (map encode_rune rs)"

lemma chunks_Nil [simp]: "chunks [] = []"
  by (simp add: chunks.simps)

lemma chunks_unfold:
  "s \<noteq> [] \<Longrightarrow> chunks s =
     take (first_size (bytes_of (take 4 s))) s # chunks (drop (first_size (bytes_of (take 4 s))) s)"
  by (subst chunks.simps) (simp add: Let_def)

lemma chunks_ascii [simp]:
  assumes "(of_char c :: nat) < 128"
  shows "chunks (c # s) = [c] # chunks s"
proof -
  have "first_size (bytes_of (take 4 (c # s))) = 1"
    using assms by (simp add: first_size_def bytes_of_def)
  then show ?thesis by (subst chunks_unfold) simp_all
qed

lemma runes_ascii [simp]: "(of_char c :: nat) < 128 \<Longrightarrow> runes (c # s) = of_char c # runes s"
  by (simp add: runes_def rune_of_def bytes_of_def)

lemma runes_Nil [simp]: "runes [] = []"
  by (simp add: runes_def)

lemma concat_chunks: "concat (chunks s) = s"
proof (induction s rule: chunks.induct)
  case (1 s)
  show ?case
  proof (cases "s = []")
    case False
    with 1 show ?thesis by (simp add: chunks_unfold)
  qed simp
qed

lemma chunks_nonempty: "c \<in> set (chunks s) \<Longrightarrow> c \<noteq> []"
proof (induction s rule: chunks.induct)
  case (1 s)
  show ?case
  proof (cases "s = []")
    case False
    with 1 first_size_pos [of "bytes_of (take 4 s)"] show ?thesis
      by (auto simp: chunks_unfold bytes_of_def)
  qed (use 1 in simp)
qed

lemma chunks_eq_Nil [simp]: "chunks s = [] \<longleftrightarrow> s = []"
  by (cases "s = []") (simp_all add: chunks_unfold)

subsection \<open>Decoding inverts encoding\<close>

lemma of_char_char_of_byte: "n < 256 \<Longrightarrow> of_char (char_of n :: char) = (n :: nat)"
  by (simp add: of_char_of)

lemma encode_chunk:
  assumes "valid_rune r"
  shows "first_size (bytes_of (take 4 (encode_rune r @ s))) = length (encode_rune r) \<and>
         rune_of (encode_rune r) = r"
proof -
  consider "r < 128" | "128 \<le> r" "r < 2048" | "2048 \<le> r" "r < 65536" | "65536 \<le> r" "r \<le> 1114111"
    using assms by (force simp: valid_rune_def)
  then show ?thesis
  proof cases
    case 1
    then show ?thesis using assms
      by (simp add: encode_rune_def bytes_of_def rune_of_def first_size_def of_char_char_of_byte)
  next
    case 2
    then have "194 \<le> 192 + r div 64" "192 + r div 64 \<le> 223" "r mod 64 < 64" by auto
    with 2 assms show ?thesis
      by (simp add: encode_rune_def bytes_of_def rune_of_def first_size_def of_char_char_of_byte
          is_cont_def)
  next
    case 3
    have d: "r div 4096 < 16" "r div 64 mod 64 \<le> 63" "r mod 64 \<le> 63" using 3 by auto
    have "r div 4096 = r div 64 div 64" by (simp flip: div_mult2_eq)
    then have split: "r = r div 4096 * 4096 + r div 64 mod 64 * 64 + r mod 64"
      using div_mult_mod_eq [of r 64] div_mult_mod_eq [of "r div 64" 64] by linarith
    have lo: "r div 4096 = 0 \<longrightarrow> 32 \<le> r div 64 mod 64" using 3 by (auto simp: div_eq_0_iff)
    have hi: "r div 4096 = 13 \<longrightarrow> r div 64 mod 64 \<le> 31"
      using assms 3 split d(3) by (auto simp: valid_rune_def)
    from 3 assms d lo hi split show ?thesis
      by (simp add: encode_rune_def bytes_of_def rune_of_def first_size_def of_char_char_of_byte
          is_cont_def)
  next
    case 4
    have d: "r div 262144 \<le> 4" "r div 4096 mod 64 \<le> 63" "r div 64 mod 64 \<le> 63" "r mod 64 \<le> 63"
      using 4 by auto
    have "r div 4096 = r div 64 div 64" "r div 262144 = r div 4096 div 64"
      by (simp_all flip: div_mult2_eq)
    then have split:
      "r = r div 262144 * 262144 + r div 4096 mod 64 * 4096 + r div 64 mod 64 * 64 + r mod 64"
      using div_mult_mod_eq [of r 64] div_mult_mod_eq [of "r div 64" 64]
        div_mult_mod_eq [of "r div 4096" 64] by linarith
    have lo: "r div 262144 = 0 \<longrightarrow> 16 \<le> r div 4096 mod 64" using 4(1) split d(3,4) by linarith
    have hi: "r div 262144 = 4 \<longrightarrow> r div 4096 mod 64 \<le> 15" using 4(2) split by linarith
    from 4 assms d lo hi split show ?thesis
      by (simp add: encode_rune_def bytes_of_def rune_of_def first_size_def of_char_char_of_byte
          is_cont_def)
  qed
qed

lemma encode_rune_nonempty [simp]: "encode_rune r \<noteq> []"
  by (simp add: encode_rune_def Let_def)

lemma runes_string_of_runes:
  "list_all valid_rune rs \<Longrightarrow> runes (string_of_runes rs) = rs"
proof (induction rs)
  case Nil
  then show ?case by (simp add: runes_def string_of_runes_def)
next
  case (Cons r rs)
  let ?t = "concat (map encode_rune rs)"
  from Cons.prems have v: "valid_rune r" by simp
  have ne: "encode_rune r @ ?t \<noteq> []" by simp
  have "chunks (encode_rune r @ ?t) = encode_rune r # chunks ?t"
    using encode_chunk [OF v, of ?t] by (simp add: chunks_unfold [OF ne])
  with Cons encode_chunk [OF v, of ?t] show ?case
    by (simp add: runes_def string_of_runes_def)
qed


lemma first_size_cases:
  assumes "bs \<noteq> []" "first_size bs \<noteq> 1"
  shows "(\<exists>b0 b1 r. bs = b0 # b1 # r \<and> first_size bs = 2 \<and> 194 \<le> b0 \<and> b0 \<le> 223 \<and> is_cont b1) \<or>
    (\<exists>b0 b1 b2 r. bs = b0 # b1 # b2 # r \<and> first_size bs = 3 \<and> 224 \<le> b0 \<and> b0 \<le> 239 \<and>
       is_cont b1 \<and> is_cont b2 \<and> (b0 = 237 \<longrightarrow> b1 \<le> 159)) \<or>
    (\<exists>b0 b1 b2 b3 r. bs = b0 # b1 # b2 # b3 # r \<and> first_size bs = 4 \<and> 240 \<le> b0 \<and> b0 \<le> 244 \<and>
       is_cont b1 \<and> is_cont b2 \<and> is_cont b3 \<and> (b0 = 240 \<longrightarrow> 144 \<le> b1) \<and> (b0 = 244 \<longrightarrow> b1 \<le> 143))"
  using assms by (auto simp: first_size_def split: list.splits if_splits)

lemma offset_ex: "a \<le> b \<Longrightarrow> b \<le> a + k \<Longrightarrow> \<exists>x. b = a + x \<and> x \<le> (k :: nat)"
  by presburger

lemma decoded_valid:
  assumes "bs \<noteq> []" "list_all (\<lambda>b. b < 256) bs"
  shows "valid_rune (rune_of (map char_of (take (first_size bs) bs)))"
proof -
  have b: "bytes_of (map char_of (take n bs)) = take n bs" for n
    using assms(2)
    by (auto simp: bytes_of_def list_all_iff o_def of_char_char_of_byte
        dest!: in_set_takeD intro!: map_idI)
  show ?thesis
  proof (cases "first_size bs = 1")
    case True
    then show ?thesis using assms(1) b [of 1]
      by (cases bs) (simp_all add: rune_of_def valid_rune_def replacement_rune_def)
  next
    case False
    from first_size_cases [OF assms(1) False] show ?thesis
    proof (elim disjE exE conjE)
      fix b0 b1 r
      assume "bs = b0 # b1 # r" "first_size bs = 2" "b0 \<le> 223" "is_cont b1"
      then show ?thesis using b [of 2]
        by (simp add: rune_of_def valid_rune_def is_cont_def) arith
    next
      fix b0 b1 b2 r
      assume h: "bs = b0 # b1 # b2 # r" "first_size bs = 3" "224 \<le> b0" "b0 \<le> 239"
        "is_cont b1" "is_cont b2" "b0 = 237 \<longrightarrow> b1 \<le> 159"
      obtain x y z where x: "b0 = 224 + x" "x \<le> 15" "b1 = 128 + y" "y \<le> 63"
          "b2 = 128 + z" "z \<le> 63"
        using offset_ex [of 224 b0 15] offset_ex [of 128 b1 63] offset_ex [of 128 b2 63] h(3-6)
        unfolding is_cont_def by auto
      then have "x < 13 \<or> x = 13 \<and> y \<le> 31 \<or> 14 \<le> x" using h(7) by auto
      then show ?thesis using b [of 3] x h(1,2)
        by (auto simp: rune_of_def valid_rune_def)
    next
      fix b0 b1 b2 b3 r
      assume h: "bs = b0 # b1 # b2 # b3 # r" "first_size bs = 4" "240 \<le> b0" "b0 \<le> 244"
        "is_cont b1" "is_cont b2" "is_cont b3" "b0 = 240 \<longrightarrow> 144 \<le> b1" "b0 = 244 \<longrightarrow> b1 \<le> 143"
      obtain x y z w where x: "b0 = 240 + x" "x \<le> 4" "b1 = 128 + y" "y \<le> 63"
          "b2 = 128 + z" "z \<le> 63" "b3 = 128 + w" "w \<le> 63"
        using offset_ex [of 240 b0 4] offset_ex [of 128 b1 63] offset_ex [of 128 b2 63]
          offset_ex [of 128 b3 63] h(3-7)
        unfolding is_cont_def by auto
      then have "x = 0 \<and> 16 \<le> y \<or> 1 \<le> x \<and> x < 4 \<or> x = 4 \<and> y \<le> 15" using h(8,9) by auto
      then show ?thesis using b [of 4] x h(1,2)
        by (auto simp: rune_of_def valid_rune_def)
    qed
  qed
qed

lemma chunk_rune_valid: "c \<in> set (chunks s) \<Longrightarrow> valid_rune (rune_of c)"
proof (induction s rule: chunks.induct)
  case (1 s)
  show ?case
  proof (cases "s = []")
    case False
    let ?bs = "bytes_of (take 4 s)"
    have le: "first_size ?bs \<le> 4"
      by (auto simp: first_size_def split: list.splits)
    have bytes: "list_all (\<lambda>b. b < 256) ?bs"
      by (simp add: bytes_of_def list_all_iff)
    have "take (first_size ?bs) s = map char_of (take (first_size ?bs) ?bs)"
      using le by (simp add: bytes_of_def take_map min_def o_def)
    then have "valid_rune (rune_of (take (first_size ?bs) s))"
      using decoded_valid [OF _ bytes] False by (simp add: bytes_of_def)
    with 1 False show ?thesis by (auto simp: chunks_unfold)
  qed (use 1 in simp)
qed

lemma runes_valid: "list_all valid_rune (runes s)"
  by (auto simp: list_all_iff runes_def chunk_rune_valid)

lemma runes_take: "runes (string_of_runes (take n (runes s))) = take n (runes s)"
  using runes_valid [of s] by (intro runes_string_of_runes) (auto simp: list_all_iff dest: in_set_takeD)

section \<open>Package strings\<close>

definition is_space_rune :: "nat \<Rightarrow> bool" where
  \<comment> \<open>\<open>unicode.IsSpace\<close>\<close>
  "is_space_rune r \<longleftrightarrow>
     (9 \<le> r \<and> r \<le> 13) \<or> r = 32 \<or> r = 133 \<or> r = 160 \<or> r = 5760 \<or>
     (8192 \<le> r \<and> r \<le> 8202) \<or> r = 8232 \<or> r = 8233 \<or> r = 8239 \<or> r = 8287 \<or> r = 12288"

definition space_chunk :: "string \<Rightarrow> bool" where
  "space_chunk c \<longleftrightarrow> is_space_rune (rune_of c)"

definition TrimSpace :: "string \<Rightarrow> string" where
  "TrimSpace s = concat (rev (dropWhile space_chunk (rev (dropWhile space_chunk (chunks s)))))"

fun fields_from :: "string list \<Rightarrow> string \<Rightarrow> string list" where
  "fields_from [] cur = (if cur = [] then [] else [cur])"
| "fields_from (c # cs) cur =
     (if space_chunk c then (if cur = [] then fields_from cs [] else cur # fields_from cs [])
      else fields_from cs (cur @ c))"

definition Fields :: "string \<Rightarrow> string list" where
  "Fields s = fields_from (chunks s) []"

definition ascii_lower :: "nat \<Rightarrow> nat" where
  "ascii_lower b = (if 65 \<le> b \<and> b \<le> 90 then b + 32 else b)"

definition fold_equal :: "nat \<Rightarrow> nat \<Rightarrow> bool" where
  \<comment> \<open>simple case folding of a rune against an ASCII byte: besides the ASCII letters, the
    Kelvin sign folds to k and the long s to s\<close>
  "fold_equal r b \<longleftrightarrow> ascii_lower r = ascii_lower b \<or>
     (r = 8490 \<and> ascii_lower b = 107) \<or> (r = 383 \<and> ascii_lower b = 115)"

definition EqualFold :: "string \<Rightarrow> string \<Rightarrow> bool" where
  \<comment> \<open>\<open>strings.EqualFold(s, t)\<close> for an ASCII \<open>t\<close>\<close>
  "EqualFold s t = list_all2 fold_equal (runes s) (bytes_of t)"

definition ContainsAny :: "string \<Rightarrow> string \<Rightarrow> bool" where
  \<comment> \<open>for ASCII \<open>cs\<close>\<close>
  "ContainsAny s cs \<longleftrightarrow> list_ex (\<lambda>c. c \<in> set cs) s"

definition HasPrefix :: "string \<Rightarrow> string \<Rightarrow> bool" where
  "HasPrefix s p \<longleftrightarrow> take (length p) s = p"

definition TrimRight :: "string \<Rightarrow> string \<Rightarrow> string" where
  "TrimRight s cs = rev (dropWhile (\<lambda>c. c \<in> set cs) (rev s))"

fun Join :: "string list \<Rightarrow> string \<Rightarrow> string" where
  "Join [] sep = []"
| "Join [x] sep = x"
| "Join (x # y # xs) sep = x @ sep @ Join (y # xs) sep"

fun Split :: "char \<Rightarrow> string \<Rightarrow> string list" where
  "Split c [] = [[]]"
| "Split c (x # xs) =
     (if x = c then [] # Split c xs
      else (case Split c xs of [] \<Rightarrow> [[x]] | p # ps \<Rightarrow> (x # p) # ps))"

definition ToLower :: "string \<Rightarrow> string" where
  \<comment> \<open>on ASCII text\<close>
  "ToLower s = map (\<lambda>c. char_of (ascii_lower (of_char c))) s"

lemma Split_nonempty [simp]: "Split c s \<noteq> []"
  by (cases s) (auto split: list.splits)

text \<open>For the evaluation of \<open>TrimSpace\<close> on a literal.\<close>

lemmas trim_eval = TrimSpace_def space_chunk_def rune_of_def bytes_of_def is_space_rune_def

lemma TrimSpace_Nil [simp]: "TrimSpace [] = []"
  by (simp add: TrimSpace_def)

lemma TrimSpace_infix: "\<exists>a b. s = a @ TrimSpace s @ b"
proof -
  let ?d = "dropWhile space_chunk (chunks s)" and ?t = "takeWhile space_chunk (chunks s)"
  have d: "?d = rev (dropWhile space_chunk (rev ?d)) @ rev (takeWhile space_chunk (rev ?d))"
    by (metis rev_append rev_rev_ident takeWhile_dropWhile_id)
  have "s = concat ?t @ concat ?d"
    by (metis concat_append concat_chunks takeWhile_dropWhile_id)
  also have "concat ?d = TrimSpace s @ concat (rev (takeWhile space_chunk (rev ?d)))"
    by (subst d) (simp add: TrimSpace_def)
  finally show ?thesis by blast
qed

lemma TrimSpace_length: "length (TrimSpace s) \<le> length s"
proof -
  obtain a b where "s = a @ TrimSpace s @ b" using TrimSpace_infix [of s] by blast
  then have "length s = length a + length (TrimSpace s) + length b"
    by (metis length_append add.assoc)
  then show ?thesis by simp
qed

lemma dropWhile_all: "(\<forall>x \<in> set (dropWhile P xs). P x) \<longleftrightarrow> (\<forall>x \<in> set xs. P x)"
  by (induction xs) auto

lemma all_Nil_iff: "(\<And>c. c \<in> set m \<Longrightarrow> c \<noteq> []) \<Longrightarrow> (\<forall>c \<in> set m. c = []) \<longleftrightarrow> m = []"
  by (cases m) auto

lemma TrimSpace_empty_iff: "TrimSpace s = [] \<longleftrightarrow> list_all space_chunk (chunks s)"
proof -
  let ?m = "dropWhile space_chunk (rev (dropWhile space_chunk (chunks s)))"
  have sub: "set ?m \<subseteq> set (chunks s)"
    by (auto dest!: set_dropWhileD)
  have "TrimSpace s = [] \<longleftrightarrow> (\<forall>c \<in> set ?m. c = [])"
    by (simp add: TrimSpace_def)
  also have "\<dots> \<longleftrightarrow> ?m = []"
    using sub chunks_nonempty [of _ s] by (intro all_Nil_iff) blast
  also have "\<dots> \<longleftrightarrow> list_all space_chunk (chunks s)"
    by (simp add: dropWhile_eq_Nil_conv dropWhile_all list_all_iff)
  finally show ?thesis .
qed

lemma HasPrefix_iff: "HasPrefix s p \<longleftrightarrow> (\<exists>t. s = p @ t)"
  by (auto simp: HasPrefix_def) (metis append_take_drop_id)

section \<open>Package strconv\<close>

definition is_digit :: "char \<Rightarrow> bool" where
  "is_digit c \<longleftrightarrow> 48 \<le> (of_char c :: nat) \<and> (of_char c :: nat) \<le> 57"

definition digit_val :: "char \<Rightarrow> int" where
  "digit_val c = int (of_char c) - 48"

fun digits_val :: "int \<Rightarrow> string \<Rightarrow> int" where
  "digits_val acc [] = acc"
| "digits_val acc (c # cs) = digits_val (10 * acc + digit_val c) cs"

definition ParseInt :: "nat \<Rightarrow> string \<Rightarrow> int option" where
  \<comment> \<open>\<open>strconv.ParseInt(s, 10, bits)\<close>; \<open>None\<close> is a syntax or range error\<close>
  "ParseInt bits s =
     (let (neg, ds) = (case s of [] \<Rightarrow> (False, []) | c # cs \<Rightarrow>
            if c = CHR ''-'' then (True, cs) else if c = CHR ''+'' then (False, cs) else (False, s));
          v = (if neg then - digits_val 0 ds else digits_val 0 ds)
      in if ds = [] \<or> \<not> list_all is_digit ds then None
         else if - (2 ^ (bits - 1)) \<le> v \<and> v < 2 ^ (bits - 1) then Some v else None)"

definition Atoi :: "string \<Rightarrow> int option" where
  "Atoi s = ParseInt 64 s"

fun nat_digits :: "nat \<Rightarrow> string" where
  "nat_digits n =
     (if n < 10 then [char_of (48 + n)] else nat_digits (n div 10) @ [char_of (48 + n mod 10)])"

declare nat_digits.simps [simp del]

definition Itoa :: "int \<Rightarrow> string" where
  "Itoa v = (if v < 0 then CHR ''-'' # nat_digits (nat (- v)) else nat_digits (nat v))"

text \<open>Parsing gives back what was printed.\<close>

lemma digits_val_append: "digits_val acc (xs @ ys) = digits_val (digits_val acc xs) ys"
  by (induction xs arbitrary: acc) auto

lemma nat_digits_digits: "list_all is_digit (nat_digits n) \<and> nat_digits n \<noteq> []"
proof (induction n rule: nat_digits.induct)
  case (1 n)
  show ?case
  proof (cases "n < 10")
    case True
    then show ?thesis by (subst (1 2) nat_digits.simps) (simp add: is_digit_def of_char_of)
  next
    case False
    have "n mod 10 \<le> 9" using pos_mod_bound [of 10 n] by linarith
    then have "is_digit (char_of (48 + n mod 10))" by (simp add: is_digit_def of_char_of)
    then show ?thesis using 1 False by (subst (1 2) nat_digits.simps) simp
  qed
qed

lemma digits_val_nat_digits: "digits_val 0 (nat_digits n) = int n"
proof (induction n rule: nat_digits.induct)
  case (1 n)
  show ?case
  proof (cases "n < 10")
    case True
    then show ?thesis by (subst nat_digits.simps) (simp add: digit_val_def of_char_of)
  next
    case False
    have "digits_val 0 (nat_digits n) = 10 * digits_val 0 (nat_digits (n div 10)) + int (n mod 10)"
      using False by (subst nat_digits.simps) (simp add: digits_val_append digit_val_def of_char_of)
    also have "digits_val 0 (nat_digits (n div 10)) = int (n div 10)" using 1 False by blast
    also have "10 * int (n div 10) + int (n mod 10) = int (10 * (n div 10) + n mod 10)"
      unfolding of_nat_add of_nat_mult by simp
    also have "\<dots> = int n" unfolding mult_div_mod_eq by (rule refl)
    finally show ?thesis .
  qed
qed

lemma digit_head: "nat_digits n = c # cs \<Longrightarrow> c \<noteq> CHR ''-'' \<and> c \<noteq> CHR ''+''"
  using nat_digits_digits [of n] by (auto simp: is_digit_def)

lemma ParseInt_Itoa:
  assumes "- (2 ^ (b - 1)) \<le> v" "v < 2 ^ (b - 1)"
  shows "ParseInt b (Itoa v) = Some v"
proof (cases "v < 0")
  case True
  have "nat_digits (nat (- v)) \<noteq> [] \<and> list_all is_digit (nat_digits (nat (- v)))"
    using nat_digits_digits by blast
  then show ?thesis
    using assms True digits_val_nat_digits [of "nat (- v)"]
    by (simp add: ParseInt_def Itoa_def)
next
  case False
  obtain c cs where c: "nat_digits (nat v) = c # cs"
    using nat_digits_digits [of "nat v"] by (cases "nat_digits (nat v)") auto
  have d: "list_all is_digit (nat_digits (nat v))" using nat_digits_digits by blast
  show ?thesis
    using assms False d digits_val_nat_digits [of "nat v"] digit_head [OF c]
    by (simp add: ParseInt_def Itoa_def c)
qed

end
