(* ===== verification/GoErrors.thy ===== *)
theory GoErrors
  imports GoText
begin

text \<open>
  Go error values. An error is a node, what it is and the errors it wraps
  (\<open>fmt.Errorf\<close> with \<open>%w\<close>, \<open>errors.Join\<close>, an \<open>Unwrap\<close> method);
  \<open>errors.Is\<close> and \<open>errors.As\<close> walk the tree in depth-first order, as the package
  documents. The program's own error types and the ones of the libraries that its code tells
  apart are the kinds; the methods of \<open>telegram.APIError\<close> and \<open>email.SMTPError\<close> that
  the retry policy calls through its interfaces are defined here.
\<close>

datatype sentinel =
    ErrIdentityConflict | ErrStaleClaim | ErrSenderNotRegistered
  | ErrChannelNotFound | ErrChannelConflict | ErrUnavailable
  | ErrInvalidEvent | ErrInvalidToken | ErrClosed | ErrNilFunc
  | ContextCanceled | IoEOF | IoUnexpectedEOF | PgxNoRows | RedisNil | PuddleClosedPool
  | HttpServerClosed

datatype errkind =
    Text string               \<comment> \<open>\<open>errors.New\<close>, \<open>fmt.Errorf\<close>\<close>
  | Sentinel sentinel         \<comment> \<open>a package-level error value, compared by identity\<close>
  | DeadlineExceeded          \<comment> \<open>\<open>context.DeadlineExceeded\<close>, which is also a \<open>net.Error\<close>\<close>
  | NetError string           \<comment> \<open>any other error that implements \<open>net.Error\<close>\<close>
  | ApiError int int string duration
      \<comment> \<open>\<open>telegram.APIError\<close>: HTTPStatus, Code, Description, RetryAfter\<close>
  | TransportError            \<comment> \<open>\<open>telegram.TransportError\<close>\<close>
  | SMTPError string          \<comment> \<open>\<open>email.SMTPError\<close>: Operation\<close>
  | ProtoError int            \<comment> \<open>\<open>textproto.Error\<close>: Code\<close>
  | PgError string string     \<comment> \<open>\<open>pgconn.PgError\<close>: Code, ConstraintName\<close>
  | PgConnectError            \<comment> \<open>\<open>pgconn.ConnectError\<close>\<close>
  | PgTimeout                 \<comment> \<open>what \<open>pgconn.Timeout\<close> recognises\<close>
  | MaxBytesError             \<comment> \<open>\<open>http.MaxBytesError\<close>\<close>

datatype goerr = GoErr (err_kind: errkind) (unwrap: "goerr list")

abbreviation plain_err :: "string \<Rightarrow> goerr" where
  "plain_err m \<equiv> GoErr (Text m) []"

abbreviation wrap_err :: "string \<Rightarrow> goerr \<Rightarrow> goerr" where
  "wrap_err m e \<equiv> GoErr (Text m) [e]"

abbreviation sentinel_err :: "sentinel \<Rightarrow> goerr" where
  "sentinel_err s \<equiv> GoErr (Sentinel s) []"

fun chain :: "goerr \<Rightarrow> goerr list" where
  "chain (GoErr k es) = GoErr k es # concat (map chain es)"

definition errors_is :: "goerr \<Rightarrow> sentinel \<Rightarrow> bool" where
  "errors_is e s = list_ex (\<lambda>n. err_kind n = Sentinel s) (chain e)"

definition errors_as :: "(goerr \<Rightarrow> bool) \<Rightarrow> goerr \<Rightarrow> goerr option" where
  "errors_as is_type e = find is_type (chain e)"

definition errors_join :: "goerr option list \<Rightarrow> goerr option" where
  \<comment> \<open>\<open>errors.Join\<close>: nil arguments are dropped, nil when none is left\<close>
  "errors_join es =
     (case List.map_filter id es of [] \<Rightarrow> None | xs \<Rightarrow> Some (GoErr (Text ''join'') xs))"

text \<open>The type tests behind \<open>errors.As\<close>.\<close>

fun is_net_error :: "goerr \<Rightarrow> bool" where
  "is_net_error (GoErr (NetError _) _) = True"
| "is_net_error (GoErr DeadlineExceeded _) = True"
| "is_net_error _ = False"

fun is_proto_error :: "goerr \<Rightarrow> bool" where
  "is_proto_error (GoErr (ProtoError _) _) = True"
| "is_proto_error _ = False"

fun is_api_error :: "goerr \<Rightarrow> bool" where
  "is_api_error (GoErr (ApiError _ _ _ _) _) = True"
| "is_api_error _ = False"

fun is_transport_error :: "goerr \<Rightarrow> bool" where
  "is_transport_error (GoErr TransportError _) = True"
| "is_transport_error _ = False"

fun is_smtp_error :: "goerr \<Rightarrow> bool" where
  "is_smtp_error (GoErr (SMTPError _) _) = True"
| "is_smtp_error _ = False"

fun proto_code :: "goerr \<Rightarrow> int" where
  "proto_code (GoErr (ProtoError c) _) = c"
| "proto_code _ = 0"

section \<open>Methods of the senders' errors\<close>

definition APIError_Retryable :: "int \<Rightarrow> int \<Rightarrow> bool" where
  "APIError_Retryable http_status code \<longleftrightarrow>
     http_status = 429 \<or> 500 \<le> http_status \<or> code = 429 \<or> 500 \<le> code"

definition SMTPError_Retryable :: "goerr list \<Rightarrow> bool" where
  \<comment> \<open>the argument is the field \<open>Err\<close>, the only error this node wraps\<close>
  "SMTPError_Retryable es =
     (let nodes = concat (map chain es) in
      case find is_proto_error nodes of
        Some n \<Rightarrow> 400 \<le> proto_code n \<and> proto_code n < 500
      | None \<Rightarrow> list_ex is_net_error nodes \<or>
          list_ex (\<lambda>n. err_kind n = Sentinel IoEOF) nodes \<or>
          list_ex (\<lambda>n. err_kind n = Sentinel IoUnexpectedEOF) nodes)"

text \<open>
  The interfaces \<open>retryableError\<close> and \<open>retryDelayError\<close> of package \<open>retry\<close>:
  \<open>None\<close> where the error's type has no such method.
\<close>

fun Retryable :: "goerr \<Rightarrow> bool option" where
  "Retryable (GoErr (ApiError st c _ _) _) = Some (APIError_Retryable st c)"
| "Retryable (GoErr (SMTPError _) es) = Some (SMTPError_Retryable es)"
| "Retryable _ = None"

fun RetryDelay :: "goerr \<Rightarrow> duration option" where
  "RetryDelay (GoErr (ApiError _ _ _ d) _) = Some d"
| "RetryDelay _ = None"

lemma chain_self: "e \<in> set (chain e)"
  by (cases e) simp

lemma errors_is_wrap: "errors_is (wrap_err m e) s = errors_is e s"
  by (simp add: errors_is_def)

lemma errors_is_sentinel [simp]: "errors_is (sentinel_err s) t \<longleftrightarrow> s = t"
  by (simp add: errors_is_def)

lemma errors_as_wrap:
  "(\<And>m es. \<not> P (GoErr (Text m) es)) \<Longrightarrow> errors_as P (wrap_err m e) = errors_as P e"
  by (simp add: errors_as_def)

end
