(* ===== verification/Retry.thy ===== *)
theory Retry
  imports Float64 GoErrors
begin

text \<open>
  \<open>internal/notification/retry\<close>: the retry policy. A policy is built by \<open>NewPolicy\<close>
  from a checked configuration; \<open>NextDelay\<close> decides whether a failed attempt is repeated and
  after which delay: exponential in the attempt, capped, spread by a jitter factor, and never
  below what the provider asked for. The random number the policy draws is the argument
  \<open>rv\<close>, the result of converting a NaN to a duration is the argument \<open>impl\<close>
  (the language leaves it to the implementation).
\<close>

record retry_config =
  MaxAttempts :: int
  BaseDelay :: duration
  MaxDelay :: duration
  JitterPercent :: f64

record policy =
  maxAttempts :: int
  baseDelay :: duration
  maxDelay :: duration
  jitterPercent :: f64

definition NewPolicy :: "retry_config \<Rightarrow> goerr + policy" where
  "NewPolicy config =
     (if MaxAttempts config \<le> 0 then
        Inl (plain_err ''retry max attempts must be greater than zero'')
      else if sint (BaseDelay config) \<le> 0 then
        Inl (plain_err ''retry base delay must be greater than zero'')
      else if sint (MaxDelay config) \<le> 0 then
        Inl (plain_err ''retry max delay must be greater than zero'')
      else if sint (MaxDelay config) < sint (BaseDelay config) then
        Inl (plain_err ''retry base delay must not exceed max delay'')
      else if f64_less (JitterPercent config) (Fin 0) \<or> f64_less (Fin 1) (JitterPercent config) then
        Inl (plain_err ''retry jitter percent must be between zero and one'')
      else Inr \<lparr>maxAttempts = MaxAttempts config, baseDelay = BaseDelay config,
                maxDelay = MaxDelay config, jitterPercent = JitterPercent config\<rparr>)"

definition default_config :: retry_config where
  "default_config =
     \<lparr>MaxAttempts = 8, BaseDelay = int64 Second, MaxDelay = int64 Hour,
      JitterPercent = f64_const (1 / 5)\<rparr>"

definition DefaultPolicy :: "goerr + policy" where
  \<comment> \<open>\<open>Inl\<close> is the panic\<close>
  "DefaultPolicy = NewPolicy default_config"

section \<open>Classification of errors\<close>

definition IsRetryable :: "goerr option \<Rightarrow> bool" where
  "IsRetryable err =
     (case err of
        None \<Rightarrow> False
      | Some e \<Rightarrow>
          (case errors_as (\<lambda>n. Retryable n \<noteq> None) e of
             Some classified \<Rightarrow> Retryable classified = Some True
           | None \<Rightarrow> errors_as is_net_error e \<noteq> None \<or> errors_is e IoEOF \<or> errors_is e IoUnexpectedEOF))"

definition SuggestedDelay :: "goerr option \<Rightarrow> duration" where
  "SuggestedDelay err =
     (case err of
        None \<Rightarrow> 0
      | Some e \<Rightarrow>
          (case errors_as (\<lambda>n. RetryDelay n \<noteq> None) e of
             None \<Rightarrow> 0
           | Some provider \<Rightarrow>
               (case RetryDelay provider of
                  None \<Rightarrow> 0
                | Some delay \<Rightarrow> if sint delay < 0 then 0 else delay)))"

section \<open>The delay\<close>

text \<open>
  The loop of \<open>exponentialDelay\<close>: \<open>Inl\<close> is the early return, \<open>Inr\<close> the delay
  with which the loop ends.
\<close>

function exponential_loop :: "policy \<Rightarrow> int \<Rightarrow> int \<Rightarrow> duration \<Rightarrow> duration + duration" where
  "exponential_loop p currentAttempt attempt delay =
     (if currentAttempt < attempt then
        (if sint (maxDelay p) \<le> sint delay \<or> sint (dur_div (maxDelay p) 2) < sint delay
         then Inl (maxDelay p)
         else exponential_loop p (currentAttempt + 1) attempt (delay * 2))
      else Inr delay)"
  by pat_completeness auto
termination
  by (relation "measure (\<lambda>(p, currentAttempt, attempt, delay). nat (attempt - currentAttempt))") auto

declare exponential_loop.simps [simp del]

definition exponentialDelay :: "policy \<Rightarrow> int \<Rightarrow> duration" where
  "exponentialDelay p attempt =
     (case exponential_loop p 1 attempt (baseDelay p) of
        Inl returned \<Rightarrow> returned
      | Inr delay \<Rightarrow> if sint (maxDelay p) < sint delay then maxDelay p else delay)"

definition withJitter :: "(f64 \<Rightarrow> duration) \<Rightarrow> f64 \<Rightarrow> policy \<Rightarrow> duration \<Rightarrow> duration" where
  "withJitter impl rv p delay =
     (if f64_eq (jitterPercent p) (Fin 0) then delay
      else
        let randomValue = (if f64_less rv (Fin 0) then Fin 0
                           else if f64_less (Fin 1) rv then Fin 1 else rv);
            minimumFactor = f64_sub (Fin 1) (jitterPercent p);
            factor = f64_add minimumFactor
                       (f64_mul (f64_mul (Fin 2) (jitterPercent p)) randomValue);
            jittered = f64_mul (f64_of_int64 delay) factor
        in if f64_le jittered (Fin 0) then 0
           else if f64_le (f64_of_int64 (maxDelay p)) jittered then maxDelay p
           else int64_of_f64 impl jittered)"

text \<open>
  A nil policy, a nil error and a nil context are \<open>None\<close>; a context is known by what its
  \<open>Err\<close> method returns.
\<close>

type_synonym ctx = "goerr option"

definition NextDelay ::
  "(f64 \<Rightarrow> duration) \<Rightarrow> f64 \<Rightarrow> policy option \<Rightarrow> ctx option \<Rightarrow> int \<Rightarrow> goerr option \<Rightarrow> duration \<times> bool" where
  "NextDelay impl rv pol ctx attempt err =
     (case pol of
        None \<Rightarrow> (0, False)
      | Some p \<Rightarrow>
          if err = None \<or> attempt \<le> 0 then (0, False)
          else if ctx = None \<or> ctx \<noteq> Some None then (0, False)
          else if maxAttempts p \<le> attempt \<or> \<not> IsRetryable err then (0, False)
          else
            let delay = withJitter impl rv p (exponentialDelay p attempt);
                suggested = SuggestedDelay err
            in (if sint delay < sint suggested then suggested else delay, True))"

section \<open>Lemmas\<close>

definition valid_policy :: "policy \<Rightarrow> bool" where
  "valid_policy p \<longleftrightarrow>
     0 < maxAttempts p \<and> 0 < sint (baseDelay p) \<and> sint (baseDelay p) \<le> sint (maxDelay p) \<and>
     \<not> f64_less (jitterPercent p) (Fin 0) \<and> \<not> f64_less (Fin 1) (jitterPercent p)"

lemma NewPolicy_valid: "NewPolicy config = Inr p \<Longrightarrow> valid_policy p"
  by (auto simp: NewPolicy_def valid_policy_def split: if_splits)

lemma valid_jitter:
  assumes "valid_policy p" "jitterPercent p \<noteq> NaN"
  obtains j where "jitterPercent p = Fin j" "0 \<le> j" "j \<le> 1"
  using assms by (cases "jitterPercent p") (auto simp: valid_policy_def not_less)

text \<open>The loop doubles without overflow and stops at the cap.\<close>

lemma double_no_overflow:
  assumes "0 \<le> sint d" "sint d \<le> sint (m :: duration) div 2"
  shows "sint (d * 2 :: duration) = 2 * sint d"
proof -
  have r: "in_int64 (2 * sint d)"
    using assms sint_duration_range [of m] unfolding in_int64_def by linarith
  have "d * 2 = int64 (2 * sint d)"
    by (simp add: int64_def)
  then show ?thesis using sint_int64 [OF r] by simp
qed

lemma exponential_loop_closed:
  assumes "valid_policy p" "0 < sint delay" "sint delay \<le> sint (maxDelay p)" "c \<le> attempt"
  shows "sint (case exponential_loop p c attempt delay of Inl r \<Rightarrow> r
                | Inr d \<Rightarrow> if sint (maxDelay p) < sint d then maxDelay p else d) =
         min (sint delay * 2 ^ nat (attempt - c)) (sint (maxDelay p))"
  using assms
proof (induction p c attempt delay rule: exponential_loop.induct)
  case (1 p c attempt delay)
  have half: "sint (dur_div (maxDelay p) 2) = sint (maxDelay p) div 2"
    using "1.prems" by (intro sint_dur_div) simp_all
  show ?case
  proof (cases "c < attempt")
    case False
    with "1.prems" show ?thesis by (simp add: exponential_loop.simps)
  next
    case True
    define n where "n = nat (attempt - (c + 1))"
    then have n: "nat (attempt - c) = Suc n" "nat (attempt - (c + 1)) = n"
      using True by linarith+
    show ?thesis
    proof (cases "sint (maxDelay p) \<le> sint delay \<or> sint (dur_div (maxDelay p) 2) < sint delay")
      case stop: True
      then have "sint (maxDelay p) \<le> 2 * sint delay"
        using half "1.prems" by auto
      also have "\<dots> \<le> 2 * sint delay * 2 ^ n"
        using "1.prems"(2) by simp
      finally have "sint (maxDelay p) \<le> sint delay * 2 ^ nat (attempt - c)"
        by (simp add: n(1))
      with stop True show ?thesis
        by (subst exponential_loop.simps) (simp add: min_def)
    next
      case go: False
      then have d: "sint (delay * 2) = 2 * sint delay"
        using half "1.prems" by (intro double_no_overflow [of _ "maxDelay p"]) simp_all
      have "sint (delay * 2) \<le> sint (maxDelay p)"
        using go half unfolding d by linarith
      then have "sint (case exponential_loop p (c + 1) attempt (delay * 2) of Inl r \<Rightarrow> r
                | Inr d \<Rightarrow> if sint (maxDelay p) < sint d then maxDelay p else d) =
         min (sint (delay * 2) * 2 ^ nat (attempt - (c + 1))) (sint (maxDelay p))"
        using "1.IH" [OF True go] "1.prems" True by (simp add: d)
      with True go show ?thesis
        by (subst exponential_loop.simps) (simp add: d n)
    qed
  qed
qed

lemma exponentialDelay_closed:
  assumes "valid_policy p" "1 \<le> attempt"
  shows "sint (exponentialDelay p attempt) =
         min (sint (baseDelay p) * 2 ^ nat (attempt - 1)) (sint (maxDelay p))"
  using exponential_loop_closed [OF assms(1), of "baseDelay p" 1 attempt] assms
  by (simp add: exponentialDelay_def valid_policy_def)

lemma exponentialDelay_bounds:
  assumes "valid_policy p" "1 \<le> attempt"
  shows "sint (baseDelay p) \<le> sint (exponentialDelay p attempt)"
    "sint (exponentialDelay p attempt) \<le> sint (maxDelay p)"
proof -
  have "sint (baseDelay p) * 1 \<le> sint (baseDelay p) * 2 ^ nat (attempt - 1)"
    using assms by (intro mult_left_mono) (simp_all add: valid_policy_def)
  then show "sint (baseDelay p) \<le> sint (exponentialDelay p attempt)"
    using assms by (simp add: exponentialDelay_closed valid_policy_def)
  show "sint (exponentialDelay p attempt) \<le> sint (maxDelay p)"
    using assms by (simp add: exponentialDelay_closed)
qed

subsection \<open>Jitter\<close>

text \<open>
  With a jitter that is a number, the factor is a number between 0 and 4, and the delay stays
  between zero and the cap.
\<close>

lemma jitter_factor:
  assumes "0 \<le> j" "j \<le> 1" "rv \<noteq> NaN"
  shows "\<exists>a b. binary64 (1 - j) = a \<and> 0 \<le> b \<and> 0 \<le> a \<and> b \<le> 2 \<and> a \<le> 1 \<and>
    f64_add (f64_sub (Fin 1) (Fin j))
      (f64_mul (f64_mul (Fin 2) (Fin j))
        (if f64_less rv (Fin 0) then Fin 0 else if f64_less (Fin 1) rv then Fin 1 else rv)) =
    Fin (binary64 (a + b))"
proof -
  define r where "r = (case rv of Fin x \<Rightarrow> (if x < 0 then 0 else if 1 < x then 1 else x)
    | PInf \<Rightarrow> 1 | _ \<Rightarrow> 0)"
  have r: "(if f64_less rv (Fin 0) then Fin 0 else if f64_less (Fin 1) rv then Fin 1 else rv) = Fin r"
    and r01: "0 \<le> r" "r \<le> 1"
    using assms(3) by (cases rv; simp add: r_def)+
  have p: "pow2 0 = 1" "pow2 1 = 2" "pow2 2 = 4" by (simp_all add: pow2_def)
  let ?a = "binary64 (1 - j)" and ?c = "binary64 (2 * j)"
  have a: "f64_of_rat (1 - j) = Fin ?a" "0 \<le> ?a" "?a \<le> 1"
    using f64_of_rat_bounded [of "1 - j" 0] binary64_nonneg [of "1 - j"] assms(1,2)
    by (simp_all add: p abs_le_iff)
  have c: "f64_of_rat (2 * j) = Fin ?c" "0 \<le> ?c" "?c \<le> 2"
    using f64_of_rat_bounded [of "2 * j" 1] binary64_nonneg [of "2 * j"] assms(1,2)
    by (simp_all add: p abs_le_iff)
  let ?b = "binary64 (?c * r)"
  have cr: "0 \<le> ?c * r" "?c * r \<le> 2"
    using c r01 mult_mono [of ?c 2 r 1] by simp_all
  have b: "f64_of_rat (?c * r) = Fin ?b" "0 \<le> ?b" "?b \<le> 2"
    using f64_of_rat_bounded [of "?c * r" 1] binary64_nonneg [of "?c * r"] cr
    by (simp_all add: p abs_le_iff)
  have f: "f64_of_rat (?a + ?b) = Fin (binary64 (?a + ?b))"
    using f64_of_rat_bounded [of "?a + ?b" 2] a b by (simp add: p abs_le_iff)
  show ?thesis
    unfolding r f64_sub_def using a b c f by (intro exI [of _ ?a] exI [of _ ?b]) simp
qed

lemma jittered_Fin:
  assumes "0 \<le> a" "0 \<le> b" "a \<le> 1" "b \<le> 2"
  shows "f64_mul (f64_of_int64 d) (Fin (binary64 (a + b))) =
    Fin (binary64 (binary64 (of_int (sint d)) * binary64 (a + b)))"
proof -
  let ?x = "binary64 (of_int (sint d))" and ?f = "binary64 (a + b)"
  have p: "pow2 2 = 4" "pow2 63 = of_int (2 ^ 63)"
    by (simp add: pow2_def) (simp add: pow2_nonneg_int)
  have "\<bar>of_int (sint d)\<bar> \<le> pow2 63"
    using sint_duration_range [of d] unfolding p in_int64_def
    by (simp only: of_int_abs [symmetric] of_int_le_iff) linarith
  then have x: "\<bar>?x\<bar> \<le> pow2 63" by (rule binary64_bounded) simp
  have f: "\<bar>?f\<bar> \<le> pow2 2"
    using assms by (intro binary64_bounded) (simp_all add: p)
  have "\<bar>?x * ?f\<bar> \<le> pow2 63 * pow2 2"
    using x f unfolding abs_mult by (intro mult_mono) (simp_all add: less_imp_le)
  also have "\<dots> = pow2 65" by (simp flip: pow2_add)
  finally show ?thesis
    using f64_of_rat_bounded(1) [of "?x * ?f" 65] by (simp add: f64_of_int64_Fin)
qed

lemma withJitter_bounds:
  assumes p: "valid_policy p" and nan: "jitterPercent p \<noteq> NaN" "rv \<noteq> NaN"
    and d: "0 \<le> sint delay" "sint delay \<le> sint (maxDelay p)"
  shows "0 \<le> sint (withJitter impl rv p delay) \<and>
         sint (withJitter impl rv p delay) \<le> sint (maxDelay p)"
proof -
  obtain j where j: "jitterPercent p = Fin j" "0 \<le> j" "j \<le> 1"
    using valid_jitter [OF p nan(1)] .
  show ?thesis
  proof (cases "j = 0")
    case True
    then show ?thesis using d j by (simp add: withJitter_def)
  next
    case False
    obtain a b where ab: "0 \<le> b" "0 \<le> a" "b \<le> 2" "a \<le> 1"
      "f64_add (f64_sub (Fin 1) (Fin j))
        (f64_mul (f64_mul (Fin 2) (Fin j))
          (if f64_less rv (Fin 0) then Fin 0 else if f64_less (Fin 1) rv then Fin 1 else rv)) =
       Fin (binary64 (a + b))"
      using jitter_factor [OF j(2,3) nan(2)] by metis
    define q where "q = binary64 (binary64 (of_int (sint delay)) * binary64 (a + b))"
    have mul: "f64_mul (f64_of_int64 delay) (Fin (binary64 (a + b))) = Fin q"
      unfolding q_def by (rule jittered_Fin [OF ab(2,1,4,3)])
    have w: "withJitter impl rv p delay =
      (if q \<le> 0 then 0
       else if binary64 (of_int (sint (maxDelay p))) \<le> q then maxDelay p
       else int64_of_f64 impl (Fin q))"
      unfolding withJitter_def Let_def j(1) ab(5) mul f64_of_int64_Fin [of "maxDelay p"] f64_le_Fin
      using False by simp
    have m: "0 \<le> sint (maxDelay p)" using d by simp
    show ?thesis
    proof (cases "q \<le> 0 \<or> binary64 (of_int (sint (maxDelay p))) \<le> q")
      case True
      then show ?thesis using m by (auto simp: w)
    next
      case mid: False
      have "binary64 q = q" by (simp add: q_def binary64_idem)
      then have fl: "\<lfloor>q\<rfloor> \<le> sint (maxDelay p)"
        using mid by (intro floor_below_converted) simp_all
      have fl0: "0 \<le> \<lfloor>q\<rfloor>" using mid by simp
      have "in_int64 \<lfloor>q\<rfloor>"
        using fl fl0 sint_duration_range [of "maxDelay p"] unfolding in_int64_def by linarith
      then show ?thesis
        using mid fl fl0 by (simp add: w int64_of_f64_def rat_trunc_def sint_int64)
    qed
  qed
qed

lemma SuggestedDelay_nonneg: "0 \<le> sint (SuggestedDelay err)"
  by (auto simp: SuggestedDelay_def split: option.splits)

text \<open>
  A lower bound: when the smallest factor is at least one half, half of the delay is left,
  whatever number is drawn.
\<close>

lemma withJitter_lower:
  assumes p: "valid_policy p" and j: "jitterPercent p = Fin j" "1 / 2 \<le> binary64 (1 - j)"
    and rv: "rv \<noteq> NaN"
    and d: "0 < n" "n \<le> 2 ^ 52" "2 * n \<le> sint delay" "sint delay \<le> sint (maxDelay p)"
  shows "n \<le> sint (withJitter impl rv p delay)"
proof -
  have j01: "0 \<le> j" "j \<le> 1"
    using p j(1) by (auto simp: valid_policy_def not_less)
  show ?thesis
  proof (cases "j = 0")
    case True
    then show ?thesis using d j by (simp add: withJitter_def)
  next
    case False
    obtain a b where ab: "binary64 (1 - j) = a" "0 \<le> b" "0 \<le> a" "b \<le> 2" "a \<le> 1"
      "f64_add (f64_sub (Fin 1) (Fin j))
        (f64_mul (f64_mul (Fin 2) (Fin j))
          (if f64_less rv (Fin 0) then Fin 0 else if f64_less (Fin 1) rv then Fin 1 else rv)) =
       Fin (binary64 (a + b))"
      using jitter_factor [OF j01 rv] by metis
    define q where "q = binary64 (binary64 (of_int (sint delay)) * binary64 (a + b))"
    have mul: "f64_mul (f64_of_int64 delay) (Fin (binary64 (a + b))) = Fin q"
      unfolding q_def by (rule jittered_Fin [OF ab(3,2,5,4)])
    have w: "withJitter impl rv p delay =
      (if q \<le> 0 then 0
       else if binary64 (of_int (sint (maxDelay p))) \<le> q then maxDelay p
       else int64_of_f64 impl (Fin q))"
      unfolding withJitter_def Let_def j(1) ab(6) mul f64_of_int64_Fin [of "maxDelay p"] f64_le_Fin
      using False by simp
    have half: "binary64 (1 / 2) = 1 / 2"
      using binary64_pow2 [of "-1"] by (simp add: pow2_def)
    have "binary64 (1 / 2) \<le> binary64 (a + b)"
      using j(2) ab(1,2) by (intro binary64_mono) linarith
    then have f: "1 / 2 \<le> binary64 (a + b)" using half by simp
    have "binary64 (of_int (2 * n)) \<le> binary64 (of_int (sint delay))"
      using d(3) by (intro binary64_mono) (simp only: of_int_le_iff)
    moreover have "binary64 (of_int (2 * n)) = of_int (2 * n)"
      using d(1,2) by (intro binary64_int) simp
    ultimately have x: "of_int (2 * n) \<le> binary64 (of_int (sint delay))" by simp
    have "of_int (2 * n) * (1 / 2) \<le> binary64 (of_int (sint delay)) * binary64 (a + b)"
      using x f d(1) by (intro mult_mono) simp_all
    then have "binary64 (of_int n) \<le> q"
      unfolding q_def by (intro binary64_mono) simp
    moreover have "binary64 (of_int n) = of_int n"
      using d(1,2) by (intro binary64_int) simp
    ultimately have q: "of_int n \<le> q" by simp
    then have q0: "0 < q" using d(1) by (meson less_le_trans of_int_0_less_iff)
    show ?thesis
    proof (cases "binary64 (of_int (sint (maxDelay p))) \<le> q")
      case True
      then show ?thesis using q0 d by (simp add: w)
    next
      case mid: False
      have fl: "\<lfloor>q\<rfloor> \<le> sint (maxDelay p)"
        using mid by (intro floor_below_converted) (simp_all add: q_def binary64_idem)
      have n: "n \<le> \<lfloor>q\<rfloor>" using q by (simp add: le_floor_iff)
      have "in_int64 \<lfloor>q\<rfloor>"
        using fl n d(1) sint_duration_range [of "maxDelay p"] unfolding in_int64_def by linarith
      then show ?thesis
        using mid q0 n by (simp add: w int64_of_f64_def rat_trunc_def sint_int64 less_imp_le)
    qed
  qed
qed

subsection \<open>The default policy\<close>

definition default_policy :: policy where
  "default_policy =
     \<lparr>maxAttempts = 8, baseDelay = int64 Second, maxDelay = int64 Hour,
      jitterPercent = f64_const (1 / 5)\<rparr>"

lemma sint_default: "sint (int64 Second) = 1000000000" "sint (int64 Hour) = 3600000000000"
  by (simp_all add: sint_int64 in_int64_def time_unit_defs)

lemma f64_fifth: "f64_const (1 / 5) = Fin (3602879701896397 / 18014398509481984)"
proof -
  have e: "ulp_exp (1 / 5) = - 55"
    using ilog2_unique [of "- 3" "1 / 5"] by (simp add: ulp_exp_def pow2_def)
  have f: "\<lfloor>36028797018963968 / 5 :: rat\<rfloor> = 7205759403792793" by (rule floor_unique) simp_all
  have "round_even (36028797018963968 / 5) = 7205759403792794" by (simp add: round_even_def f)
  then have "binary64 (1 / 5) = 3602879701896397 / 18014398509481984"
    by (simp add: binary64_def round_pos_def e) (simp add: pow2_def)
  moreover have "(3602879701896397 / 18014398509481984 :: rat) < pow2 1024"
    using pow2_le [of 0 1024] by simp
  ultimately show ?thesis
    by (simp add: f64_const_def f64_of_rat_def Let_def not_le)
qed

lemma DefaultPolicy_ok: "DefaultPolicy = Inr default_policy"
  by (simp add: DefaultPolicy_def NewPolicy_def default_config_def default_policy_def
      sint_default f64_fifth)

lemma default_policy_valid: "valid_policy default_policy"
  using NewPolicy_valid [of default_config] DefaultPolicy_ok by (simp add: DefaultPolicy_def)

lemma default_jitter: "jitterPercent default_policy = Fin (3602879701896397 / 18014398509481984)"
  by (simp add: default_policy_def f64_fifth)

lemma default_factor: "1 / 2 \<le> binary64 (1 - 3602879701896397 / 18014398509481984)"
  using binary64_mono [of "pow2 (- 1)" "1 - 3602879701896397 / 18014398509481984"] binary64_pow2 [of "- 1"]
  by (simp add: pow2_def)

lemmas NextDelay_defs = NextDelay_def Let_def

text \<open>\<open>NextDelay\<close> retries exactly under its guards.\<close>

lemma NextDelay_retry_iff:
  "snd (NextDelay impl rv pol ctx attempt err) \<longleftrightarrow>
     (\<exists>p e. pol = Some p \<and> err = Some e \<and> ctx = Some None \<and> 0 < attempt \<and> attempt < maxAttempts p \<and>
       IsRetryable (Some e))"
  by (auto simp: NextDelay_defs split: option.splits)

lemma NextDelay_value:
  assumes "NextDelay impl rv (Some p) ctx attempt err = (d, True)"
  shows "d = (let w = withJitter impl rv p (exponentialDelay p attempt) in
              if sint w < sint (SuggestedDelay err) then SuggestedDelay err else w)"
    "1 \<le> attempt" "attempt < maxAttempts p"
  using assms by (auto simp: NextDelay_defs split: if_splits)

lemma NextDelay_default_positive:
  assumes "NextDelay impl rv (Some default_policy) ctx attempt err = (d, True)" "rv \<noteq> NaN"
  shows "500000000 \<le> sint d"
proof -
  note v = NextDelay_value [OF assms(1)]
  let ?w = "withJitter impl rv default_policy (exponentialDelay default_policy attempt)"
  have e: "1000000000 \<le> sint (exponentialDelay default_policy attempt)"
    "sint (exponentialDelay default_policy attempt) \<le> sint (maxDelay default_policy)"
    using exponentialDelay_bounds [OF default_policy_valid v(2)]
    by (simp_all add: default_policy_def sint_default)
  have "500000000 \<le> sint ?w"
    using e by (intro withJitter_lower [OF default_policy_valid default_jitter default_factor assms(2)])
      simp_all
  then show ?thesis using v(1) by (auto simp: Let_def)
qed

section \<open>Properties\<close>

text \<open>C27: the loop that doubles the delay computes the closed form of exponential backoff: for every
  policy the constructor accepts, attempt number n waits the base delay times 2 to the n - 1, capped at the
  maximum, without an overflow of the 64-bit duration on the way.\<close>

theorem backoff_closed_form:
  assumes "NewPolicy config = Inr p" "1 \<le> attempt"
  shows "sint (exponentialDelay p attempt) =
    min (sint (BaseDelay config) * 2 ^ nat (attempt - 1)) (sint (MaxDelay config))"
proof -
  have "baseDelay p = BaseDelay config" "maxDelay p = MaxDelay config"
    using assms(1) by (auto simp: NewPolicy_def split: if_splits)
  then show ?thesis
    using exponentialDelay_closed [OF NewPolicy_valid [OF assms(1)] assms(2)] by simp
qed

theorem backoff_closed_form_witness:
  "sint (exponentialDelay default_policy 3) = 4000000000 \<and>
   sint (exponentialDelay default_policy 13) = 3600000000000"
  using backoff_closed_form [of default_config default_policy 3]
    backoff_closed_form [of default_config default_policy 13] DefaultPolicy_ok
  by (simp add: DefaultPolicy_def default_config_def sint_default)

text \<open>C28: a delay the policy grants lies between the delay the provider suggested and the larger of
  that and the policy's maximum, whatever jitter is drawn; it is never negative.\<close>

theorem granted_delay_bounds:
  assumes "NewPolicy config = Inr p" "JitterPercent config \<noteq> NaN" "rv \<noteq> NaN"
    and "NextDelay impl rv (Some p) ctx attempt err = (d, True)"
  shows "0 \<le> sint d \<and> sint (SuggestedDelay err) \<le> sint d \<and>
    sint d \<le> max (sint (MaxDelay config)) (sint (SuggestedDelay err))"
proof -
  have c: "maxDelay p = MaxDelay config" "jitterPercent p = JitterPercent config"
    using assms(1) by (auto simp: NewPolicy_def split: if_splits)
  note valid = NewPolicy_valid [OF assms(1)]
  note v = NextDelay_value [OF assms(4)]
  have e: "0 \<le> sint (exponentialDelay p attempt)" "sint (exponentialDelay p attempt) \<le> sint (maxDelay p)"
    using exponentialDelay_bounds [OF valid v(2)] valid by (simp_all add: valid_policy_def)
  show ?thesis
    using withJitter_bounds [OF valid _ assms(3) e, of impl] SuggestedDelay_nonneg [of err] assms(2) v(1) c
    by (auto simp: Let_def)
qed

definition rate_limited :: goerr where
  "rate_limited = GoErr (ApiError 429 429 ''Too Many Requests'' (int64 (2 * Hour))) []"

lemma rate_limited_facts:
  "IsRetryable (Some rate_limited)" "sint (SuggestedDelay (Some rate_limited)) = 7200000000000"
  by (simp_all add: IsRetryable_def SuggestedDelay_def rate_limited_def errors_as_def APIError_Retryable_def
      sint_int64 in_int64_def time_unit_defs del: not_None_eq)

lemma NextDelay_granted:
  assumes "0 < attempt" "attempt < maxAttempts p" "IsRetryable (Some e)"
  obtains d where "NextDelay impl rv (Some p) (Some None) attempt (Some e) = (d, True)"
proof -
  have "snd (NextDelay impl rv (Some p) (Some None) attempt (Some e))"
    using assms by (simp add: NextDelay_retry_iff)
  then show thesis using that by (metis prod.collapse)
qed

theorem granted_delay_bounds_witness:
  "\<exists>d. NextDelay (\<lambda>_. 0) (Fin (1 / 2)) (Some default_policy) (Some None) 1 (Some rate_limited) = (d, True) \<and>
     sint d = 7200000000000"
proof -
  obtain d where d: "NextDelay (\<lambda>_. 0) (Fin (1 / 2)) (Some default_policy) (Some None) 1 (Some rate_limited) = (d, True)"
    by (rule NextDelay_granted [of 1 default_policy rate_limited])
      (simp_all add: default_policy_def rate_limited_facts)
  have c: "NewPolicy default_config = Inr default_policy" "JitterPercent default_config \<noteq> NaN"
    using DefaultPolicy_ok by (simp_all add: DefaultPolicy_def default_config_def f64_fifth)
  show ?thesis
    using granted_delay_bounds [OF c _ d] d by (simp add: default_config_def sint_default rate_limited_facts)
qed

text \<open>With the default policy a retryable error of the first seven attempts is always retried,
  and after at least half a second, whatever jitter is drawn: a granted retry never looks like the delay
  zero, which stands for giving up.\<close>

theorem default_retry_delay:
  assumes "1 \<le> attempt" "attempt < 8" "IsRetryable (Some e)" "rv \<noteq> NaN"
  shows "\<exists>d. NextDelay impl rv (Some default_policy) (Some None) attempt (Some e) = (d, True) \<and>
    500000000 \<le> sint d"
proof -
  obtain d where d: "NextDelay impl rv (Some default_policy) (Some None) attempt (Some e) = (d, True)"
    by (rule NextDelay_granted [of attempt default_policy e]) (use assms in \<open>simp_all add: default_policy_def\<close>)
  then show ?thesis using NextDelay_default_positive [OF d assms(4)] by blast
qed

theorem default_retry_delay_witness:
  "\<exists>d. NextDelay (\<lambda>_. 0) (Fin 0) (Some default_policy) (Some None) 7 (Some rate_limited) = (d, True) \<and>
    500000000 \<le> sint d"
  by (rule default_retry_delay) (simp_all add: rate_limited_facts)

end
