(* ===== verification/Json.thy ===== *)
theory Json
  imports GoErrors "HOL-Library.List_Lexorder" "HOL-Library.Product_Lexorder"
begin

text \<open>
  JSON values and the part of \<open>encoding/json\<close> the program depends on: how a value is decoded
  into a struct. The text syntax (bytes to values and back), \<open>uuid.Parse\<close>, RFC 3339 times,
  \<open>url.Parse\<close> and PostgreSQL's \<open>jsonb\<close> casts are the fields of the record \<open>lib\<close>,
  an argument of every definition that uses them.

  Decoding into a struct walks the members of the object in order; a member selects the field of
  exactly its name, else the field whose name is equal under case folding; a later member
  overwrites an earlier one; \<open>null\<close> leaves a field alone; a member without a field is an error
  only for a decoder with \<open>DisallowUnknownFields\<close>. A value of the wrong type makes the whole
  call fail, and every caller drops the partly filled struct then, so a decoder here returns
  \<open>None\<close>.
\<close>

datatype json =
    JNull
  | JBool bool
  | JNum string
  | JStr string
  | JArr "json list"
  | JObj "(string \<times> json) list"

record goUrl =
  Scheme :: string
  Host :: string
  Hostname :: string
  Port :: string
  HasUser :: bool
  Path :: string
  RawQuery :: string
  Fragment :: string
  Opaque :: string

record lib =
  uuid_parse :: "string \<Rightarrow> uuid option"
  uuid_text :: "uuid \<Rightarrow> string"
  uuid_sha1_url :: "string \<Rightarrow> uuid"
    \<comment> \<open>\<open>uuid.NewSHA1(uuid.NameSpaceURL, data)\<close>\<close>
  time_parse :: "string \<Rightarrow> instant option"
  time_text :: "instant \<Rightarrow> string"
  url_parse :: "string \<Rightarrow> goUrl option"
  json_next :: "string \<Rightarrow> (json \<times> string) option"
    \<comment> \<open>the first JSON value of a text and what follows it; \<open>None\<close> is a syntax error or
      the end of the input\<close>
  json_text :: "json \<Rightarrow> string"
  jsonb_in :: "string \<Rightarrow> json option"
    \<comment> \<open>the cast of a text to \<open>jsonb\<close>, in the one form \<open>jsonb\<close> stores equal values
      in (so that its equality is \<open>=\<close>); \<open>None\<close> is PostgreSQL's error\<close>
  jsonb_text :: "json \<Rightarrow> string"
  pg_time_text :: "instant \<Rightarrow> string"
    \<comment> \<open>a \<open>TIMESTAMPTZ\<close> as \<open>jsonb_build_object\<close> renders it\<close>

definition json_space :: "char \<Rightarrow> bool" where
  "json_space c \<longleftrightarrow> of_char c \<in> {32, 9, 10, 13 :: nat}"

definition json_eof :: "string \<Rightarrow> bool" where
  \<comment> \<open>the next \<open>Decode\<close> returns \<open>io.EOF\<close>\<close>
  "json_eof rest = list_all json_space rest"

definition json_valid :: "lib \<Rightarrow> string \<Rightarrow> bool" where
  \<comment> \<open>\<open>json.Valid\<close>\<close>
  "json_valid L data =
     (case json_next L data of Some (v, rest) \<Rightarrow> json_eof rest | None \<Rightarrow> False)"

definition json_unmarshal :: "lib \<Rightarrow> string \<Rightarrow> json option" where
  "json_unmarshal L data =
     (case json_next L data of
        Some (v, rest) \<Rightarrow> if json_eof rest then Some v else None
      | None \<Rightarrow> None)"

text \<open>
  \<open>jsonb_build_object\<close>: PostgreSQL keeps the members of an object ordered by the length of
  the key, then bytewise. (The program builds objects with distinct keys only.)
\<close>

definition jsonb_build_object :: "(string \<times> json) list \<Rightarrow> json" where
  "jsonb_build_object ms =
     JObj (sort_key (\<lambda>(k, v). (length k, map of_char k :: nat list)) ms)"

section \<open>Decoding into structs\<close>

type_synonym 's setter = "json \<Rightarrow> 's \<Rightarrow> 's option"

definition find_field :: "(string \<times> 's setter) list \<Rightarrow> string \<Rightarrow> 's setter option" where
  "find_field flds key =
     (case map_of flds key of
        Some f \<Rightarrow> Some f
      | None \<Rightarrow> map_option snd (find (\<lambda>(name, f). EqualFold key name) flds))"

fun decode_members :: "(string \<times> 's setter) list \<Rightarrow> bool \<Rightarrow> (string \<times> json) list \<Rightarrow> 's \<Rightarrow> 's option" where
  "decode_members flds strict [] s = Some s"
| "decode_members flds strict ((key, v) # ms) s =
     (case find_field flds key of
        None \<Rightarrow> if strict then None else decode_members flds strict ms s
      | Some f \<Rightarrow> (case f v s of None \<Rightarrow> None | Some s' \<Rightarrow> decode_members flds strict ms s'))"

definition decode_struct :: "(string \<times> 's setter) list \<Rightarrow> bool \<Rightarrow> 's setter" where
  "decode_struct flds strict v s =
     (case v of JObj ms \<Rightarrow> decode_members flds strict ms s | JNull \<Rightarrow> Some s | _ \<Rightarrow> None)"

text \<open>Fields of the types the program decodes.\<close>

definition string_field :: "(string \<Rightarrow> 's \<Rightarrow> 's) \<Rightarrow> 's setter" where
  "string_field put v s =
     (case v of JStr x \<Rightarrow> Some (put x s) | JNull \<Rightarrow> Some s | _ \<Rightarrow> None)"

definition int_field :: "(int \<Rightarrow> 's \<Rightarrow> 's) \<Rightarrow> 's setter" where
  "int_field put v s =
     (case v of JNum x \<Rightarrow> map_option (\<lambda>n. put n s) (ParseInt 64 x) | JNull \<Rightarrow> Some s | _ \<Rightarrow> None)"

definition uuid_field :: "lib \<Rightarrow> (uuid \<Rightarrow> 's \<Rightarrow> 's) \<Rightarrow> 's setter" where
  "uuid_field L put v s =
     (case v of JStr x \<Rightarrow> map_option (\<lambda>u. put u s) (uuid_parse L x) | JNull \<Rightarrow> Some s | _ \<Rightarrow> None)"

definition time_field :: "lib \<Rightarrow> (instant \<Rightarrow> 's \<Rightarrow> 's) \<Rightarrow> 's setter" where
  "time_field L put v s =
     (case v of JStr x \<Rightarrow> map_option (\<lambda>u. put u s) (time_parse L x) | JNull \<Rightarrow> Some s | _ \<Rightarrow> None)"

definition bool_ptr_field :: "(bool option \<Rightarrow> 's \<Rightarrow> 's) \<Rightarrow> 's setter" where
  "bool_ptr_field put v s =
     (case v of JBool b \<Rightarrow> Some (put (Some b) s) | JNull \<Rightarrow> Some (put None s) | _ \<Rightarrow> None)"

text \<open>The zero \<open>time.Time\<close>: January 1, year 1, UTC, in nanoseconds from the Unix epoch.\<close>

definition zero_time :: instant where
  "zero_time = - 62135596800 * Second"

definition IsZero :: "instant \<Rightarrow> bool" where
  "IsZero t \<longleftrightarrow> t = zero_time"

lemmas member_simps = find_field_def decode_struct_def decode_members.simps

lemmas field_defs = string_field_def int_field_def uuid_field_def time_field_def bool_ptr_field_def

lemma find_field_exact: "map_of flds key = Some f \<Longrightarrow> find_field flds key = Some f"
  by (simp add: find_field_def)

end
