(* ===== verification/NotifModel.thy ===== *)
theory NotifModel
  imports Json "HOL-Library.Mapping"
begin

text \<open>
  \<open>internal/notification/model\<close>: the notification data, and
  \<open>internal/notification/sender\<close>: the registry of senders. A \<open>ChannelType\<close> is a Go
  string type, and stays one here: the database and the registry accept other values than the
  two constants. A sender is what sending a message returns.
\<close>

type_synonym ChannelType = string

definition ChannelTelegram :: ChannelType where "ChannelTelegram = ''telegram''"
definition ChannelEmail :: ChannelType where "ChannelEmail = ''email''"

record channel =
  ch_id :: uuid
  ch_user :: uuid
  ch_type :: ChannelType
  ch_destination :: string
  ch_enabled :: bool

record message =
  Recipient :: string
  Title :: string
  Body :: string
  URL :: string

text \<open>\<open>None\<close> is a nil error.\<close>

type_synonym sender = "message \<Rightarrow> goerr option"

type_synonym registry = "ChannelType \<rightharpoonup> sender"

text \<open>
  \<open>NewRegistry\<close> goes through a Go map, whose order is not specified: the entries are a list
  without two equal keys, and a nil sender is \<open>None\<close>.
\<close>

fun NewRegistry_from :: "(ChannelType \<times> sender option) list \<Rightarrow> registry \<Rightarrow> goerr + registry" where
  "NewRegistry_from [] registry = Inr registry"
| "NewRegistry_from ((channelType, channelSender) # rest) registry =
     (if channelType = '''' then
        Inl (plain_err ''notification sender must have a channel type'')
      else
        (case channelSender of
           None \<Rightarrow> Inl (plain_err ''sender for channel is nil'')
         | Some channel_sender \<Rightarrow> NewRegistry_from rest (registry(channelType \<mapsto> channel_sender))))"

definition NewRegistry :: "(ChannelType \<times> sender option) list \<Rightarrow> goerr + registry" where
  "NewRegistry entries = NewRegistry_from entries Map.empty"

definition Registry_Get :: "registry \<Rightarrow> ChannelType \<Rightarrow> goerr + sender" where
  "Registry_Get r channelType =
     (case r channelType of
        None \<Rightarrow> Inl (wrap_err channelType (sentinel_err ErrSenderNotRegistered))
      | Some channel_sender \<Rightarrow> Inr channel_sender)"

lemma NewRegistry_from_get:
  "distinct (map fst entries) \<Longrightarrow> NewRegistry_from entries r = Inr r' \<Longrightarrow>
   r' c = (case map_of entries c of Some (Some s) \<Rightarrow> Some s | _ \<Rightarrow> r c) \<and>
   (c \<in> fst ` set entries \<longrightarrow> c \<noteq> '''' \<and> map_of entries c \<noteq> Some None)"
proof (induction entries r rule: NewRegistry_from.induct)
  case (1 r)
  then show ?case by simp
next
  case (2 t s rest r)
  from "2.prems" obtain x where x: "t \<noteq> ''''" "s = Some x"
    "NewRegistry_from rest (r(t \<mapsto> x)) = Inr r'"
    by (auto split: if_splits option.splits)
  have none: "c = t \<Longrightarrow> map_of rest c = None"
    using "2.prems"(1) by (simp add: map_of_eq_None_iff)
  have "r' c = (case map_of rest c of Some (Some s) \<Rightarrow> Some s | _ \<Rightarrow> (r(t \<mapsto> x)) c) \<and>
    (c \<in> fst ` set rest \<longrightarrow> c \<noteq> '''' \<and> map_of rest c \<noteq> Some None)"
    using "2.IH" [OF x(1,2) _ x(3)] "2.prems"(1) by simp
  then show ?case using x none by (auto split: option.splits)
qed

end
