(* ===== verification/Contract.thy ===== *)
theory Contract
  imports NotifModel
begin

text \<open>
  \<open>internal/notification/contract\<close>: the topics and the events of the notification pipeline
  and the checks a consumer makes before it accepts one. \<open>Inl\<close> is the returned error (the
  callers drop the event then).
\<close>

definition RequestsTopicV1 :: string where
  "RequestsTopicV1 = ''feedflow.notification.requests.v1''"
definition Retry1mTopicV1 :: string where
  "Retry1mTopicV1 = ''feedflow.notification.retry.1m.v1''"
definition Retry10mTopicV1 :: string where
  "Retry10mTopicV1 = ''feedflow.notification.retry.10m.v1''"
definition Retry1hTopicV1 :: string where
  "Retry1hTopicV1 = ''feedflow.notification.retry.1h.v1''"
definition DLQTopicV1 :: string where
  "DLQTopicV1 = ''feedflow.notification.dlq.v1''"
definition NotificationRequested :: string where
  "NotificationRequested = ''notification.requested''"
definition RequestedSchemaV1 :: int where
  "RequestedSchemaV1 = 1"
definition TemplateNewPost :: string where
  "TemplateNewPost = ''new_post''"

lemmas topic_defs = RequestsTopicV1_def Retry1mTopicV1_def Retry10mTopicV1_def Retry1hTopicV1_def
  DLQTopicV1_def

definition IsRetryTopic :: "string \<Rightarrow> bool" where
  "IsRetryTopic topic \<longleftrightarrow>
     topic = Retry1mTopicV1 \<or> topic = Retry10mTopicV1 \<or> topic = Retry1hTopicV1"

record requested_data =
  PostID :: uuid
  FeedID :: uuid
  DataTitle :: string
  DataBody :: string
  DataURL :: string
  PublishedAt :: instant

record requested =
  EventID :: uuid
  EventType :: string
  SchemaVersion :: int
  OccurredAt :: instant
  Producer :: string
  NotificationID :: uuid
  UserID :: uuid
  Template :: string
  Data :: requested_data

definition zero_data :: requested_data where
  "zero_data = \<lparr>PostID = 0, FeedID = 0, DataTitle = '''', DataBody = '''', DataURL = '''',
     PublishedAt = zero_time\<rparr>"

definition zero_requested :: requested where
  "zero_requested = \<lparr>EventID = 0, EventType = '''', SchemaVersion = 0, OccurredAt = zero_time,
     Producer = '''', NotificationID = 0, UserID = 0, Template = '''', Data = zero_data\<rparr>"

text \<open>The struct tags: JSON names and field types.\<close>

definition data_fields :: "lib \<Rightarrow> (string \<times> requested_data setter) list" where
  "data_fields L =
     [(''post_id'', uuid_field L (\<lambda>x d. d\<lparr>PostID := x\<rparr>)),
      (''feed_id'', uuid_field L (\<lambda>x d. d\<lparr>FeedID := x\<rparr>)),
      (''title'', string_field (\<lambda>x d. d\<lparr>DataTitle := x\<rparr>)),
      (''body'', string_field (\<lambda>x d. d\<lparr>DataBody := x\<rparr>)),
      (''url'', string_field (\<lambda>x d. d\<lparr>DataURL := x\<rparr>)),
      (''published_at'', time_field L (\<lambda>x d. d\<lparr>PublishedAt := x\<rparr>))]"

definition data_field :: "lib \<Rightarrow> requested setter" where
  "data_field L v e =
     map_option (\<lambda>d. e\<lparr>Data := d\<rparr>) (decode_struct (data_fields L) False v (Data e))"

definition requested_fields :: "lib \<Rightarrow> (string \<times> requested setter) list" where
  "requested_fields L =
     [(''event_id'', uuid_field L (\<lambda>x e. e\<lparr>EventID := x\<rparr>)),
      (''event_type'', string_field (\<lambda>x e. e\<lparr>EventType := x\<rparr>)),
      (''schema_version'', int_field (\<lambda>x e. e\<lparr>SchemaVersion := x\<rparr>)),
      (''occurred_at'', time_field L (\<lambda>x e. e\<lparr>OccurredAt := x\<rparr>)),
      (''producer'', string_field (\<lambda>x e. e\<lparr>Producer := x\<rparr>)),
      (''notification_id'', uuid_field L (\<lambda>x e. e\<lparr>NotificationID := x\<rparr>)),
      (''user_id'', uuid_field L (\<lambda>x e. e\<lparr>UserID := x\<rparr>)),
      (''template'', string_field (\<lambda>x e. e\<lparr>Template := x\<rparr>)),
      (''data'', data_field L)]"

definition requested_of_json :: "lib \<Rightarrow> json \<Rightarrow> requested option" where
  "requested_of_json L v = decode_struct (requested_fields L) False v zero_requested"

section \<open>Validation\<close>

definition invalid_event :: "string \<Rightarrow> goerr" where
  "invalid_event m = wrap_err m (sentinel_err ErrInvalidEvent)"

type_synonym headers = "string \<rightharpoonup> string"

definition header :: "headers \<Rightarrow> string \<Rightarrow> string" where
  \<comment> \<open>indexing a Go map gives the zero value for a missing key\<close>
  "header hs k = (case hs k of None \<Rightarrow> '''' | Some v \<Rightarrow> v)"

definition DecodeRequested :: "lib \<Rightarrow> string \<Rightarrow> headers \<Rightarrow> string \<Rightarrow> goerr + requested" where
  "DecodeRequested L key headers payload =
     (case Option.bind (json_next L payload)
             (\<lambda>(v, rest). map_option (\<lambda>e. (e, rest)) (requested_of_json L v)) of
        None \<Rightarrow> Inl (invalid_event ''invalid JSON'')
      | Some (event, rest) \<Rightarrow>
          if \<not> json_eof rest then Inl (invalid_event ''trailing JSON'')
          else if EventID event = nil_uuid \<or> NotificationID event \<noteq> EventID event \<or>
            UserID event = nil_uuid \<or> EventType event \<noteq> NotificationRequested \<or>
            SchemaVersion event \<noteq> RequestedSchemaV1 \<or> Template event \<noteq> TemplateNewPost \<or>
            IsZero (OccurredAt event) \<or> TrimSpace (Producer event) = '''' \<or>
            PostID (Data event) = nil_uuid \<or> FeedID (Data event) = nil_uuid \<or>
            TrimSpace (DataTitle (Data event)) = '''' \<or> IsZero (PublishedAt (Data event)) \<or>
            key \<noteq> uuid_text L (UserID event)
          then Inl (invalid_event ''unsupported or incomplete request'')
          else
            (case url_parse L (DataURL (Data event)) of
               None \<Rightarrow> Inl (invalid_event ''invalid post URL'')
             | Some u \<Rightarrow>
                 if (Scheme u \<noteq> ''http'' \<and> Scheme u \<noteq> ''https'') \<or> Host u = ''''
                 then Inl (invalid_event ''invalid post URL'')
                 else if \<exists>(field, want) \<in> set
                     [(''event_id'', uuid_text L (EventID event)),
                      (''event_type'', NotificationRequested),
                      (''schema_version'', ''1''), (''content-type'', ''application/json'')].
                     header headers field \<noteq> want
                 then Inl (invalid_event ''invalid header'')
                 else Inr event))"

record retry_event =
  r_DeliveryID :: uuid
  r_EventID :: uuid
  r_UserID :: uuid
  r_AttemptNo :: int

definition zero_retry :: retry_event where
  "zero_retry = \<lparr>r_DeliveryID = 0, r_EventID = 0, r_UserID = 0, r_AttemptNo = 0\<rparr>"

definition retry_fields :: "lib \<Rightarrow> (string \<times> retry_event setter) list" where
  "retry_fields L =
     [(''delivery_id'', uuid_field L (\<lambda>x e. e\<lparr>r_DeliveryID := x\<rparr>)),
      (''event_id'', uuid_field L (\<lambda>x e. e\<lparr>r_EventID := x\<rparr>)),
      (''user_id'', uuid_field L (\<lambda>x e. e\<lparr>r_UserID := x\<rparr>)),
      (''attempt_no'', int_field (\<lambda>x e. e\<lparr>r_AttemptNo := x\<rparr>))]"

definition DecodeRetry :: "lib \<Rightarrow> string \<Rightarrow> string \<Rightarrow> goerr + retry_event" where
  "DecodeRetry L key payload =
     (case Option.bind (json_unmarshal L payload)
             (\<lambda>v. decode_struct (retry_fields L) False v zero_retry) of
        None \<Rightarrow> Inl (invalid_event ''invalid retry'')
      | Some event \<Rightarrow>
          if r_DeliveryID event = nil_uuid \<or> r_EventID event = nil_uuid \<or>
             r_UserID event = nil_uuid \<or> r_AttemptNo event \<le> 0 \<or>
             key \<noteq> uuid_text L (r_UserID event)
          then Inl (invalid_event ''invalid retry'')
          else Inr event)"

section \<open>Lemmas\<close>

text \<open>What an accepted request satisfies, whatever the libraries do.\<close>

definition well_formed_request :: "requested \<Rightarrow> bool" where
  "well_formed_request e \<longleftrightarrow>
     EventID e \<noteq> nil_uuid \<and> NotificationID e = EventID e \<and> UserID e \<noteq> nil_uuid \<and>
     EventType e = NotificationRequested \<and> SchemaVersion e = 1 \<and> Template e = TemplateNewPost \<and>
     \<not> IsZero (OccurredAt e) \<and> TrimSpace (Producer e) \<noteq> '''' \<and>
     PostID (Data e) \<noteq> nil_uuid \<and> FeedID (Data e) \<noteq> nil_uuid \<and>
     TrimSpace (DataTitle (Data e)) \<noteq> '''' \<and> \<not> IsZero (PublishedAt (Data e))"

definition request_headers :: "lib \<Rightarrow> requested \<Rightarrow> headers \<Rightarrow> bool" where
  "request_headers L e hs \<longleftrightarrow>
     header hs ''event_id'' = uuid_text L (EventID e) \<and>
     header hs ''event_type'' = NotificationRequested \<and>
     header hs ''schema_version'' = ''1'' \<and> header hs ''content-type'' = ''application/json''"

definition web_url :: "lib \<Rightarrow> string \<Rightarrow> bool" where
  "web_url L s \<longleftrightarrow>
     (\<exists>u. url_parse L s = Some u \<and> (Scheme u = ''http'' \<or> Scheme u = ''https'') \<and> Host u \<noteq> '''')"

lemma rejected_iff:
  "(EventID e = nil_uuid \<or> NotificationID e \<noteq> EventID e \<or>
    UserID e = nil_uuid \<or> EventType e \<noteq> NotificationRequested \<or>
    SchemaVersion e \<noteq> RequestedSchemaV1 \<or> Template e \<noteq> TemplateNewPost \<or>
    IsZero (OccurredAt e) \<or> TrimSpace (Producer e) = '''' \<or>
    PostID (Data e) = nil_uuid \<or> FeedID (Data e) = nil_uuid \<or>
    TrimSpace (DataTitle (Data e)) = '''' \<or> IsZero (PublishedAt (Data e)) \<or>
    key \<noteq> uuid_text L (UserID e)) \<longleftrightarrow>
   \<not> (well_formed_request e \<and> key = uuid_text L (UserID e))"
  by (simp add: well_formed_request_def RequestedSchemaV1_def)

lemma bad_header_iff:
  "(\<exists>(field, want) \<in> set
     [(''event_id'', uuid_text L (EventID e)), (''event_type'', NotificationRequested),
      (''schema_version'', ''1''), (''content-type'', ''application/json'')].
     header hs field \<noteq> want) \<longleftrightarrow> \<not> request_headers L e hs"
  by (auto simp: request_headers_def)

lemma DecodeRequested_iff:
  "DecodeRequested L key hs payload = Inr e \<longleftrightarrow>
     (\<exists>v rest. json_next L payload = Some (v, rest) \<and> json_eof rest \<and>
        requested_of_json L v = Some e) \<and>
     well_formed_request e \<and> key = uuid_text L (UserID e) \<and> web_url L (DataURL (Data e)) \<and>
     request_headers L e hs" (is "?l \<longleftrightarrow> ?p \<and> ?c")
proof -
  have "?l \<longleftrightarrow> (\<exists>rest. Option.bind (json_next L payload)
      (\<lambda>(v, rest). map_option (\<lambda>e. (e, rest)) (requested_of_json L v)) = Some (e, rest) \<and>
      json_eof rest \<and> ?c)"
    unfolding DecodeRequested_def rejected_iff bad_header_iff
    by (auto simp: web_url_def split: option.splits prod.splits if_splits)
  also have "\<dots> \<longleftrightarrow> ?p \<and> ?c"
    by (auto simp: Option.bind_eq_Some_conv)
  finally show ?thesis .
qed

lemma DecodeRequested_error: "DecodeRequested L key hs payload = Inl err \<Longrightarrow> errors_is err ErrInvalidEvent"
  by (auto simp: DecodeRequested_def invalid_event_def errors_is_wrap
      split: option.splits prod.splits if_splits)

lemma DecodeRetry_iff:
  "DecodeRetry L key payload = Inr e \<longleftrightarrow>
     (\<exists>v. json_unmarshal L payload = Some v \<and>
        decode_struct (retry_fields L) False v zero_retry = Some e) \<and>
     r_DeliveryID e \<noteq> nil_uuid \<and> r_EventID e \<noteq> nil_uuid \<and> r_UserID e \<noteq> nil_uuid \<and>
     0 < r_AttemptNo e \<and> key = uuid_text L (r_UserID e)"
  by (auto simp: DecodeRetry_def Option.bind_eq_Some_conv split: option.splits if_splits)

end
