(* ===== verification/Kafka.thy ===== *)
theory Kafka
  imports Contract
begin

text \<open>
  Messages and publishing: \<open>relay.Record\<close>, the Kafka records, and
  \<open>internal/notification/broker\<close>. The Kafka client is not part of the repository; what
  the code relies on is written out in \<open>Publish\<close>: a \<open>ProduceSync\<close> that returns no
  error has appended the record to the log, one that returns an error may or may not have.
\<close>

record relay_record =
  rr_ID :: uuid
  rr_Topic :: string
  rr_Key :: string
  rr_Value :: string
  rr_Headers :: headers

record kafka_msg =
  k_topic :: string
  k_key :: string
  k_value :: string
  k_headers :: "(string \<times> string) list"

record kafka_record = kafka_msg +
  k_partition :: int
  k_offset :: int

definition splitBrokers :: "string \<Rightarrow> string list" where
  "splitBrokers s =
     filter (\<lambda>address. address \<noteq> '''') (map TrimSpace (Split CHR '','' s))"

definition NewPublisher :: "(string list \<Rightarrow> goerr option) \<Rightarrow> string \<Rightarrow> goerr + string list" where
  \<comment> \<open>the client is known by its seed brokers; \<open>new_client\<close> is \<open>kgo.NewClient\<close>\<close>
  "NewPublisher new_client brokers =
     (let addresses = splitBrokers brokers in
      if addresses = [] then Inl (plain_err ''KAFKA_BROKERS must not be empty'')
      else
        (case new_client addresses of
           Some e \<Rightarrow> Inl (wrap_err ''create Kafka publisher'' e)
         | None \<Rightarrow> Inr addresses))"

record consumer_client =
  cc_brokers :: "string list"
  cc_group :: string
  cc_topics :: "string list"

definition NewConsumer :: "(consumer_client \<Rightarrow> goerr option) \<Rightarrow> string \<Rightarrow> string \<Rightarrow> string list \<Rightarrow>
    goerr + consumer_client" where
  "NewConsumer new_client brokers grp topics =
     (let addresses = splitBrokers brokers in
      if addresses = [] \<or> grp = '''' \<or> topics = []
      then Inl (plain_err ''kafka consumer requires brokers, group and topics'')
      else
        let c = \<lparr>cc_brokers = addresses, cc_group = grp, cc_topics = topics\<rparr> in
        (case new_client c of Some e \<Rightarrow> Inl e | None \<Rightarrow> Inr c))"

definition published_headers :: "headers \<Rightarrow> (string \<times> string) list" where
  "published_headers hs =
     List.map_filter (\<lambda>key. map_option (Pair key) (hs key))
       [''event_id'', ''event_type'', ''schema_version'', ''content-type'']"

definition kafka_of :: "relay_record \<Rightarrow> kafka_msg" where
  "kafka_of r =
     \<lparr>k_topic = rr_Topic r, k_key = rr_Key r, k_value = rr_Value r,
      k_headers = published_headers (rr_Headers r)\<rparr>"

text \<open>What a call to the broker does: acknowledged, refused, or written without an answer.\<close>

datatype produce = Acked | NotSent goerr | NoAnswer goerr

definition Publish :: "produce \<Rightarrow> relay_record \<Rightarrow> kafka_msg list \<Rightarrow> goerr option \<times> kafka_msg list" where
  "Publish oc r kl =
     (case oc of
        Acked \<Rightarrow> (None, kl @ [kafka_of r])
      | NotSent e \<Rightarrow> (Some e, kl)
      | NoAnswer e \<Rightarrow> (Some e, kl @ [kafka_of r]))"

section \<open>Lemmas\<close>

lemma Publish_log:
  "Publish oc r kl = (e, kl') \<Longrightarrow> kl' = kl \<or> kl' = kl @ [kafka_of r]"
  by (auto simp: Publish_def split: produce.splits)

lemma Publish_ok: "Publish oc r kl = (None, kl') \<Longrightarrow> kl' = kl @ [kafka_of r]"
  by (auto simp: Publish_def split: produce.splits)

text \<open>The header map the consumer builds from a record.\<close>

definition record_headers :: "(string \<times> string) list \<Rightarrow> headers" where
  "record_headers hs = foldl (\<lambda>m (k, v). m(k \<mapsto> v)) Map.empty hs"

lemma foldl_headers:
  "foldl (\<lambda>m (k, v). m(k \<mapsto> v)) m0 hs k = (case map_of (rev hs) k of None \<Rightarrow> m0 k | Some v \<Rightarrow> Some v)"
  by (induction hs arbitrary: m0) (auto simp: map_add_def split: option.splits)

lemma record_headers_map: "record_headers hs = map_of (rev hs)"
  by (rule ext) (simp add: record_headers_def foldl_headers split: option.splits)

text \<open>
  The headers of a published record arrive unchanged: the four the publisher knows are the only
  ones any producer of the program sets.
\<close>

lemma record_headers_published:
  assumes "dom hs \<subseteq> {''event_id'', ''event_type'', ''schema_version'', ''content-type''}"
  shows "record_headers (published_headers hs) = hs"
proof
  fix k
  show "record_headers (published_headers hs) k = hs k"
  proof (cases "k \<in> {''event_id'', ''event_type'', ''schema_version'', ''content-type''}")
    case True
    then show ?thesis
      by (auto simp: record_headers_def published_headers_def List.map_filter_def)
  next
    case False
    then have "hs k = None" using assms by (auto simp: dom_def)
    with False show ?thesis
      by (auto simp: record_headers_def published_headers_def List.map_filter_def)
  qed
qed

lemma splitBrokers_trimmed:
  "b \<in> set (splitBrokers s) \<Longrightarrow> b \<noteq> '''' \<and> (\<exists>a \<in> set (Split CHR '','' s). b = TrimSpace a)"
  by (auto simp: splitBrokers_def)

end
