(* ===== verification/NotifDB.thy ===== *)
theory NotifDB
  imports Contract
begin

text \<open>
  The notification database: the rows of its four tables (the migrations under
  \<open>internal/notification/migrations/sql\<close>), transactions with their failures, and the
  invariant the tables keep.

  Every round trip of an operation to the database has an \<open>outcome\<close>: it succeeds, it
  fails without an effect, or its effect is kept and only the answer is lost (a broken
  connection at a commit). Inside an open transaction the last two are the same, because the
  deferred rollback undoes the transaction. A statement can also fail by itself, when it
  violates a constraint.
\<close>

section \<open>Rows\<close>

datatype status = StPending | StProcessing | StRetryWait | StSent | StFailed | StCancelled

record channel_row = channel +
  ch_created :: instant
  ch_updated :: instant

record inbox_row =
  in_event :: uuid
  in_user :: uuid
  in_type :: string
  in_version :: int
  in_template :: string
  in_payload :: json
  in_occurred :: instant
  in_received :: instant

record delivery_row =
  d_id :: uuid
  d_event :: uuid
  d_user :: uuid
  d_channel :: uuid
  d_status :: status
  d_attempts :: int
  d_available :: instant
  d_token :: "uuid option"
  d_lease :: "instant option"
  d_sent_at :: "instant option"
  d_error :: "string option"
  d_created :: instant
  d_updated :: instant

record dispatch_row =
  o_id :: uuid
  o_delivery :: uuid
  o_user :: uuid
  o_attempt :: int
  o_kind :: string
  o_topic :: string
  o_payload :: json
  o_available :: instant
  o_published :: "instant option"
  o_publish_attempts :: int
  o_created :: instant

record ndb =
  channels :: "channel_row list"
  inbox :: "inbox_row list"
  deliveries :: "delivery_row list"
  dispatch :: "dispatch_row list"

definition empty_ndb :: ndb where
  "empty_ndb = \<lparr>channels = [], inbox = [], deliveries = [], dispatch = []\<rparr>"

section \<open>Round trips and transactions\<close>

datatype outcome = Applied | Refused goerr | Lost goerr

definition call :: "outcome \<Rightarrow> goerr + 'a \<Rightarrow> goerr + 'a" where
  \<comment> \<open>a statement of an open transaction\<close>
  "call oc r = (case oc of Applied \<Rightarrow> r | Refused e \<Rightarrow> Inl e | Lost e \<Rightarrow> Inl e)"

definition commit :: "outcome \<Rightarrow> 'a \<Rightarrow> 's \<Rightarrow> 's \<Rightarrow> (goerr + 'a) \<times> 's" where
  \<comment> \<open>\<open>tx.Commit\<close>, and the deferred rollback when it fails\<close>
  "commit oc a s s' =
     (case oc of Applied \<Rightarrow> (Inr a, s') | Refused e \<Rightarrow> (Inl e, s) | Lost e \<Rightarrow> (Inl e, s'))"

definition autocommit :: "outcome \<Rightarrow> ('s \<Rightarrow> goerr + 'a \<times> 's) \<Rightarrow> 's \<Rightarrow> (goerr + 'a) \<times> 's" where
  \<comment> \<open>\<open>pool.Exec\<close> and \<open>pool.Query\<close>: one statement, a transaction of its own\<close>
  "autocommit oc stmt s =
     (case oc of
        Refused e \<Rightarrow> (Inl e, s)
      | Applied \<Rightarrow> (case stmt s of Inl e \<Rightarrow> (Inl e, s) | Inr (a, s') \<Rightarrow> (Inr a, s'))
      | Lost e \<Rightarrow> (Inl e, (case stmt s of Inl _ \<Rightarrow> s | Inr (_, s') \<Rightarrow> s')))"

text \<open>The SQLSTATE codes of the constraint violations.\<close>

definition unique_violation :: "string \<Rightarrow> goerr" where
  "unique_violation c = GoErr (PgError ''23505'' c) []"
definition foreign_key_violation :: "string \<Rightarrow> goerr" where
  "foreign_key_violation c = GoErr (PgError ''23503'' c) []"
definition check_violation :: "string \<Rightarrow> goerr" where
  "check_violation c = GoErr (PgError ''23514'' c) []"
definition invalid_json :: goerr where
  "invalid_json = GoErr (PgError ''22P02'' '''') []"

definition pg_text :: "string \<Rightarrow> bool" where
  \<comment> \<open>what a \<open>TEXT\<close> value can hold: valid UTF-8 without a zero byte\<close>
  "pg_text s \<longleftrightarrow> CHR 0x00 \<notin> set s \<and> string_of_runes (runes s) = s"

lemma call_Inr [simp]: "call oc r = Inr x \<longleftrightarrow> oc = Applied \<and> r = Inr x"
  by (cases oc) (auto simp: call_def)

lemma call_Applied [simp]: "call Applied r = r"
  by (simp add: call_def)

lemma commit_Inr: "commit oc a s s' = (Inr x, t) \<longleftrightarrow> oc = Applied \<and> x = a \<and> t = s'"
  by (cases oc) (auto simp: commit_def)

lemma commit_state: "snd (commit oc a s s') = s \<or> snd (commit oc a s s') = s'"
  by (cases oc) (auto simp: commit_def)

lemma commit_stateD: "commit oc a s s' = (r, t) \<Longrightarrow> t = s \<or> t = s'"
  by (cases oc) (auto simp: commit_def)

lemma call_cases:
  assumes "call oc r = Inr x"
  shows "r = Inr x"
  using assms by simp

lemma autocommit_state:
  "snd (autocommit oc stmt s) = s \<or> (\<exists>a. stmt s = Inr (a, snd (autocommit oc stmt s)))"
  by (auto simp: autocommit_def split: outcome.splits sum.splits prod.splits)

section \<open>The invariant of the tables\<close>

text \<open>
  The constraints the schema declares: keys, uniqueness, foreign keys and checks. (A unique
  constraint over two columns of a nullable kind does not occur.)
\<close>

definition lease_check :: "delivery_row \<Rightarrow> bool" where
  "lease_check d \<longleftrightarrow>
     (d_status d = StProcessing) = (d_token d \<noteq> None \<and> d_lease d \<noteq> None)"

definition sent_check :: "delivery_row \<Rightarrow> bool" where
  "sent_check d \<longleftrightarrow> (d_status d = StSent) = (d_sent_at d \<noteq> None)"

definition schema_ok :: "ndb \<Rightarrow> bool" where
  "schema_ok s \<longleftrightarrow>
     distinct (map ch_id (channels s)) \<and>
     distinct (map (\<lambda>c. (ch_user c, ch_type c, ch_destination c)) (channels s)) \<and>
     distinct (map in_event (inbox s)) \<and>
     distinct (map d_id (deliveries s)) \<and>
     distinct (map (\<lambda>d. (d_event d, d_channel d)) (deliveries s)) \<and>
     (\<forall>d \<in> set (deliveries s). 0 \<le> d_attempts d \<and> lease_check d \<and> sent_check d \<and>
        (\<exists>i \<in> set (inbox s). in_event i = d_event d \<and> in_user i = d_user d)) \<and>
     distinct (map o_id (dispatch s)) \<and>
     distinct (map (\<lambda>r. (o_delivery r, o_kind r, o_attempt r)) (dispatch s)) \<and>
     (\<forall>r \<in> set (dispatch s). 0 < o_attempt r \<and> 0 \<le> o_publish_attempts r \<and>
        (o_kind r = ''dlq'' \<and> o_topic r = DLQTopicV1 \<or>
         o_kind r = ''retry'' \<and> IsRetryTopic (o_topic r)) \<and>
        (\<exists>d \<in> set (deliveries s). d_id d = o_delivery r \<and> d_user d = o_user r))"

lemma schema_ok_empty: "schema_ok empty_ndb"
  by (simp add: schema_ok_def empty_ndb_def)

lemma schema_delivery:
  assumes "schema_ok s" "d \<in> set (deliveries s)"
  shows "0 \<le> d_attempts d" "lease_check d" "sent_check d"
    "\<exists>i \<in> set (inbox s). in_event i = d_event d \<and> in_user i = d_user d"
  using assms by (auto simp: schema_ok_def)

lemma schema_d_id: "schema_ok s \<Longrightarrow> distinct (map d_id (deliveries s))"
  by (simp add: schema_ok_def)

text \<open>
  What a statement on the deliveries has to respect: it keeps identity, owner, event and
  channel of a row, and leaves attempts and the two checks right.
\<close>

definition same_delivery :: "delivery_row \<Rightarrow> delivery_row \<Rightarrow> bool" where
  "same_delivery d d' \<longleftrightarrow> d_id d' = d_id d \<and> d_event d' = d_event d \<and> d_user d' = d_user d \<and>
     d_channel d' = d_channel d"

lemma schema_ok_upd_deliveries:
  assumes s: "schema_ok s"
    and f: "\<And>d. P d \<Longrightarrow> same_delivery d (f d)"
    and c: "\<And>d. d \<in> set (deliveries s) \<Longrightarrow> P d \<Longrightarrow>
      0 \<le> d_attempts (f d) \<and> lease_check (f d) \<and> sent_check (f d)"
  shows "schema_ok (s\<lparr>deliveries := upd P f (deliveries s)\<rparr>)"
proof -
  have m: "map d_id (upd P f (deliveries s)) = map d_id (deliveries s)"
    "map (\<lambda>d. (d_event d, d_channel d)) (upd P f (deliveries s)) =
     map (\<lambda>d. (d_event d, d_channel d)) (deliveries s)"
    using f by (auto simp: same_delivery_def intro!: map_upd)
  have d: "\<forall>d \<in> set (upd P f (deliveries s)). 0 \<le> d_attempts d \<and> lease_check d \<and> sent_check d \<and>
        (\<exists>i \<in> set (inbox s). in_event i = d_event d \<and> in_user i = d_user d)"
    using s c f schema_delivery [OF s] by (fastforce simp: set_upd same_delivery_def)
  have o: "\<forall>r \<in> set (dispatch s). \<exists>d \<in> set (upd P f (deliveries s)). d_id d = o_delivery r \<and> d_user d = o_user r"
  proof
    fix r assume "r \<in> set (dispatch s)"
    then obtain d where "d \<in> set (deliveries s)" "d_id d = o_delivery r" "d_user d = o_user r"
      using s by (auto simp: schema_ok_def)
    then show "\<exists>d \<in> set (upd P f (deliveries s)). d_id d = o_delivery r \<and> d_user d = o_user r"
      using f [of d] by (intro bexI [of _ "if P d then f d else d"]) (auto simp: set_upd same_delivery_def)
  qed
  show ?thesis
    using s m d o unfolding schema_ok_def by auto
qed

end
