(* ===== verification/Storage.thy ===== *)
theory Storage
  imports NotifDB "HOL-Library.Option_ord"
begin

text \<open>
  \<open>internal/database/storage\<close>: the repository of the monolith (users, feeds, follows,
  posts and the outbox of notification requests). Timestamps of the rows are in microseconds,
  the ones of the Go values in nanoseconds.
\<close>

record user =
  u_id :: uuid
  u_created :: instant
  u_updated :: instant
  u_name :: string
  u_api_key :: string

record feed =
  f_id :: uuid
  f_created :: instant
  f_updated :: instant
  f_name :: string
  f_url :: string
  f_fetched :: "instant option"

record follow =
  fo_id :: uuid
  fo_created :: instant
  fo_updated :: instant
  fo_user :: uuid
  fo_feed :: uuid

record post =
  p_id :: uuid
  p_title :: string
  p_description :: "string option"
  p_published :: instant
  p_url :: string
  p_feed :: uuid

record post_row = post +
  p_created :: instant
  p_updated :: instant

record event_row =
  ev_id :: uuid
  ev_type :: string
  ev_aggregate :: uuid
  ev_payload :: json
  ev_created :: instant
  ev_processed :: "instant option"
  ev_attempts :: int
  ev_available :: instant
  ev_topic :: "string option"
  ev_key :: "string option"
  ev_version :: "int option"
  ev_published :: "instant option"

record mdb =
  users :: "user list"
  feeds :: "feed list"
  follows :: "follow list"
  posts :: "post_row list"
  events :: "event_row list"

definition to_micros :: "instant \<Rightarrow> instant" where
  \<comment> \<open>a \<open>time.Time\<close> argument of a statement\<close>
  "to_micros t = t div 1000"

definition of_micros :: "instant \<Rightarrow> instant" where
  "of_micros t = t * 1000"

definition bad_text :: goerr where
  "bad_text = GoErr (PgError ''22021'' '''') []"
definition bad_length :: goerr where
  "bad_length = GoErr (PgError ''22001'' '''') []"
definition bad_limit :: goerr where
  "bad_limit = GoErr (PgError ''2201W'' '''') []"
definition bad_offset :: goerr where
  "bad_offset = GoErr (PgError ''2201X'' '''') []"

section \<open>Users, feeds and follows\<close>

definition insert_user :: "user \<Rightarrow> mdb \<Rightarrow> goerr + user \<times> mdb" where
  "insert_user u s =
     (if \<not> pg_text (u_name u) \<or> \<not> pg_text (u_api_key u) then Inl bad_text
      else if 256 < length (runes (u_name u)) \<or> 64 < length (runes (u_api_key u)) then Inl bad_length
      else if \<exists>x \<in> set (users s). u_id x = u_id u then Inl (unique_violation ''users_pkey'')
      else if \<exists>x \<in> set (users s). u_api_key x = u_api_key u
      then Inl (unique_violation ''users_api_key_key'')
      else Inr (u, s\<lparr>users := users s @ [u]\<rparr>))"

definition SaveUser :: "outcome \<Rightarrow> instant \<Rightarrow> instant \<Rightarrow> uuid \<Rightarrow> string \<Rightarrow> string \<Rightarrow> mdb \<Rightarrow>
    (goerr + user) \<times> mdb" where
  \<comment> \<open>the two clocks are the two calls of \<open>time.Now\<close>\<close>
  "SaveUser oc now1 now2 i name apiKey s =
     autocommit oc (insert_user \<lparr>u_id = i, u_created = to_micros now1, u_updated = to_micros now2,
       u_name = name, u_api_key = apiKey\<rparr>) s"

definition GetUserByApiKey :: "outcome \<Rightarrow> string \<Rightarrow> mdb \<Rightarrow> goerr + user" where
  "GetUserByApiKey oc apiKey s =
     call oc
       (if \<not> pg_text apiKey then Inl bad_text
        else (case filter (\<lambda>u. u_api_key u = apiKey) (users s) of
                [] \<Rightarrow> Inl (sentinel_err PgxNoRows) | u # _ \<Rightarrow> Inr u))"

definition insert_feed :: "feed \<Rightarrow> mdb \<Rightarrow> goerr + feed \<times> mdb" where
  "insert_feed f s =
     (if \<not> pg_text (f_name f) \<or> \<not> pg_text (f_url f) then Inl bad_text
      else if \<exists>x \<in> set (feeds s). f_id x = f_id f then Inl (unique_violation ''feeds_pkey'')
      else if \<exists>x \<in> set (feeds s). f_url x = f_url f then Inl (unique_violation ''feeds_url_key'')
      else Inr (f, s\<lparr>feeds := feeds s @ [f]\<rparr>))"

definition AddFeed :: "outcome \<Rightarrow> instant \<Rightarrow> uuid \<Rightarrow> string \<Rightarrow> string \<Rightarrow> mdb \<Rightarrow> (goerr + feed) \<times> mdb" where
  "AddFeed oc now i name url s =
     autocommit oc (insert_feed \<lparr>f_id = i, f_created = to_micros now, f_updated = to_micros now,
       f_name = name, f_url = url, f_fetched = None\<rparr>) s"

definition insert_follow :: "follow \<Rightarrow> mdb \<Rightarrow> goerr + unit \<times> mdb" where
  "insert_follow f s =
     (if \<exists>x \<in> set (follows s). fo_id x = fo_id f then Inl (unique_violation ''feed_follows_pkey'')
      else if \<exists>x \<in> set (follows s). fo_user x = fo_user f \<and> fo_feed x = fo_feed f
      then Inl (unique_violation ''feed_follows_user_id_feed_id_key'')
      else if \<not> (\<exists>u \<in> set (users s). u_id u = fo_user f)
      then Inl (foreign_key_violation ''feed_follows_user_id_fkey'')
      else if \<not> (\<exists>x \<in> set (feeds s). f_id x = fo_feed f)
      then Inl (foreign_key_violation ''feed_follows_feed_id_fkey'')
      else Inr ((), s\<lparr>follows := follows s @ [f]\<rparr>))"

definition FollowFeed :: "outcome \<Rightarrow> uuid \<Rightarrow> instant \<Rightarrow> uuid \<Rightarrow> uuid \<Rightarrow> mdb \<Rightarrow> (goerr + unit) \<times> mdb" where
  "FollowFeed oc newID now userID feedID s =
     autocommit oc (insert_follow \<lparr>fo_id = newID, fo_created = to_micros now, fo_updated = to_micros now,
       fo_user = userID, fo_feed = feedID\<rparr>) s"

text \<open>Round trip 0 of a listing is the query, round trip 1 the end of the iteration.\<close>

definition listing :: "(nat \<Rightarrow> outcome) \<Rightarrow> goerr + 'a \<Rightarrow> goerr + 'a" where
  "listing oc r = (case call (oc 0) r of Inl e \<Rightarrow> Inl e | Inr rows \<Rightarrow> call (oc 1) (Inr rows))"

definition GetFeedsPage :: "(nat \<Rightarrow> outcome) \<Rightarrow> uuid option \<Rightarrow> int \<Rightarrow> mdb \<Rightarrow> goerr + feed list" where
  "GetFeedsPage oc after limit s =
     (if limit < 1 \<or> 101 < limit then Inl (plain_err ''feeds page limit must be between 1 and 101'')
      else
        listing oc (Inr (take (nat limit) (sort_key f_id
          (case after of None \<Rightarrow> feeds s | Some a \<Rightarrow> filter (\<lambda>f. a < f_id f) (feeds s))))))"

definition GetNextFeedsToFetch :: "(nat \<Rightarrow> outcome) \<Rightarrow> int \<Rightarrow> mdb \<Rightarrow> goerr + feed list" where
  \<comment> \<open>the query reads four columns; the two dates of the result are zero values\<close>
  "GetNextFeedsToFetch oc limit s =
     listing oc
       (if limit < 0 then Inl bad_limit
        else Inr (map (\<lambda>f. f\<lparr>f_created := to_micros zero_time, f_updated := to_micros zero_time\<rparr>)
               (take (nat limit) (sort_key (\<lambda>f. (f_fetched f, f_id f)) (feeds s)))))"

definition MarkFeedFetched :: "outcome \<Rightarrow> instant \<Rightarrow> uuid \<Rightarrow> mdb \<Rightarrow> (goerr + unit) \<times> mdb" where
  "MarkFeedFetched oc now i s =
     autocommit oc (\<lambda>s. Inr ((), s\<lparr>feeds :=
       upd (\<lambda>f. f_id f = i) (\<lambda>f. f\<lparr>f_fetched := Some (to_micros now)\<rparr>) (feeds s)\<rparr>)) s"

text \<open>
  The order of posts with the same date is left open by the query: \<open>tie\<close> is the order in
  which the database happens to return them.
\<close>

definition GetPosts :: "(nat \<Rightarrow> outcome) \<Rightarrow> (uuid \<Rightarrow> nat) \<Rightarrow> uuid \<Rightarrow> int \<Rightarrow> int \<Rightarrow> mdb \<Rightarrow> goerr + post list" where
  "GetPosts oc tie userID limit offset s =
     listing oc
       (if limit < 0 then Inl bad_limit
        else if offset < 0 then Inl bad_offset
        else Inr (map (\<lambda>p. (post.truncate p)\<lparr>p_published := of_micros (p_published p)\<rparr>)
               (take (nat limit) (drop (nat offset)
                 (sort_key (\<lambda>p. (- p_published p, tie (p_id p)))
                   [p. p \<leftarrow> posts s, fo \<leftarrow> follows s, p_feed p = fo_feed fo \<and> fo_user fo = userID])))))"

section \<open>SavePost\<close>

definition notificationProducer :: string where
  "notificationProducer = ''feedflow-monolith''"

definition intent_payload :: "lib \<Rightarrow> instant \<Rightarrow> post \<Rightarrow> uuid \<Rightarrow> uuid \<Rightarrow> json" where
  "intent_payload L now post i user =
     jsonb_build_object
       [(''event_id'', JStr (uuid_text L i)),
        (''event_type'', JStr NotificationRequested),
        (''schema_version'', JNum (Itoa RequestedSchemaV1)),
        (''occurred_at'', JStr (pg_time_text L (to_micros now))),
        (''producer'', JStr notificationProducer),
        (''notification_id'', JStr (uuid_text L i)),
        (''user_id'', JStr (uuid_text L user)),
        (''template'', JStr TemplateNewPost),
        (''data'', jsonb_build_object
          [(''post_id'', JStr (uuid_text L (p_id post))),
           (''feed_id'', JStr (uuid_text L (p_feed post))),
           (''title'', JStr (p_title post)),
           (''body'', JStr (case p_description post of None \<Rightarrow> '''' | Some d \<Rightarrow> d)),
           (''url'', JStr (p_url post)),
           (''published_at'', JStr (pg_time_text L (to_micros (p_published post))))])]"

definition intent_row :: "lib \<Rightarrow> instant \<Rightarrow> post \<Rightarrow> uuid \<Rightarrow> uuid \<Rightarrow> event_row" where
  "intent_row L now post i user =
     \<lparr>ev_id = i, ev_type = NotificationRequested, ev_aggregate = p_id post,
      ev_payload = intent_payload L now post i user, ev_created = to_micros now, ev_processed = None,
      ev_attempts = 0, ev_available = to_micros now, ev_topic = Some RequestsTopicV1,
      ev_key = Some (uuid_text L user), ev_version = Some RequestedSchemaV1, ev_published = None\<rparr>"

definition intent_key :: "event_row \<Rightarrow> uuid \<times> string option" where
  "intent_key e = (ev_aggregate e, ev_key e)"

definition insert_post :: "lib \<Rightarrow> (uuid \<Rightarrow> uuid) \<Rightarrow> instant \<Rightarrow> post \<Rightarrow> mdb \<Rightarrow> goerr + bool \<times> mdb" where
  "insert_post L fresh now post s =
     (if \<not> pg_text (p_title post) \<or> \<not> pg_text (p_url post) \<or>
         (case p_description post of None \<Rightarrow> False | Some d \<Rightarrow> \<not> pg_text d)
      then Inl bad_text
      else if \<exists>p \<in> set (posts s). p_url p = p_url post then Inr (False, s)
      else if \<exists>p \<in> set (posts s). p_id p = p_id post then Inl (unique_violation ''posts_pkey'')
      else
        let row = post.extend (post\<lparr>p_published := to_micros (p_published post)\<rparr>)
                    \<lparr>p_created = to_micros now, p_updated = to_micros now\<rparr>;
            new = map (\<lambda>ff. intent_row L now post (fresh (fo_user ff)) (fo_user ff))
                    (filter (\<lambda>ff. fo_feed ff = p_feed post) (follows s));
            all = events s @ new
        in if \<not> distinct (map ev_id all) then Inl (unique_violation ''outbox_events_pkey'')
           else if \<not> distinct (map intent_key (filter (\<lambda>e. ev_type e = NotificationRequested) all))
           then Inl (unique_violation ''idx_outbox_notification_intent'')
           else if \<not> (\<exists>f \<in> set (feeds s). f_id f = p_feed post)
           then Inl (foreign_key_violation ''posts_feed_id_fkey'')
           else Inr (True, s\<lparr>posts := posts s @ [row], events := all\<rparr>))"

definition SavePost :: "lib \<Rightarrow> outcome \<Rightarrow> (uuid \<Rightarrow> uuid) \<Rightarrow> instant \<Rightarrow> post \<Rightarrow> mdb \<Rightarrow> (goerr + bool) \<times> mdb" where
  "SavePost L oc fresh now post s =
     (case autocommit oc (insert_post L fresh now post) s of
        (Inl e, s') \<Rightarrow> (Inl (wrap_err ''save post with outbox event'' e), s')
      | (Inr inserted, s') \<Rightarrow> (Inr inserted, s'))"

section \<open>The constraints of the tables\<close>

definition mdb_ok :: "mdb \<Rightarrow> bool" where
  "mdb_ok s \<longleftrightarrow>
     distinct (map u_id (users s)) \<and> distinct (map u_api_key (users s)) \<and>
     distinct (map f_id (feeds s)) \<and> distinct (map f_url (feeds s)) \<and>
     distinct (map fo_id (follows s)) \<and> distinct (map (\<lambda>f. (fo_user f, fo_feed f)) (follows s)) \<and>
     (\<forall>f \<in> set (follows s). fo_user f \<in> u_id ` set (users s) \<and> fo_feed f \<in> f_id ` set (feeds s)) \<and>
     distinct (map p_id (posts s)) \<and> distinct (map p_url (posts s)) \<and>
     (\<forall>p \<in> set (posts s). p_feed p \<in> f_id ` set (feeds s)) \<and>
     distinct (map ev_id (events s)) \<and>
     distinct (map intent_key (filter (\<lambda>e. ev_type e = NotificationRequested) (events s))) \<and>
     (\<forall>e \<in> set (events s). 0 \<le> ev_attempts e \<and>
        (ev_type e = NotificationRequested \<longrightarrow> ev_topic e \<noteq> None \<and> ev_key e \<noteq> None \<and> ev_version e \<noteq> None))"

definition empty_mdb :: mdb where
  "empty_mdb = \<lparr>users = [], feeds = [], follows = [], posts = [], events = []\<rparr>"

lemma mdb_ok_empty: "mdb_ok empty_mdb"
  by (simp add: mdb_ok_def empty_mdb_def)

lemma autocommit_cases:
  assumes "autocommit oc stmt s = (r, s')"
  obtains (unchanged) "s' = s" | (changed) a where "stmt s = Inr (a, s')"
  using autocommit_state [of oc stmt s] assms by auto

lemma SaveUser_ok: "mdb_ok s \<Longrightarrow> SaveUser oc now1 now2 i name apiKey s = (r, s') \<Longrightarrow> mdb_ok s'"
  unfolding SaveUser_def
  by (erule autocommit_cases) (auto simp: insert_user_def mdb_ok_def split: if_splits)

lemma AddFeed_ok: "mdb_ok s \<Longrightarrow> AddFeed oc now i name url s = (r, s') \<Longrightarrow> mdb_ok s'"
  unfolding AddFeed_def
  by (erule autocommit_cases) (auto simp: insert_feed_def mdb_ok_def split: if_splits)

lemma FollowFeed_ok: "mdb_ok s \<Longrightarrow> FollowFeed oc i now userID feedID s = (r, s') \<Longrightarrow> mdb_ok s'"
  unfolding FollowFeed_def
  by (erule autocommit_cases) (auto simp: insert_follow_def mdb_ok_def split: if_splits, blast+)

lemma MarkFeedFetched_ok:
  assumes ok: "mdb_ok s" and res: "MarkFeedFetched oc now i s = (r, s')"
  shows "mdb_ok s'"
proof -
  let ?fs = "upd (\<lambda>f. f_id f = i) (\<lambda>f. f\<lparr>f_fetched := Some (to_micros now)\<rparr>) (feeds s)"
  have "map f_id ?fs = map f_id (feeds s)" "map f_url ?fs = map f_url (feeds s)"
    by (simp_all add: map_upd)
  moreover from this have "f_id ` set ?fs = f_id ` set (feeds s)" by (metis image_set)
  ultimately have "mdb_ok (s\<lparr>feeds := ?fs\<rparr>)" using ok by (simp add: mdb_ok_def)
  moreover have "s' = s \<or> s' = s\<lparr>feeds := ?fs\<rparr>"
    using res unfolding MarkFeedFetched_def by (rule autocommit_cases) auto
  ultimately show ?thesis using ok by auto
qed

section \<open>What SavePost does\<close>

definition followers :: "uuid \<Rightarrow> mdb \<Rightarrow> follow list" where
  "followers feedID s = filter (\<lambda>ff. fo_feed ff = feedID) (follows s)"

lemma followers_distinct: "mdb_ok s \<Longrightarrow> distinct (map fo_user (followers feedID s))"
  by (auto simp: mdb_ok_def followers_def distinct_map inj_on_def)

lemma if_Inl_Inr: "((if c then Inl e else x) = Inr y) \<longleftrightarrow> \<not> c \<and> x = Inr y"
  by simp

lemma if_False_True:
  "((if c then Inr (False, s) else x) = Inr (True, s')) \<longleftrightarrow> \<not> c \<and> x = Inr (True, s')"
  by simp

lemma insert_post_True:
  assumes "insert_post L fresh now post s = Inr (True, s')"
  obtains row new where "s' = s\<lparr>posts := posts s @ [row], events := events s @ new\<rparr>"
    "new = map (\<lambda>ff. intent_row L now post (fresh (fo_user ff)) (fo_user ff)) (followers (p_feed post) s)"
    "p_id row = p_id post" "p_url row = p_url post" "p_feed row = p_feed post"
    "p_title row = p_title post" "p_description row = p_description post"
    "p_published row = to_micros (p_published post)"
    "distinct (map ev_id (events s @ new))"
    "distinct (map intent_key (filter (\<lambda>e. ev_type e = NotificationRequested) (events s @ new)))"
    "\<forall>p \<in> set (posts s). p_url p \<noteq> p_url post \<and> p_id p \<noteq> p_id post"
    "p_feed post \<in> f_id ` set (feeds s)"
proof -
  define new where "new = map (\<lambda>ff. intent_row L now post (fresh (fo_user ff)) (fo_user ff))
    (followers (p_feed post) s)"
  define row where "row = post.extend (post\<lparr>p_published := to_micros (p_published post)\<rparr>)
                    \<lparr>p_created = to_micros now, p_updated = to_micros now\<rparr>"
  have *: "s' = s\<lparr>posts := posts s @ [row], events := events s @ new\<rparr> \<and>
    distinct (map ev_id (events s @ new)) \<and>
    distinct (map intent_key (filter (\<lambda>e. ev_type e = NotificationRequested) (events s @ new))) \<and>
    \<not> (\<exists>p \<in> set (posts s). p_url p = p_url post) \<and> \<not> (\<exists>p \<in> set (posts s). p_id p = p_id post) \<and>
    (\<exists>f \<in> set (feeds s). f_id f = p_feed post)"
    using assms
    unfolding insert_post_def Let_def followers_def [symmetric] row_def [symmetric] new_def [symmetric]
    unfolding if_Inl_Inr if_False_True not_not sum.inject prod.inject
    by - (elim conjE, intro conjI, erule sym, assumption+)
  then have "\<exists>f \<in> set (feeds s). f_id f = p_feed post" by (elim conjE)
  then have feed: "p_feed post \<in> f_id ` set (feeds s)" by (metis imageI)
  have no: "\<forall>p \<in> set (posts s). p_url p \<noteq> p_url post \<and> p_id p \<noteq> p_id post" using * by simp
  have row: "p_id row = p_id post" "p_url row = p_url post" "p_feed row = p_feed post"
    "p_title row = p_title post" "p_description row = p_description post"
    "p_published row = to_micros (p_published post)"
    by (simp_all add: row_def post.extend_def)
  from * show ?thesis
    by - (elim conjE, rule that [OF _ new_def row _ _ no feed], assumption+)
qed

lemma insert_post_False:
  "insert_post L fresh now post s = Inr (False, s') \<Longrightarrow>
   s' = s \<and> (\<exists>p \<in> set (posts s). p_url p = p_url post)"
  by (auto simp: insert_post_def Let_def split: if_splits)

lemma SavePost_ok:
  assumes ok: "mdb_ok s" and res: "SavePost L oc fresh now post s = (r, s')"
  shows "mdb_ok s'"
proof -
  obtain r' where "autocommit oc (insert_post L fresh now post) s = (r', s')"
    using res by (auto simp: SavePost_def split: prod.splits sum.splits)
  then show ?thesis
  proof (cases rule: autocommit_cases)
    case (changed b)
    show ?thesis
    proof (cases b)
      case False
      with changed have "insert_post L fresh now post s = Inr (False, s')" by simp
      then show ?thesis using insert_post_False ok by blast
    next
      case True
      with changed have "insert_post L fresh now post s = Inr (True, s')" by simp
      then show ?thesis
      proof (rule insert_post_True)
        fix row new
        assume s': "s' = s\<lparr>posts := posts s @ [row], events := events s @ new\<rparr>"
          and new: "new = map (\<lambda>ff. intent_row L now post (fresh (fo_user ff)) (fo_user ff))
            (followers (p_feed post) s)"
          and row: "p_id row = p_id post" "p_url row = p_url post" "p_feed row = p_feed post"
          and keys: "distinct (map ev_id (events s @ new))"
            "distinct (map intent_key (filter (\<lambda>e. ev_type e = NotificationRequested) (events s @ new)))"
            "\<forall>p \<in> set (posts s). p_url p \<noteq> p_url post \<and> p_id p \<noteq> p_id post"
            "p_feed post \<in> f_id ` set (feeds s)"
        have "\<forall>e \<in> set new. 0 \<le> ev_attempts e \<and> ev_topic e \<noteq> None \<and> ev_key e \<noteq> None \<and> ev_version e \<noteq> None"
          by (auto simp: new intent_row_def)
        moreover have "distinct (map p_id (posts s @ [row]))" "distinct (map p_url (posts s @ [row]))"
          using ok row keys(3) by (auto simp: mdb_ok_def)
        ultimately show "mdb_ok s'"
          using ok row keys
          unfolding mdb_ok_def s'
          by (auto simp del: map_append filter_append distinct_append)
      qed
    qed
  qed (use ok in simp)
qed

section \<open>Paging\<close>

text \<open>
  Reading all pages the way a client of the API does: the handler asks for one row more than the
  page holds, and when there is one, the identifier of the last row of the page is the next
  cursor. \<open>fuel\<close> bounds the number of pages.
\<close>

fun all_pages :: "nat \<Rightarrow> int \<Rightarrow> uuid option \<Rightarrow> mdb \<Rightarrow> (goerr + feed list) option" where
  "all_pages 0 limit after s = None"
| "all_pages (Suc fuel) limit after s =
     (case GetFeedsPage (\<lambda>_. Applied) after (limit + 1) s of
        Inl e \<Rightarrow> Some (Inl e)
      | Inr rows \<Rightarrow>
          if limit < int (length rows) then
            let page = take (nat limit) rows in
            (case all_pages fuel limit (Some (f_id (last page))) s of
               Some (Inr rest) \<Rightarrow> Some (Inr (page @ rest))
             | r \<Rightarrow> r)
          else Some (Inr rows))"

lemma GetFeedsPage_Inr:
  assumes "1 \<le> limit" "limit \<le> 101"
  shows "GetFeedsPage (\<lambda>_. Applied) after limit s =
     Inr (take (nat limit) (sort_key f_id (filter (\<lambda>f. after < Some (f_id f)) (feeds s))))"
  using assms by (cases after) (simp_all add: GetFeedsPage_def listing_def)

lemma sorted_le_last: "sorted (map k xs) \<Longrightarrow> x \<in> set xs \<Longrightarrow> k x \<le> k (last xs)"
  by (induction xs rule: rev_induct) (auto simp: sorted_append)

text \<open>The rows behind the last key of a page are the rest of the ordered rows.\<close>

lemma filter_after_page:
  assumes s: "sorted (map k ys)" and d: "distinct (map k ys)" and n: "0 < n" "ys \<noteq> []"
  shows "filter (\<lambda>x. k (last (take n ys)) < k x) ys = drop n ys"
proof -
  let ?a = "take n ys" and ?b = "drop n ys"
  have a: "?a \<noteq> []" using n by simp
  have "sorted (map k ?a @ map k ?b)" "distinct (map k ?a @ map k ?b)"
    using s d by (simp_all flip: map_append)
  then have sa: "sorted (map k ?a)" and lt: "\<forall>x \<in> set ?a. \<forall>y \<in> set ?b. k x < k y"
    by (auto simp: sorted_append less_le)
  have "\<forall>x \<in> set ?a. \<not> k (last ?a) < k x"
    using sorted_le_last [OF sa] by (auto simp: not_less)
  moreover have "\<forall>y \<in> set ?b. k (last ?a) < k y" using lt last_in_set [OF a] by blast
  ultimately have "filter (\<lambda>x. k (last ?a) < k x) (?a @ ?b) = ?b"
    unfolding filter_append by (simp add: filter_empty_conv)
  then show ?thesis by simp
qed

lemma all_pages_rows:
  assumes lim: "1 \<le> limit" "limit \<le> 100" and d: "distinct (map f_id (feeds s))"
    and fuel: "length (filter (\<lambda>f. after < Some (f_id f)) (feeds s)) < fuel"
  shows "all_pages fuel limit after s =
     Some (Inr (sort_key f_id (filter (\<lambda>f. after < Some (f_id f)) (feeds s))))"
  using fuel
proof (induction fuel arbitrary: after)
  case (Suc fuel)
  let ?rows = "filter (\<lambda>f. after < Some (f_id f)) (feeds s)"
  let ?ys = "sort_key f_id ?rows"
  have ds: "distinct (map f_id ?ys)" using d by (auto simp: distinct_map inj_on_def)
  have pg1: "GetFeedsPage (\<lambda>_. Applied) after (limit + 1) s = Inr (take (nat (limit + 1)) ?ys)"
    by (rule GetFeedsPage_Inr) (use lim in auto)
  show ?case
  proof (cases "nat limit < length ?ys")
    case False
    then have "length ?ys \<le> nat (limit + 1)" "\<not> limit < int (length ?ys)" using lim by linarith+
    then show ?thesis unfolding all_pages.simps pg1 by (simp del: length_sort)
  next
    case True
    then have ne: "?ys \<noteq> []" by (metis less_nat_zero_code list.size(3))
    have n: "0 < nat limit" using lim by simp
    let ?page = "take (nat limit) ?ys"
    have pg: "?page \<noteq> []" using n ne by simp
    let ?next = "Some (f_id (last ?page))"
    have "last ?page \<in> set ?ys" using last_in_set [OF pg] by (meson in_set_takeD)
    then have above: "after < ?next" by simp
    have "filter (\<lambda>f. ?next < Some (f_id f)) (feeds s) = filter (\<lambda>f. f_id (last ?page) < f_id f) ?rows"
      using above by (auto intro!: filter_cong intro: less_trans)
    then have "sort_key f_id (filter (\<lambda>f. ?next < Some (f_id f)) (feeds s)) =
        filter (\<lambda>f. f_id (last ?page) < f_id f) ?ys"
      by (simp only: filter_sort)
    also have "\<dots> = drop (nat limit) ?ys"
      by (rule filter_after_page [OF _ ds n ne]) simp
    finally have rest: "sort_key f_id (filter (\<lambda>f. ?next < Some (f_id f)) (feeds s)) = drop (nat limit) ?ys" .
    have "length (drop (nat limit) ?ys) < length ?ys" using n ne by (cases ?ys) auto
    then have "length (filter (\<lambda>f. ?next < Some (f_id f)) (feeds s)) < fuel"
      unfolding rest [THEN arg_cong [of _ _ length], unfolded length_sort] using Suc.prems by simp
    then have IH: "all_pages fuel limit ?next s = Some (Inr (drop (nat limit) ?ys))"
      unfolding rest [symmetric] by (rule Suc.IH)
    have l: "limit < int (length (take (nat (limit + 1)) ?ys))" using True lim by (simp add: nat_add_distrib)
    have p: "take (nat limit) (take (nat (limit + 1)) ?ys) = ?page" using lim by (simp add: min_def)
    show ?thesis
      unfolding all_pages.simps pg1 sum.case Let_def p if_P [OF l] IH by simp
  qed
qed simp

end
