(* ===== verification/NotifStore.thy ===== *)
theory NotifStore
  imports NotifDB "HOL-Library.Product_Lexorder"
begin

text \<open>
  \<open>internal/notification/postgres/pipeline.go\<close>: the delivery state machine in the
  notification database. Every SQL statement is a function on the tables, every repository
  method the sequence of its statements in a transaction. Arguments that stand for the outside:
  \<open>oc\<close> the outcomes of the round trips (numbered in the order the method makes them),
  \<open>now\<close> the database clock, \<open>clock\<close> the clock of the Go process, \<open>locked\<close> the
  rows other transactions hold, \<open>fresh\<close> and \<open>tok\<close> the values of
  \<open>gen_random_uuid()\<close> for each new row.
\<close>

section \<open>Tasks and topics\<close>

record task =
  t_id :: uuid
  t_event :: uuid
  t_user :: uuid
  t_token :: uuid
  t_attempts :: int
  t_channel_type :: ChannelType
  t_message :: message

definition micros :: "instant \<Rightarrow> instant" where
  \<comment> \<open>a \<open>time.Time\<close> stored in a \<open>TIMESTAMPTZ\<close> column\<close>
  "micros t = t div 1000"

definition retryTopic :: "duration \<Rightarrow> string" where
  "retryTopic delay =
     (if sint delay \<le> Minute then Retry1mTopicV1
      else if sint delay \<le> 10 * Minute then Retry10mTopicV1
      else Retry1hTopicV1)"

definition dispatchPayload :: "lib \<Rightarrow> uuid \<Rightarrow> uuid \<Rightarrow> uuid \<Rightarrow> int \<Rightarrow> string \<Rightarrow> json" where
  "dispatchPayload L delivery event user attempts errorCode =
     JObj ([(''delivery_id'', JStr (uuid_text L delivery)),
            (''event_id'', JStr (uuid_text L event)),
            (''user_id'', JStr (uuid_text L user)),
            (''attempt_no'', JNum (Itoa attempts))] @
           (if errorCode = '''' then [] else [(''error_code'', JStr errorCode)]))"

section \<open>AcceptRequest\<close>

definition is_json_object :: "json \<Rightarrow> bool" where
  "is_json_object v = (case v of JObj _ \<Rightarrow> True | _ \<Rightarrow> False)"

definition insert_inbox :: "lib \<Rightarrow> instant \<Rightarrow> requested \<Rightarrow> string \<Rightarrow> ndb \<Rightarrow> goerr + nat \<times> ndb" where
  "insert_inbox L now event payload s =
     (case jsonb_in L payload of
        None \<Rightarrow> Inl invalid_json
      | Some j \<Rightarrow>
          if EventType event \<noteq> NotificationRequested \<or> SchemaVersion event \<noteq> 1 \<or>
             Template event \<noteq> TemplateNewPost \<or> \<not> is_json_object j
          then Inl (check_violation ''notification_inbox'')
          else if \<exists>r \<in> set (inbox s). in_event r = EventID event then Inr (0, s)
          else Inr (1, s\<lparr>inbox := inbox s @
            [\<lparr>in_event = EventID event, in_user = UserID event, in_type = EventType event,
              in_version = SchemaVersion event, in_template = Template event, in_payload = j,
              in_occurred = micros (OccurredAt event), in_received = now\<rparr>]\<rparr>))"

definition compare_inbox :: "lib \<Rightarrow> requested \<Rightarrow> string \<Rightarrow> ndb \<Rightarrow> goerr + bool" where
  "compare_inbox L event payload s =
     (case find (\<lambda>r. in_event r = EventID event) (inbox s) of
        None \<Rightarrow> Inl (sentinel_err PgxNoRows)
      | Some r \<Rightarrow> Inr (in_user r = UserID event \<and> Some (in_payload r) = jsonb_in L payload))"

definition new_delivery :: "instant \<Rightarrow> uuid \<Rightarrow> requested \<Rightarrow> channel_row \<Rightarrow> delivery_row" where
  "new_delivery now i event c =
     \<lparr>d_id = i, d_event = EventID event, d_user = UserID event, d_channel = ch_id c,
      d_status = StPending, d_attempts = 0, d_available = now, d_token = None, d_lease = None,
      d_sent_at = None, d_error = None, d_created = now, d_updated = now\<rparr>"

definition user_channels :: "uuid \<Rightarrow> ndb \<Rightarrow> channel_row list" where
  \<comment> \<open>\<open>WHERE user_id = $2 AND enabled = TRUE FOR SHARE\<close>\<close>
  "user_channels u s = filter (\<lambda>c. ch_user c = u \<and> ch_enabled c) (channels s)"

definition insert_deliveries :: "(uuid \<Rightarrow> uuid) \<Rightarrow> instant \<Rightarrow> requested \<Rightarrow> ndb \<Rightarrow> goerr + ndb" where
  "insert_deliveries fresh now event s =
     (let rows = map (\<lambda>c. new_delivery now (fresh (ch_id c)) event c)
           (filter (\<lambda>c. \<not> (\<exists>d \<in> set (deliveries s). d_event d = EventID event \<and> d_channel d = ch_id c))
             (user_channels (UserID event) s));
          ds = deliveries s @ rows
      in if distinct (map d_id ds) then Inr (s\<lparr>deliveries := ds\<rparr>)
         else Inl (unique_violation ''notification_deliveries_pkey''))"

definition AcceptRequest ::
  "lib \<Rightarrow> (nat \<Rightarrow> outcome) \<Rightarrow> (uuid \<Rightarrow> uuid) \<Rightarrow> instant \<Rightarrow> requested \<Rightarrow> string \<Rightarrow> ndb \<Rightarrow>
   (goerr + unit) \<times> ndb" where
  "AcceptRequest L oc fresh now event payload s =
     (case call (oc 0) (Inr ()) of
        Inl e \<Rightarrow> (Inl e, s)
      | Inr _ \<Rightarrow>
      case call (oc 1) (insert_inbox L now event payload s) of
        Inl e \<Rightarrow> (Inl (wrap_err ''insert notification inbox'' e), s)
      | Inr (n, s1) \<Rightarrow>
          if n = 0 then
            (case call (oc 2) (compare_inbox L event payload s1) of
               Inl e \<Rightarrow> (Inl (wrap_err ''compare duplicate notification event'' e), s)
             | Inr same \<Rightarrow>
                 if \<not> same then (Inl (sentinel_err ErrIdentityConflict), s)
                 else commit (oc 3) () s s1)
          else
            (case call (oc 2) (insert_deliveries fresh now event s1) of
               Inl e \<Rightarrow> (Inl (wrap_err ''create notification deliveries'' e), s)
             | Inr s2 \<Rightarrow> commit (oc 3) () s s2))"

section \<open>ResumeRetry\<close>

definition active_channel :: "ndb \<Rightarrow> delivery_row \<Rightarrow> bool" where
  "active_channel s d \<longleftrightarrow>
     (\<exists>c \<in> set (channels s). ch_id c = d_channel d \<and> ch_user c = d_user d \<and> ch_enabled c)"

definition resumable :: "ndb \<Rightarrow> retry_event \<Rightarrow> delivery_row \<Rightarrow> bool" where
  "resumable s event d \<longleftrightarrow>
     d_id d = r_DeliveryID event \<and> d_event d = r_EventID event \<and> d_user d = r_UserID event \<and>
     d_attempts d = r_AttemptNo event \<and> d_status d = StRetryWait \<and> active_channel s d"

definition resume_row :: "instant \<Rightarrow> delivery_row \<Rightarrow> delivery_row" where
  "resume_row now d = d\<lparr>d_status := StPending, d_available := now, d_updated := now\<rparr>"

definition ResumeRetry :: "outcome \<Rightarrow> instant \<Rightarrow> retry_event \<Rightarrow> ndb \<Rightarrow> (goerr + unit) \<times> ndb" where
  "ResumeRetry oc now event s =
     autocommit oc
       (\<lambda>s. Inr ((), s\<lparr>deliveries := upd (resumable s event) (resume_row now) (deliveries s)\<rparr>)) s"

section \<open>Claim\<close>

definition claimable :: "instant \<Rightarrow> string list \<Rightarrow> ndb \<Rightarrow> delivery_row \<Rightarrow> bool" where
  "claimable now channelTypes s d \<longleftrightarrow>
     d_status d = StPending \<and> d_available d \<le> now \<and>
     (\<exists>c \<in> set (channels s). ch_id c = d_channel d \<and> ch_user c = d_user d \<and> ch_enabled c \<and>
        ch_type c \<in> set channelTypes)"

definition selected :: "instant \<Rightarrow> nat \<Rightarrow> (uuid \<Rightarrow> bool) \<Rightarrow> string list \<Rightarrow> ndb \<Rightarrow> delivery_row list" where
  "selected now limit locked channelTypes s =
     select_for_update (\<lambda>d. (d_available d, d_created d, d_id d)) limit
       (\<lambda>d. locked (d_id d) \<or> locked (d_channel d)) (claimable now channelTypes s) (deliveries s)"

definition Milliseconds :: "duration \<Rightarrow> int" where
  "Milliseconds d = sint (dur_div d Millisecond)"

definition claim_row :: "instant \<Rightarrow> duration \<Rightarrow> (uuid \<Rightarrow> uuid) \<Rightarrow> delivery_row \<Rightarrow> delivery_row" where
  "claim_row now lease tok d =
     d\<lparr>d_status := StProcessing, d_attempts := d_attempts d + 1, d_token := Some (tok (d_id d)),
       d_lease := Some (now + Milliseconds lease * 1000), d_updated := now\<rparr>"

definition claim_stmt ::
  "instant \<Rightarrow> nat \<Rightarrow> duration \<Rightarrow> (uuid \<Rightarrow> bool) \<Rightarrow> (uuid \<Rightarrow> uuid) \<Rightarrow> string list \<Rightarrow> ndb \<Rightarrow>
   (delivery_row \<times> channel_row \<times> inbox_row) list \<times> ndb" where
  "claim_stmt now limit lease locked tok channelTypes s =
     (let ids = map d_id (selected now limit locked channelTypes s);
          ds = upd (\<lambda>d. d_id d \<in> set ids) (claim_row now lease tok) (deliveries s)
      in ([(d, c, i). d \<leftarrow> ds, d_id d \<in> set ids, c \<leftarrow> channels s, ch_id c = d_channel d,
             i \<leftarrow> inbox s, in_event i = d_event d],
          s\<lparr>deliveries := ds\<rparr>))"

definition task_of_row :: "lib \<Rightarrow> delivery_row \<times> channel_row \<times> inbox_row \<Rightarrow> goerr + task" where
  "task_of_row L row =
     (let (d, c, i) = row in
      case Option.bind (json_unmarshal L (jsonb_text L (in_payload i))) (requested_of_json L) of
        None \<Rightarrow> Inl (plain_err ''decode inbox event'')
      | Some event \<Rightarrow>
          Inr \<lparr>t_id = d_id d, t_event = d_event d, t_user = d_user d, t_token = the (d_token d),
               t_attempts = d_attempts d, t_channel_type = ch_type c,
               t_message = \<lparr>Recipient = ch_destination c, Title = DataTitle (Data event),
                 Body = DataBody (Data event), URL = DataURL (Data event)\<rparr>\<rparr>)"

fun scan_tasks :: "lib \<Rightarrow> (delivery_row \<times> channel_row \<times> inbox_row) list \<Rightarrow> goerr + task list" where
  "scan_tasks L [] = Inr []"
| "scan_tasks L (row # rows) =
     (case task_of_row L row of
        Inl e \<Rightarrow> Inl e
      | Inr t \<Rightarrow> (case scan_tasks L rows of Inl e \<Rightarrow> Inl e | Inr ts \<Rightarrow> Inr (t # ts)))"

text \<open>
  The rows are streamed: an error can come with the query (\<open>brk\<close> is \<open>None\<close>), or after
  some rows have been read (\<open>Some k\<close>); \<open>rows.Err\<close> is then returned beside the tasks
  read so far.
\<close>

definition scan_rows :: "lib \<Rightarrow> (delivery_row \<times> channel_row \<times> inbox_row) list \<Rightarrow> goerr option \<Rightarrow>
    task list \<times> goerr option" where
  "scan_rows L rows rows_err =
     (case scan_tasks L rows of Inl e \<Rightarrow> ([], Some e) | Inr tasks \<Rightarrow> (tasks, rows_err))"

definition broken_rows :: "lib \<Rightarrow> nat option \<Rightarrow> goerr \<Rightarrow>
    (delivery_row \<times> channel_row \<times> inbox_row) list \<Rightarrow> task list \<times> goerr option" where
  "broken_rows L brk e rows =
     (case brk of
        None \<Rightarrow> ([], Some (wrap_err ''claim deliveries'' e))
      | Some k \<Rightarrow> scan_rows L (take k rows) (Some e))"

definition Claim ::
  "lib \<Rightarrow> outcome \<Rightarrow> nat option \<Rightarrow> instant \<Rightarrow> (uuid \<Rightarrow> bool) \<Rightarrow> (uuid \<Rightarrow> uuid) \<Rightarrow> int \<Rightarrow> duration \<Rightarrow>
   string list \<Rightarrow> ndb \<Rightarrow> (task list \<times> goerr option) \<times> ndb" where
  "Claim L oc brk now locked tok limit lease channelTypes s =
     (if limit \<le> 0 \<or> sint lease \<le> 0
      then (([], Some (plain_err ''invalid claim limit or lease'')), s)
      else
        let (rows, s1) = claim_stmt now (nat limit) lease locked tok channelTypes s in
        case oc of
          Applied \<Rightarrow> (scan_rows L rows None, s1)
        | Refused e \<Rightarrow> (broken_rows L brk e rows, s)
        | Lost e \<Rightarrow> (broken_rows L brk e rows, s1))"

section \<open>MarkSent\<close>

definition holds_claim :: "task \<Rightarrow> delivery_row \<Rightarrow> bool" where
  \<comment> \<open>\<open>WHERE id = $1 AND claim_token = $2 AND status = 'processing'\<close>\<close>
  "holds_claim t d \<longleftrightarrow>
     d_id d = t_id t \<and> d_token d = Some (t_token t) \<and> d_status d = StProcessing"

definition sent_row :: "instant \<Rightarrow> delivery_row \<Rightarrow> delivery_row" where
  "sent_row now d =
     d\<lparr>d_status := StSent, d_sent_at := Some now, d_token := None, d_lease := None,
       d_error := None, d_updated := now\<rparr>"

definition MarkSent :: "outcome \<Rightarrow> instant \<Rightarrow> task \<Rightarrow> ndb \<Rightarrow> (goerr + unit) \<times> ndb" where
  "MarkSent oc now t s =
     (case autocommit oc
        (\<lambda>s. Inr (affected (holds_claim t) (deliveries s),
                  s\<lparr>deliveries := upd (holds_claim t) (sent_row now) (deliveries s)\<rparr>)) s of
        (Inl e, s') \<Rightarrow> (Inl e, s')
      | (Inr n, s') \<Rightarrow> (if n \<noteq> 1 then Inl (sentinel_err ErrStaleClaim) else Inr (), s'))"

section \<open>MarkFailed\<close>

definition channelActive :: "uuid \<Rightarrow> ndb \<Rightarrow> bool" where
  "channelActive deliveryID s =
     (case [c. d \<leftarrow> deliveries s, d_id d = deliveryID, c \<leftarrow> channels s,
             ch_id c = d_channel d \<and> ch_user c = d_user d] of
        [] \<Rightarrow> False
      | c # _ \<Rightarrow> ch_enabled c)"

definition release_row :: "instant \<Rightarrow> status \<Rightarrow> string \<Rightarrow> delivery_row \<Rightarrow> delivery_row" where
  "release_row now st code d =
     d\<lparr>d_status := st, d_token := None, d_lease := None, d_error := Some code, d_updated := now\<rparr>"

definition insert_dispatch ::
  "instant \<Rightarrow> uuid \<Rightarrow> uuid \<Rightarrow> uuid \<Rightarrow> int \<Rightarrow> string \<Rightarrow> string \<Rightarrow> json option \<Rightarrow> instant \<Rightarrow>
   ndb \<Rightarrow> goerr + ndb" where
  "insert_dispatch now i delivery user attempt kind topic payload available s =
     (case payload of
        None \<Rightarrow> Inl invalid_json
      | Some j \<Rightarrow>
          if attempt \<le> 0 \<or> \<not> is_json_object j
          then Inl (check_violation ''notification_dispatch_outbox'')
          else if \<exists>r \<in> set (dispatch s). o_delivery r = delivery \<and> o_kind r = kind \<and> o_attempt r = attempt
          then Inr s
          else if \<exists>r \<in> set (dispatch s). o_id r = i
          then Inl (unique_violation ''notification_dispatch_outbox_pkey'')
          else if \<not> (\<exists>d \<in> set (deliveries s). d_id d = delivery \<and> d_user d = user)
          then Inl (foreign_key_violation ''notification_dispatch_outbox_delivery_user_fkey'')
          else Inr (s\<lparr>dispatch := dispatch s @
            [\<lparr>o_id = i, o_delivery = delivery, o_user = user, o_attempt = attempt, o_kind = kind,
              o_topic = topic, o_payload = j, o_available = available, o_published = None,
              o_publish_attempts = 0, o_created = now\<rparr>]\<rparr>))"

definition MarkFailed ::
  "lib \<Rightarrow> (nat \<Rightarrow> outcome) \<Rightarrow> instant \<Rightarrow> instant \<Rightarrow> uuid \<Rightarrow> task \<Rightarrow> duration \<Rightarrow> string \<Rightarrow> ndb \<Rightarrow>
   (goerr + unit) \<times> ndb" where
  "MarkFailed L oc now clock fresh t delay code s =
     (let errorCode = (if 100 < length code then ''provider_error'' else code) in
      case call (oc 0) (Inr ()) of
        Inl e \<Rightarrow> (Inl e, s)
      | Inr _ \<Rightarrow>
      case call (oc 1) (Inr (channelActive (t_id t) s)) of
        Inl e \<Rightarrow> (Inl e, s)
      | Inr active \<Rightarrow>
          if \<not> active then
            (case call (oc 2) (Inr (affected (holds_claim t) (deliveries s),
                 s\<lparr>deliveries := upd (holds_claim t) (release_row now StCancelled ''channel_disabled'')
                    (deliveries s)\<rparr>)) of
               Inl e \<Rightarrow> (Inl e, s)
             | Inr (n, s1) \<Rightarrow>
                 if n \<noteq> 1 then (Inl (sentinel_err ErrStaleClaim), s)
                 else commit (oc 3) () s s1)
          else
            let (st, kind, topic, availableAt) =
                  (if 0 < sint delay
                   then (StRetryWait, ''retry'', retryTopic delay, clock + sint delay)
                   else (StFailed, ''dlq'', DLQTopicV1, clock))
            in
            (case call (oc 2) (Inr (affected (holds_claim t) (deliveries s),
                 s\<lparr>deliveries := upd (holds_claim t) (release_row now st errorCode)
                    (deliveries s)\<rparr>)) of
               Inl e \<Rightarrow> (Inl e, s)
             | Inr (n, s1) \<Rightarrow>
                 if n \<noteq> 1 then (Inl (sentinel_err ErrStaleClaim), s)
                 else
                   (case call (oc 3) (insert_dispatch now fresh (t_id t) (t_user t) (t_attempts t)
                        kind topic
                        (jsonb_in L (json_text L
                           (dispatchPayload L (t_id t) (t_event t) (t_user t) (t_attempts t) errorCode)))
                        (micros availableAt) s1) of
                      Inl e \<Rightarrow> (Inl (wrap_err ''insert dispatch outbox'' e), s)
                    | Inr s2 \<Rightarrow> commit (oc 4) () s s2)))"

section \<open>RecoverExpired\<close>

definition expired :: "instant \<Rightarrow> delivery_row \<Rightarrow> bool" where
  "expired now d \<longleftrightarrow>
     d_status d = StProcessing \<and> (case d_lease d of None \<Rightarrow> False | Some l \<Rightarrow> l < now)"

definition recover_row :: "instant \<Rightarrow> status \<Rightarrow> string \<Rightarrow> delivery_row \<Rightarrow> delivery_row" where
  "recover_row now st code d = (release_row now st code d)\<lparr>d_available := now\<rparr>"

text \<open>The loop over the expired deliveries; \<open>k\<close> counts the round trips.\<close>

fun recover_loop ::
  "lib \<Rightarrow> (nat \<Rightarrow> outcome) \<Rightarrow> nat \<Rightarrow> (uuid \<Rightarrow> uuid) \<Rightarrow> instant \<Rightarrow> int \<Rightarrow> delivery_row list \<Rightarrow> ndb \<Rightarrow>
   goerr + nat \<times> ndb" where
  "recover_loop L oc k fresh now maxAttempts [] s = Inr (k, s)"
| "recover_loop L oc k fresh now maxAttempts (d # ds) s =
     (case call (oc k) (Inr (channelActive (d_id d) s)) of
        Inl e \<Rightarrow> Inl e
      | Inr active \<Rightarrow>
          let st = (if \<not> active then StCancelled
                    else if maxAttempts \<le> d_attempts d then StFailed else StPending);
              errorCode = (if \<not> active then ''channel_disabled'' else ''lease_expired'')
          in
          case call (oc (k + 1)) (Inr (s\<lparr>deliveries :=
                 upd (\<lambda>r. d_id r = d_id d) (recover_row now st errorCode) (deliveries s)\<rparr>)) of
            Inl e \<Rightarrow> Inl e
          | Inr s1 \<Rightarrow>
              if st = StFailed then
                (case call (oc (k + 2)) (insert_dispatch now (fresh (d_id d)) (d_id d) (d_user d)
                     (d_attempts d) ''dlq'' DLQTopicV1
                     (jsonb_in L (json_text L
                        (dispatchPayload L (d_id d) (d_event d) (d_user d) (d_attempts d)
                          ''lease_expired''))) now s1) of
                   Inl e \<Rightarrow> Inl e
                 | Inr s2 \<Rightarrow> recover_loop L oc (k + 3) fresh now maxAttempts ds s2)
              else recover_loop L oc (k + 2) fresh now maxAttempts ds s1)"

definition RecoverExpired ::
  "lib \<Rightarrow> (nat \<Rightarrow> outcome) \<Rightarrow> instant \<Rightarrow> (uuid \<Rightarrow> bool) \<Rightarrow> (uuid \<Rightarrow> uuid) \<Rightarrow> int \<Rightarrow> int \<Rightarrow> ndb \<Rightarrow>
   (goerr + nat) \<times> ndb" where
  "RecoverExpired L oc now locked fresh limit maxAttempts s =
     (if limit \<le> 0 \<or> maxAttempts \<le> 0 then
        (Inl (plain_err ''invalid recovery limit or max attempts''), s)
      else
        case call (oc 0) (Inr ()) of
          Inl e \<Rightarrow> (Inl e, s)
        | Inr _ \<Rightarrow>
        case call (oc 1) (Inr (select_for_update (\<lambda>d. (the (d_lease d), d_id d)) (nat limit)
               (\<lambda>d. locked (d_id d)) (expired now) (deliveries s))) of
          Inl e \<Rightarrow> (Inl e, s)
        | Inr tasks \<Rightarrow>
            (case recover_loop L oc 2 fresh now maxAttempts tasks s of
               Inl e \<Rightarrow> (Inl e, s)
             | Inr (k, s') \<Rightarrow> commit (oc k) (length tasks) s s'))"

end
