(* ===== verification/NotifInv.thy ===== *)
theory NotifInv
  imports NotifStore
begin

text \<open>
  The invariant of the delivery state machine and its preservation by every method of
  \<open>postgres/pipeline.go\<close>. Beyond the constraints of the schema it says, for a bound
  \<open>M\<close> on the attempts (8 in the service):

  \<^item> a delivery that waits, for a worker or for its retry, has an enabled channel of its user;
  \<^item> no delivery has more than \<open>M\<close> attempts, a waiting one has fewer;
  \<^item> a delivery that waits for a retry has the retry message in the dispatch outbox, a failed
    one its dead letter, each for exactly the current attempt and with the payload that
    identifies the delivery;
  \<^item> a delivery being processed has no message for the current attempt yet, so that
    \<open>ON CONFLICT DO NOTHING\<close> never drops one.
\<close>

section \<open>The invariant\<close>

definition active_in :: "channel_row list \<Rightarrow> delivery_row \<Rightarrow> bool" where
  "active_in cs d \<longleftrightarrow>
     (\<exists>c \<in> set cs. ch_id c = d_channel d \<and> ch_user c = d_user d \<and> ch_enabled c)"

definition announces :: "lib \<Rightarrow> delivery_row \<Rightarrow> string \<Rightarrow> dispatch_row \<Rightarrow> bool" where
  "announces L d kind r \<longleftrightarrow>
     o_delivery r = d_id d \<and> o_user r = d_user d \<and> o_kind r = kind \<and> o_attempt r = d_attempts d \<and>
     (\<exists>code. jsonb_in L (json_text L
        (dispatchPayload L (d_id d) (d_event d) (d_user d) (d_attempts d) code)) = Some (o_payload r))"

definition delivery_ok ::
  "lib \<Rightarrow> int \<Rightarrow> channel_row list \<Rightarrow> dispatch_row list \<Rightarrow> delivery_row \<Rightarrow> bool" where
  "delivery_ok L M cs os d \<longleftrightarrow>
     (d_status d = StPending \<or> d_status d = StRetryWait \<longrightarrow> active_in cs d \<and> d_attempts d < M) \<and>
     (d_status d = StProcessing \<or> d_status d = StRetryWait \<longrightarrow> 0 < d_attempts d) \<and>
     d_attempts d \<le> M \<and>
     (d_status d = StRetryWait \<longrightarrow> (\<exists>r \<in> set os. announces L d ''retry'' r)) \<and>
     (d_status d = StFailed \<longrightarrow> (\<exists>r \<in> set os. announces L d ''dlq'' r)) \<and>
     (\<forall>r \<in> set os. o_delivery r = d_id d \<longrightarrow> o_attempt r \<le> d_attempts d) \<and>
     (d_status d = StProcessing \<longrightarrow> (\<forall>r \<in> set os. o_delivery r = d_id d \<longrightarrow> o_attempt r < d_attempts d))"

definition pipeline_inv :: "lib \<Rightarrow> int \<Rightarrow> ndb \<Rightarrow> bool" where
  "pipeline_inv L M s \<longleftrightarrow>
     schema_ok s \<and> (\<forall>d \<in> set (deliveries s). delivery_ok L M (channels s) (dispatch s) d)"

lemma pipeline_inv_schema: "pipeline_inv L M s \<Longrightarrow> schema_ok s"
  by (simp add: pipeline_inv_def)

lemma pipeline_inv_delivery:
  "pipeline_inv L M s \<Longrightarrow> d \<in> set (deliveries s) \<Longrightarrow> delivery_ok L M (channels s) (dispatch s) d"
  by (simp add: pipeline_inv_def)

lemma pipeline_inv_empty: "pipeline_inv L M empty_ndb"
  by (simp add: pipeline_inv_def schema_ok_empty) (simp add: empty_ndb_def)

lemma active_channel_in: "active_channel s d \<longleftrightarrow> active_in (channels s) d"
  by (simp add: active_channel_def active_in_def)

lemma row_by_id:
  assumes "schema_ok s" "d \<in> set (deliveries s)" "d' \<in> set (deliveries s)" "d_id d = d_id d'"
  shows "d = d'"
  using unique_row [OF schema_d_id [OF assms(1)] assms(2-4)] .

lemma channel_by_id:
  assumes "schema_ok s" "c \<in> set (channels s)" "c' \<in> set (channels s)" "ch_id c = ch_id c'"
  shows "c = c'"
  using assms by (intro unique_row [of ch_id "channels s"]) (auto simp: schema_ok_def)

text \<open>The query of \<open>channelActive\<close> finds at most one row.\<close>

lemma channelActive_iff:
  assumes s: "schema_ok s" and d: "d \<in> set (deliveries s)"
  shows "channelActive (d_id d) s \<longleftrightarrow> active_in (channels s) d"
proof -
  let ?cs = "[c. d' \<leftarrow> deliveries s, d_id d' = d_id d, c \<leftarrow> channels s,
             ch_id c = d_channel d' \<and> ch_user c = d_user d']"
  have mem: "c \<in> set ?cs \<longleftrightarrow> c \<in> set (channels s) \<and> ch_id c = d_channel d \<and> ch_user c = d_user d" for c
  proof -
    have u: "x = d" if "d_id x = d_id d" "x \<in> set (deliveries s)" for x
      using row_by_id [OF s that(2) d that(1)] .
    show ?thesis using d by (auto dest!: u)
  qed
  have ca: "channelActive (d_id d) s = (case ?cs of [] \<Rightarrow> False | c # _ \<Rightarrow> ch_enabled c)"
    by (rule channelActive_def)
  show ?thesis
  proof (cases ?cs)
    case Nil
    then have "\<not> (\<exists>c. c \<in> set ?cs)" by (metis empty_iff empty_set)
    then have "\<not> active_in (channels s) d" unfolding mem active_in_def by blast
    moreover have "\<not> channelActive (d_id d) s" unfolding ca Nil by simp
    ultimately show ?thesis by simp
  next
    case (Cons c rest)
    then have c: "c \<in> set ?cs" by (metis list.set_intros(1))
    have "active_in (channels s) d \<longleftrightarrow> ch_enabled c"
      using c channel_by_id [OF s] unfolding mem active_in_def by metis
    moreover have "channelActive (d_id d) s \<longleftrightarrow> ch_enabled c" unfolding ca Cons by simp
    ultimately show ?thesis by simp
  qed
qed

section \<open>Updates of deliveries\<close>

lemma pipeline_inv_upd:
  assumes inv: "pipeline_inv L M s"
    and f: "\<And>d. P d \<Longrightarrow> same_delivery d (f d)"
    and c: "\<And>d. d \<in> set (deliveries s) \<Longrightarrow> P d \<Longrightarrow>
      0 \<le> d_attempts (f d) \<and> lease_check (f d) \<and> sent_check (f d) \<and>
      delivery_ok L M (channels s) (dispatch s) (f d)"
  shows "pipeline_inv L M (s\<lparr>deliveries := upd P f (deliveries s)\<rparr>)"
proof -
  have "schema_ok (s\<lparr>deliveries := upd P f (deliveries s)\<rparr>)"
    using inv f c by (intro schema_ok_upd_deliveries) (auto simp: pipeline_inv_def)
  then show ?thesis
    using inv c by (auto simp: pipeline_inv_def set_upd)
qed

lemmas row_defs = resume_row_def claim_row_def sent_row_def release_row_def recover_row_def
lemmas check_defs = lease_check_def sent_check_def same_delivery_def

lemma delivery_ok_frame:
  assumes "delivery_ok L M cs os d"
    and "d_id d' = d_id d" "d_event d' = d_event d" "d_user d' = d_user d" "d_channel d' = d_channel d"
      "d_attempts d' = d_attempts d"
    and "d_status d' = StSent \<or> d_status d' = StCancelled \<or>
      (d_status d' = StPending \<and> active_in cs d \<and> d_attempts d < M)"
  shows "delivery_ok L M cs os d'"
  using assms(7) assms(1-6) by (elim disjE) (simp_all add: delivery_ok_def active_in_def)

subsection \<open>AcceptRequest\<close>

definition inbox_entry :: "instant \<Rightarrow> requested \<Rightarrow> json \<Rightarrow> inbox_row" where
  "inbox_entry now event j =
     \<lparr>in_event = EventID event, in_user = UserID event, in_type = EventType event,
      in_version = SchemaVersion event, in_template = Template event, in_payload = j,
      in_occurred = micros (OccurredAt event), in_received = now\<rparr>"

lemma insert_inbox_Inr:
  "insert_inbox L now event payload s = Inr (n, s1) \<Longrightarrow>
   (n = 0 \<and> s1 = s \<and> (\<exists>r \<in> set (inbox s). in_event r = EventID event)) \<or>
   (n = 1 \<and> (\<forall>r \<in> set (inbox s). in_event r \<noteq> EventID event) \<and>
    (\<exists>j. jsonb_in L payload = Some j \<and> s1 = s\<lparr>inbox := inbox s @ [inbox_entry now event j]\<rparr>))"
  unfolding insert_inbox_def inbox_entry_def
  by (cases "jsonb_in L payload") (simp_all split: if_splits)

lemma insert_deliveries_Inr:
  assumes "insert_deliveries fresh now event s = Inr s'"
  shows "\<exists>rows. s' = s\<lparr>deliveries := deliveries s @ rows\<rparr> \<and> distinct (map d_id (deliveries s @ rows)) \<and>
    rows = map (\<lambda>c. new_delivery now (fresh (ch_id c)) event c)
           (filter (\<lambda>c. \<not> (\<exists>d \<in> set (deliveries s). d_event d = EventID event \<and> d_channel d = ch_id c))
             (user_channels (UserID event) s))"
  using assms by (auto simp: insert_deliveries_def Let_def split: if_splits)

lemma AcceptRequest_state:
  assumes "AcceptRequest L oc fresh now event payload s = (r, s')"
  shows "s' = s \<or> (\<exists>s1. insert_inbox L now event payload s = Inr (1, s1) \<and>
           insert_deliveries fresh now event s1 = Inr s')"
proof (rule ccontr)
  assume *: "\<not> ?thesis"
  then have ne: "s' \<noteq> s" by blast
  with assms obtain n s1 where ins: "insert_inbox L now event payload s = Inr (n, s1)"
    by (auto simp: AcceptRequest_def split: sum.splits prod.splits)
  show False
  proof (cases "n = 0")
    case True
    then have "s1 = s" using insert_inbox_Inr [OF ins] by simp
    then show False
      using assms ne True ins
      by (auto simp: AcceptRequest_def split: sum.splits if_splits dest!: commit_stateD)
  next
    case False
    then have "n = 1" using insert_inbox_Inr [OF ins] by simp
    then show False
      using assms ne ins *
      by (auto simp: AcceptRequest_def split: sum.splits dest!: commit_stateD)
  qed
qed

lemma delivery_ok_new_row:
  assumes s: "schema_ok s" and i: "d_id d \<notin> d_id ` set (deliveries s)"
    and d: "d_status d = StPending" "d_attempts d = 0" "active_in (channels s) d" and M: "0 < M"
  shows "delivery_ok L M (channels s) (dispatch s) d"
proof -
  have "\<not> (\<exists>r \<in> set (dispatch s). o_delivery r = d_id d)"
    using s i unfolding schema_ok_def by (metis imageI)
  then show ?thesis using d M by (simp add: delivery_ok_def)
qed

lemma schema_ok_accept:
  assumes s: "schema_ok s" and new: "\<forall>r \<in> set (inbox s). in_event r \<noteq> EventID event"
    and ids: "distinct (map d_id (deliveries s @ rows))"
    and rows: "rows = map (\<lambda>c. new_delivery now (fresh (ch_id c)) event c) cs"
    and cs: "distinct (map ch_id cs)"
  shows "schema_ok (s\<lparr>inbox := inbox s @ [inbox_entry now event j], deliveries := deliveries s @ rows\<rparr>)"
proof -
  have ev: "\<forall>d \<in> set rows. d_event d = EventID event \<and> d_user d = UserID event \<and> d_attempts d = 0 \<and>
      lease_check d \<and> sent_check d"
    by (auto simp: rows new_delivery_def check_defs)
  have old: "\<forall>d \<in> set (deliveries s). d_event d \<noteq> EventID event"
    using s new unfolding schema_ok_def by metis
  have key: "map (\<lambda>d. (d_event d, d_channel d)) rows = map (\<lambda>c. (EventID event, ch_id c)) cs"
    by (simp add: rows new_delivery_def)
  have "distinct (map (\<lambda>d. (d_event d, d_channel d)) rows)"
    unfolding key using cs by (simp add: distinct_map inj_on_def)
  then have pairs: "distinct (map (\<lambda>d. (d_event d, d_channel d)) (deliveries s @ rows))"
    using s ev old by (auto simp: schema_ok_def)
  have inb: "distinct (map in_event (inbox s @ [inbox_entry now event j]))"
    using s new by (auto simp: schema_ok_def inbox_entry_def)
  have fk: "\<forall>d \<in> set (deliveries s @ rows). 0 \<le> d_attempts d \<and> lease_check d \<and> sent_check d \<and>
      (\<exists>i \<in> set (inbox s @ [inbox_entry now event j]). in_event i = d_event d \<and> in_user i = d_user d)"
    using s ev by (auto simp: schema_ok_def inbox_entry_def)
  have ofk: "\<forall>r \<in> set (dispatch s). \<exists>d \<in> set (deliveries s @ rows). d_id d = o_delivery r \<and> d_user d = o_user r"
    using s unfolding schema_ok_def by (metis Un_iff set_append)
  show ?thesis
    using s ids pairs inb fk ofk unfolding schema_ok_def by simp
qed

lemma AcceptRequest_inv:
  assumes inv: "pipeline_inv L M s" and M: "0 < M"
    and res: "AcceptRequest L oc fresh now event payload s = (r, s')"
  shows "pipeline_inv L M s'"
proof -
  note sch = pipeline_inv_schema [OF inv]
  from AcceptRequest_state [OF res] show ?thesis
  proof
    assume "s' = s"
    then show ?thesis using inv by simp
  next
    assume "\<exists>s1. insert_inbox L now event payload s = Inr (1, s1) \<and>
           insert_deliveries fresh now event s1 = Inr s'"
    then obtain s1 where s1: "insert_inbox L now event payload s = Inr (1, s1)"
      and s2: "insert_deliveries fresh now event s1 = Inr s'" by blast
    obtain j where new: "\<forall>r \<in> set (inbox s). in_event r \<noteq> EventID event"
      and j: "s1 = s\<lparr>inbox := inbox s @ [inbox_entry now event j]\<rparr>"
      using insert_inbox_Inr [OF s1] by auto
    define cs where "cs = filter (\<lambda>c. \<not> (\<exists>d \<in> set (deliveries s). d_event d = EventID event \<and>
      d_channel d = ch_id c)) (filter (\<lambda>c. ch_user c = UserID event \<and> ch_enabled c) (channels s))"
    define rows where "rows = map (\<lambda>c. new_delivery now (fresh (ch_id c)) event c) cs"
    have s': "s' = s\<lparr>inbox := inbox s @ [inbox_entry now event j], deliveries := deliveries s @ rows\<rparr>"
      and ids: "distinct (map d_id (deliveries s @ rows))"
      using insert_deliveries_Inr [OF s2] by (auto simp: j rows_def cs_def user_channels_def)
    have cs: "distinct (map ch_id cs)"
      using sch by (auto simp: cs_def schema_ok_def distinct_map inj_on_def)
    have sch': "schema_ok s'"
      unfolding s' by (rule schema_ok_accept [OF sch new ids rows_def cs])
    have "delivery_ok L M (channels s) (dispatch s) d" if "d \<in> set rows" for d
    proof (rule delivery_ok_new_row [OF sch _ _ _ _ M])
      show "d_id d \<notin> d_id ` set (deliveries s)" using ids that by auto
      show "d_status d = StPending" "d_attempts d = 0" "active_in (channels s) d"
        using that by (auto simp: rows_def new_delivery_def cs_def active_in_def)
    qed
    then show ?thesis using inv sch' by (auto simp: pipeline_inv_def s')
  qed
qed

subsection \<open>ResumeRetry, Claim and MarkSent\<close>

lemma ResumeRetry_state:
  assumes "ResumeRetry oc now event s = (r, s')"
  shows "s' = s \<or> s' = s\<lparr>deliveries := upd (resumable s event) (resume_row now) (deliveries s)\<rparr>"
  using assms autocommit_state [of oc _ s] unfolding ResumeRetry_def by (metis (no_types, lifting) Inr_inject prod.inject snd_conv)

lemma ResumeRetry_inv:
  assumes inv: "pipeline_inv L M s" and res: "ResumeRetry oc now event s = (r, s')"
  shows "pipeline_inv L M s'"
proof -
  have "pipeline_inv L M (s\<lparr>deliveries := upd (resumable s event) (resume_row now) (deliveries s)\<rparr>)"
  proof (rule pipeline_inv_upd [OF inv])
    fix d assume d: "d \<in> set (deliveries s)" "resumable s event d"
    have ok: "delivery_ok L M (channels s) (dispatch s) d" by (rule pipeline_inv_delivery [OF inv d(1)])
    moreover from this have "active_in (channels s) d" "d_attempts d < M"
      using d(2) by (auto simp: delivery_ok_def resumable_def)
    ultimately have "delivery_ok L M (channels s) (dispatch s) (resume_row now d)"
      by (intro delivery_ok_frame [OF ok]) (simp_all add: resume_row_def)
    then show "0 \<le> d_attempts (resume_row now d) \<and> lease_check (resume_row now d) \<and>
      sent_check (resume_row now d) \<and> delivery_ok L M (channels s) (dispatch s) (resume_row now d)"
      using schema_delivery [OF pipeline_inv_schema [OF inv] d(1)] d(2)
      by (simp add: resume_row_def check_defs resumable_def)
  qed (simp add: resume_row_def same_delivery_def)
  then show ?thesis using ResumeRetry_state [OF res] inv by auto
qed

definition claimed_state ::
  "instant \<Rightarrow> nat \<Rightarrow> duration \<Rightarrow> (uuid \<Rightarrow> bool) \<Rightarrow> (uuid \<Rightarrow> uuid) \<Rightarrow> string list \<Rightarrow> ndb \<Rightarrow> ndb" where
  "claimed_state now limit lease locked tok types s =
     s\<lparr>deliveries := upd (\<lambda>d. d_id d \<in> d_id ` set (selected now limit locked types s))
         (claim_row now lease tok) (deliveries s)\<rparr>"

lemma Claim_state:
  assumes "Claim L oc brk now locked tok limit lease types s = (r, s')"
  shows "s' = s \<or> s' = claimed_state now (nat limit) lease locked tok types s"
  using assms
  by (auto simp: Claim_def claim_stmt_def claimed_state_def Let_def split: outcome.splits if_splits)

lemma selected_rows:
  assumes "schema_ok s" "d \<in> set (deliveries s)" "d_id d \<in> d_id ` set (selected now limit locked types s)"
  shows "claimable now types s d" "\<not> locked (d_id d)" "\<not> locked (d_channel d)"
    "d \<in> set (selected now limit locked types s)"
proof -
  obtain d' where d': "d' \<in> set (selected now limit locked types s)" "d_id d = d_id d'"
    using assms(3) by auto
  then have "d' \<in> set (deliveries s)" by (auto simp: selected_def dest: set_select_for_update)
  then have "d = d'" by (rule row_by_id [OF assms(1,2) _ d'(2)])
  then show "claimable now types s d" "\<not> locked (d_id d)" "\<not> locked (d_channel d)"
    "d \<in> set (selected now limit locked types s)"
    using d'(1) by (auto simp: selected_def dest!: set_select_for_update)
qed

lemma claimed_state_inv:
  assumes inv: "pipeline_inv L M s"
  shows "pipeline_inv L M (claimed_state now limit lease locked tok types s)"
  unfolding claimed_state_def
proof (rule pipeline_inv_upd [OF inv])
  fix d assume d: "d \<in> set (deliveries s)"
    "d_id d \<in> d_id ` set (selected now limit locked types s)"
  note sch = pipeline_inv_schema [OF inv]
  have "d_status d = StPending"
    using selected_rows(1) [OF sch d] by (simp add: claimable_def)
  then show "0 \<le> d_attempts (claim_row now lease tok d) \<and> lease_check (claim_row now lease tok d) \<and>
      sent_check (claim_row now lease tok d) \<and>
      delivery_ok L M (channels s) (dispatch s) (claim_row now lease tok d)"
    using pipeline_inv_delivery [OF inv d(1)] schema_delivery [OF sch d(1)]
    by (auto simp: claim_row_def check_defs delivery_ok_def)
qed (simp add: claim_row_def same_delivery_def)

lemma Claim_inv:
  assumes "pipeline_inv L M s" "Claim L oc brk now locked tok limit lease types s = (r, s')"
  shows "pipeline_inv L M s'"
  using Claim_state [OF assms(2)] assms(1) claimed_state_inv by auto

text \<open>
  The tasks a claim hands out: each is the claim of one selected delivery, with the token and
  the attempt that are in its row now, the address of its enabled channel, and there are not
  more than the limit.
\<close>

definition task_for ::
  "instant \<Rightarrow> nat \<Rightarrow> duration \<Rightarrow> (uuid \<Rightarrow> bool) \<Rightarrow> (uuid \<Rightarrow> uuid) \<Rightarrow> string list \<Rightarrow> ndb \<Rightarrow> task \<Rightarrow>
   delivery_row \<Rightarrow> bool" where
  "task_for now limit lease locked tok types s t d \<longleftrightarrow>
     d \<in> set (selected now limit locked types s) \<and> t_id t = d_id d \<and> t_event t = d_event d \<and>
     t_user t = d_user d \<and> t_token t = tok (d_id d) \<and> t_attempts t = d_attempts d + 1 \<and>
     (\<exists>c \<in> set (channels s). ch_id c = d_channel d \<and> ch_user c = d_user d \<and> ch_enabled c \<and>
        ch_type c \<in> set types \<and> t_channel_type t = ch_type c \<and>
        Recipient (t_message t) = ch_destination c)"

lemma claim_rows:
  assumes s: "schema_ok s" and r: "(d, c, i) \<in> set (fst (claim_stmt now limit lease locked tok types s))"
  shows "\<exists>d0 \<in> set (selected now limit locked types s). d0 \<in> set (deliveries s) \<and>
     d = claim_row now lease tok d0 \<and> c \<in> set (channels s) \<and> ch_id c = d_channel d0 \<and>
     ch_user c = d_user d0 \<and> ch_enabled c \<and> ch_type c \<in> set types"
proof -
  let ?ids = "d_id ` set (selected now limit locked types s)"
  have d: "d \<in> set (upd (\<lambda>d. d_id d \<in> ?ids) (claim_row now lease tok) (deliveries s))"
    "d_id d \<in> ?ids" "c \<in> set (channels s)" "ch_id c = d_channel d"
    using r by (auto simp: claim_stmt_def Let_def)
  from d(1) obtain d0 where d0: "d0 \<in> set (deliveries s)" "d_id d0 \<in> ?ids"
    "d = claim_row now lease tok d0"
    by (rule set_updE) (use d(2) in auto)
  note sel = selected_rows [OF s d0(1,2)]
  from sel(1) obtain c' where c': "c' \<in> set (channels s)" "ch_id c' = d_channel d0" "ch_user c' = d_user d0"
    "ch_enabled c'" "ch_type c' \<in> set types" by (auto simp: claimable_def)
  have "c = c'" using channel_by_id [OF s d(3) c'(1)] d(4) c'(2) by (simp add: d0(3) claim_row_def)
  then show ?thesis using sel(4) d0 c' by blast
qed

lemma scan_tasks_set:
  "scan_tasks L rows = Inr ts \<Longrightarrow> t \<in> set ts \<Longrightarrow> \<exists>row \<in> set rows. task_of_row L row = Inr t"
  by (induction rows arbitrary: ts) (auto split: sum.splits)

lemma scan_tasks_length: "scan_tasks L rows = Inr ts \<Longrightarrow> length ts = length rows"
  by (induction rows arbitrary: ts) (auto split: sum.splits)

lemma scan_rows_length: "length (fst (scan_rows L rows e)) \<le> length rows"
  by (auto simp: scan_rows_def scan_tasks_length split: sum.splits)

lemma scan_rows_set:
  "t \<in> set (fst (scan_rows L rows e)) \<Longrightarrow> \<exists>row \<in> set rows. task_of_row L row = Inr t"
  by (auto simp: scan_rows_def scan_tasks_set split: sum.splits)

lemma Claim_rows:
  assumes "Claim L oc brk now locked tok limit lease types s = (r, s')"
  shows "fst r = [] \<or> (\<exists>k e. fst r = fst (scan_rows L (take k
     (fst (claim_stmt now (nat limit) lease locked tok types s))) e))"
proof -
  have "\<exists>k. rows = take k rows" for rows :: "(delivery_row \<times> channel_row \<times> inbox_row) list"
    by (rule exI [of _ "length rows"]) simp
  then show ?thesis
    using assms
    by (auto simp: Claim_def broken_rows_def split: if_splits prod.splits outcome.splits option.splits)
      metis
qed

lemma Claim_tasks:
  assumes s: "schema_ok s" and res: "Claim L oc brk now locked tok limit lease types s = (r, s')"
    and t: "t \<in> set (fst r)"
  shows "\<exists>d. task_for now (nat limit) lease locked tok types s t d"
proof -
  obtain d c i where row: "(d, c, i) \<in> set (fst (claim_stmt now (nat limit) lease locked tok types s))"
    "task_of_row L (d, c, i) = Inr t"
    using Claim_rows [OF res] t by (fastforce dest: scan_rows_set in_set_takeD)
  from claim_rows [OF s row(1)] row(2) show ?thesis
    by (fastforce simp: task_for_def task_of_row_def claim_row_def split: option.splits)
qed

lemma filter_unique_le_1:
  "distinct (map k xs) \<Longrightarrow> length (filter (\<lambda>x. k x = a) xs) \<le> 1"
  using affected_key_le_1 [of k xs a "\<lambda>_. True"] by (simp add: affected_def)

lemma length_comprehension:
  "length [(d, x). d \<leftarrow> ds, P d, x \<leftarrow> g d] = sum_list (map (\<lambda>d. if P d then length (g d) else 0) ds)"
  by (induction ds) auto

lemma sum_list_indicator: "sum_list (map (\<lambda>d. if P d then 1 else 0) ds) = length (filter P ds)"
  by (induction ds) simp_all

lemma length_filter_key:
  assumes "distinct (map k xs)"
  shows "length (filter (\<lambda>x. k x \<in> set ks) xs) \<le> length ks"
proof -
  let ?f = "filter (\<lambda>x. k x \<in> set ks) xs"
  have "distinct (map k ?f)" using assms by (simp add: distinct_map_filter)
  then have "length ?f = card (set (map k ?f))" using distinct_card [of "map k ?f"] by simp
  also have "\<dots> \<le> card (set ks)" by (rule card_mono) auto
  also have "\<dots> \<le> length ks" by (rule card_length)
  finally show ?thesis .
qed

lemma claim_rows_length:
  assumes s: "schema_ok s"
  shows "length (fst (claim_stmt now limit lease locked tok types s)) \<le> limit"
proof -
  let ?sel = "selected now limit locked types s"
  let ?P = "\<lambda>d. d_id d \<in> set (map d_id ?sel)"
  let ?ds = "upd ?P (claim_row now lease tok) (deliveries s)"
  let ?g = "\<lambda>d. [(c, i). c \<leftarrow> channels s, ch_id c = d_channel d, i \<leftarrow> inbox s, in_event i = d_event d]"
  have one: "length (?g d) \<le> 1" for d
  proof -
    have i: "length (filter (\<lambda>i. in_event i = d_event d) (inbox s)) \<le> 1"
      by (rule filter_unique_le_1) (use s in \<open>simp add: schema_ok_def\<close>)
    have c: "length (filter (\<lambda>c. ch_id c = d_channel d) (channels s)) \<le> 1"
      by (rule filter_unique_le_1) (use s in \<open>simp add: schema_ok_def\<close>)
    have "length (?g d) = length (filter (\<lambda>c. ch_id c = d_channel d) (channels s)) *
        length (filter (\<lambda>i. in_event i = d_event d) (inbox s))"
    proof (induction "channels s")
      case Nil
      then show ?case by simp
    next
      case (Cons c cs)
      have l: "length (concat (map (\<lambda>i. if in_event i = d_event d then [(c, i)] else []) xs)) =
          length (filter (\<lambda>i. in_event i = d_event d) xs)" for xs c
        by (induction xs) auto
      have "length [(c, i). c \<leftarrow> cs, ch_id c = d_channel d, i \<leftarrow> inbox s, in_event i = d_event d] =
          length (filter (\<lambda>c. ch_id c = d_channel d) cs) * length (filter (\<lambda>i. in_event i = d_event d) (inbox s))"
        for cs by (induction cs) (simp_all add: l)
      then show ?case .
    qed
    also have "\<dots> \<le> 1 * 1" by (rule mult_le_mono [OF c i])
    finally show ?thesis by simp
  qed
  have eq: "fst (claim_stmt now limit lease locked tok types s) =
      map (\<lambda>(d, ci). (d, fst ci, snd ci)) [(d, ci). d \<leftarrow> ?ds, ?P d, ci \<leftarrow> ?g d]"
    by (simp add: claim_stmt_def Let_def map_concat comp_def if_distrib cong: if_cong)
  have "length (fst (claim_stmt now limit lease locked tok types s)) =
      sum_list (map (\<lambda>d. if ?P d then length (?g d) else 0) ?ds)"
    unfolding eq length_map by (rule length_comprehension)
  also have "\<dots> \<le> sum_list (map (\<lambda>d. if ?P d then 1 else 0) ?ds)"
    using one by (intro sum_list_mono) auto
  also have "\<dots> = length (filter ?P ?ds)"
    by (rule sum_list_indicator)
  also have "\<dots> \<le> length (map d_id ?sel)"
    by (rule length_filter_key)
      (use schema_d_id [OF s] in \<open>simp add: map_upd claim_row_def\<close>)
  also have "\<dots> = length ?sel" by simp
  also have "\<dots> \<le> limit" by (simp add: selected_def length_select_for_update)
  finally show ?thesis .
qed

lemma Claim_length:
  assumes "schema_ok s" "Claim L oc brk now locked tok limit lease types s = (r, s')"
  shows "length (fst r) \<le> nat limit"
proof -
  have "length (fst (scan_rows L (take k (fst (claim_stmt now (nat limit) lease locked tok types s))) e)) \<le>
      nat limit" for k e
  proof -
    have "length (fst (scan_rows L (take k (fst (claim_stmt now (nat limit) lease locked tok types s))) e)) \<le>
      length (take k (fst (claim_stmt now (nat limit) lease locked tok types s)))"
      by (rule scan_rows_length)
    also have "\<dots> \<le> length (fst (claim_stmt now (nat limit) lease locked tok types s))" by simp
    also have "\<dots> \<le> nat limit" by (rule claim_rows_length [OF assms(1)])
    finally show ?thesis .
  qed
  then show ?thesis using Claim_rows [OF assms(2)] by auto
qed

lemma MarkSent_state:
  assumes "MarkSent oc now t s = (r, s')"
  shows "s' = s \<or> s' = s\<lparr>deliveries := upd (holds_claim t) (sent_row now) (deliveries s)\<rparr>"
  using assms by (auto simp: MarkSent_def autocommit_def split: outcome.splits)

lemma MarkSent_inv:
  assumes inv: "pipeline_inv L M s" and res: "MarkSent oc now t s = (r, s')"
  shows "pipeline_inv L M s'"
proof -
  have "pipeline_inv L M (s\<lparr>deliveries := upd (holds_claim t) (sent_row now) (deliveries s)\<rparr>)"
  proof (rule pipeline_inv_upd [OF inv])
    fix d assume d: "d \<in> set (deliveries s)" "holds_claim t d"
    have "delivery_ok L M (channels s) (dispatch s) (sent_row now d)"
      by (rule delivery_ok_frame [OF pipeline_inv_delivery [OF inv d(1)]]) (simp_all add: sent_row_def)
    then show "0 \<le> d_attempts (sent_row now d) \<and> lease_check (sent_row now d) \<and>
      sent_check (sent_row now d) \<and> delivery_ok L M (channels s) (dispatch s) (sent_row now d)"
      using schema_delivery [OF pipeline_inv_schema [OF inv] d(1)]
      by (simp add: sent_row_def check_defs)
  qed (simp add: sent_row_def same_delivery_def)
  then show ?thesis using MarkSent_state [OF res] inv by auto
qed

subsection \<open>MarkFailed\<close>

text \<open>
  A task agrees with the database when the delivery that still carries its token has the
  attempt, event and user the task was handed out with.
\<close>

definition task_agrees :: "task \<Rightarrow> delivery_row \<Rightarrow> bool" where
  "task_agrees t d \<longleftrightarrow>
     (holds_claim t d \<longrightarrow> d_attempts d = t_attempts t \<and> d_event d = t_event t \<and> d_user d = t_user t)"

lemma insert_dispatch_Inr:
  assumes "insert_dispatch now i delivery user attempt kind topic payload av s = Inr s'"
  shows "(s' = s \<and> (\<exists>r \<in> set (dispatch s). o_delivery r = delivery \<and> o_kind r = kind \<and> o_attempt r = attempt)) \<or>
    (\<exists>j. payload = Some j \<and> 0 < attempt \<and>
       (\<forall>r \<in> set (dispatch s). \<not> (o_delivery r = delivery \<and> o_kind r = kind \<and> o_attempt r = attempt)) \<and>
       (\<forall>r \<in> set (dispatch s). o_id r \<noteq> i) \<and>
       (\<exists>d \<in> set (deliveries s). d_id d = delivery \<and> d_user d = user) \<and>
       s' = s\<lparr>dispatch := dispatch s @
            [\<lparr>o_id = i, o_delivery = delivery, o_user = user, o_attempt = attempt, o_kind = kind,
              o_topic = topic, o_payload = j, o_available = av, o_published = None,
              o_publish_attempts = 0, o_created = now\<rparr>]\<rparr>)"
  using assms by (cases payload) (auto simp: insert_dispatch_def split: if_splits)

lemma schema_ok_add_dispatch:
  assumes s: "schema_ok s"
    and new: "0 < o_attempt x" "0 \<le> o_publish_attempts x" "\<forall>r \<in> set (dispatch s). o_id r \<noteq> o_id x"
      "\<forall>r \<in> set (dispatch s). \<not> (o_delivery r = o_delivery x \<and> o_kind r = o_kind x \<and> o_attempt r = o_attempt x)"
      "o_kind x = ''dlq'' \<and> o_topic x = DLQTopicV1 \<or> o_kind x = ''retry'' \<and> IsRetryTopic (o_topic x)"
      "\<exists>d \<in> set (deliveries s). d_id d = o_delivery x \<and> d_user d = o_user x"
  shows "schema_ok (s\<lparr>dispatch := dispatch s @ [x]\<rparr>)"
  using s new unfolding schema_ok_def by auto

text \<open>
  The effect of leaving \<open>StProcessing\<close> with a message: the row changes and the message
  is appended, and the invariant is kept.
\<close>

lemma release_with_dispatch_inv:
  assumes inv: "pipeline_inv L M s"
    and d: "d \<in> set (deliveries s)" "d_status d = StProcessing"
    and P: "\<And>x. x \<in> set (deliveries s) \<Longrightarrow> P x \<longleftrightarrow> x = d"
    and f: "\<And>x. same_delivery x (f x) \<and> d_attempts (f x) = d_attempts x \<and> d_status (f x) = st \<and>
              d_token (f x) = None \<and> d_sent_at (f x) = d_sent_at x"
    and st: "st = StFailed \<and> kind = ''dlq'' \<and> topic = DLQTopicV1 \<or>
       st = StRetryWait \<and> kind = ''retry'' \<and> IsRetryTopic topic \<and> d_attempts d < M \<and>
       active_in (channels s) d"
    and res: "insert_dispatch now i (d_id d) (d_user d) (d_attempts d) kind topic
        (jsonb_in L (json_text L
           (dispatchPayload L (d_id d) (d_event d) (d_user d) (d_attempts d) code))) av
        (s\<lparr>deliveries := upd P f (deliveries s)\<rparr>) = Inr s'"
  shows "pipeline_inv L M s'"
proof -
  note sch = pipeline_inv_schema [OF inv]
  have ok: "delivery_ok L M (channels s) (dispatch s) d" by (rule pipeline_inv_delivery [OF inv d(1)])
  have older: "\<forall>r \<in> set (dispatch s). o_delivery r = d_id d \<longrightarrow> o_attempt r < d_attempts d"
    using ok d(2) by (simp add: delivery_ok_def)
  let ?s1 = "s\<lparr>deliveries := upd P f (deliveries s)\<rparr>"
  have none: "\<not> (\<exists>r \<in> set (dispatch ?s1). o_delivery r = d_id d \<and> o_kind r = kind \<and>
      o_attempt r = d_attempts d)"
    using older by auto
  obtain j where j: "jsonb_in L (json_text L
       (dispatchPayload L (d_id d) (d_event d) (d_user d) (d_attempts d) code)) = Some j"
    and pos: "0 < d_attempts d" and ids: "\<forall>r \<in> set (dispatch s). o_id r \<noteq> i"
    and s'x: "s' = ?s1\<lparr>dispatch := dispatch s @
            [\<lparr>o_id = i, o_delivery = d_id d, o_user = d_user d, o_attempt = d_attempts d, o_kind = kind,
              o_topic = topic, o_payload = j, o_available = av, o_published = None,
              o_publish_attempts = 0, o_created = now\<rparr>]\<rparr>"
    using insert_dispatch_Inr [OF res] none by auto
  define x where "x = \<lparr>o_id = i, o_delivery = d_id d, o_user = d_user d, o_attempt = d_attempts d,
     o_kind = kind, o_topic = topic, o_payload = j, o_available = av, o_published = None,
     o_publish_attempts = 0, o_created = now\<rparr>"
  have x: "o_delivery x = d_id d" "o_user x = d_user d" "o_attempt x = d_attempts d" "o_kind x = kind"
      "o_topic x = topic" "o_payload x = j" "o_publish_attempts x = 0" "0 < d_attempts d"
      "\<forall>r \<in> set (dispatch s). o_id r \<noteq> o_id x"
      "\<forall>r \<in> set (dispatch s). \<not> (o_delivery r = d_id d \<and> o_kind r = kind \<and> o_attempt r = d_attempts d)"
    using ids none pos by (auto simp: x_def)
  have s': "s' = ?s1\<lparr>dispatch := dispatch s @ [x]\<rparr>"
    by (simp add: s'x x_def)
  have sch1: "schema_ok ?s1"
  proof (rule schema_ok_upd_deliveries [OF sch])
    fix y assume y: "y \<in> set (deliveries s)" "P y"
    then show "0 \<le> d_attempts (f y) \<and> lease_check (f y) \<and> sent_check (f y)"
      using f [of y] schema_delivery [OF sch y(1)] P [OF y(1)] d(2) st
      by (auto simp: check_defs)
  qed (use f in blast)
  have "f d \<in> set (deliveries ?s1)" using d(1) P by (auto simp: set_upd)
  then have fk: "\<exists>y \<in> set (deliveries ?s1). d_id y = d_id d \<and> d_user y = d_user d"
    using f [of d] by (auto simp: same_delivery_def)
  have sch2: "schema_ok s'"
    unfolding s' using schema_ok_add_dispatch [OF sch1, of x] x st fk by auto
  have ann: "announces L (f d) kind x"
    using f [of d] x j by (auto simp: announces_def same_delivery_def)
  have "delivery_ok L M (channels s) (dispatch s @ [x]) y" if "y \<in> set (deliveries ?s1)" for y
  proof -
    from that consider "y = f d" | "y \<in> set (deliveries s)" "y \<noteq> d"
      using P by (auto simp: set_upd split: if_splits)
    then show ?thesis
    proof cases
      case 1
      have fd: "d_attempts (f d) = d_attempts d" "d_status (f d) = st" "d_id (f d) = d_id d"
          "active_in (channels s) (f d) = active_in (channels s) d"
        using f [of d] by (auto simp: same_delivery_def active_in_def)
      have le: "\<forall>r \<in> set (dispatch s @ [x]). o_delivery r = d_id d \<longrightarrow> o_attempt r \<le> d_attempts d"
        using older x(1,3) by force
      have "d_attempts d \<le> M" using ok by (simp add: delivery_ok_def)
      then show ?thesis
        using st le ann x(8) unfolding 1 delivery_ok_def fd by (elim disjE) auto
    next
      case 2
      then have "d_id y \<noteq> d_id d" using row_by_id [OF sch] d(1) by blast
      then show ?thesis
        using pipeline_inv_delivery [OF inv 2(1)] x(1) by (auto simp: delivery_ok_def)
    qed
  qed
  then show ?thesis using sch2 by (simp add: pipeline_inv_def s')
qed

lemma MarkFailed_state:
  assumes res: "MarkFailed L oc now clock i t delay code s = (r, s')"
  obtains (same) "s' = s"
  | (cancelled) "\<not> channelActive (t_id t) s"
      "s' = s\<lparr>deliveries := upd (holds_claim t) (release_row now StCancelled ''channel_disabled'')
         (deliveries s)\<rparr>"
  | (released) code' st kind topic av where "channelActive (t_id t) s" "affected (holds_claim t) (deliveries s) = 1"
      "0 < sint delay \<and> st = StRetryWait \<and> kind = ''retry'' \<and> topic = retryTopic delay \<or>
       \<not> 0 < sint delay \<and> st = StFailed \<and> kind = ''dlq'' \<and> topic = DLQTopicV1"
      "insert_dispatch now i (t_id t) (t_user t) (t_attempts t) kind topic
        (jsonb_in L (json_text L
           (dispatchPayload L (t_id t) (t_event t) (t_user t) (t_attempts t) code'))) av
        (s\<lparr>deliveries := upd (holds_claim t) (release_row now st code') (deliveries s)\<rparr>) = Inr s'"
proof (cases "s' = s")
  case True
  then show ?thesis by (rule same)
next
  case ne: False
  show ?thesis
  proof (cases "channelActive (t_id t) s")
    case False
    then show ?thesis
      using ne res
      by (intro cancelled)
        (auto simp: MarkFailed_def Let_def split: sum.splits if_splits dest!: commit_stateD)
  next
    case True
    show ?thesis
      using ne res True released [OF True]
      by (auto simp: MarkFailed_def Let_def split: sum.splits if_splits dest!: commit_stateD)
  qed
qed

lemma retryTopic_retry: "IsRetryTopic (retryTopic delay)"
  by (simp add: retryTopic_def IsRetryTopic_def)

lemma holds_claim_row:
  assumes "schema_ok s" "d \<in> set (deliveries s)" "holds_claim t d" "x \<in> set (deliveries s)"
  shows "holds_claim t x \<longleftrightarrow> x = d"
  using assms row_by_id [OF assms(1,2,4)] by (auto simp: holds_claim_def)

lemma MarkFailed_inv:
  assumes inv: "pipeline_inv L M s"
    and agree: "\<forall>d \<in> set (deliveries s). task_agrees t d"
    and retry: "0 < sint delay \<Longrightarrow> t_attempts t < M"
    and res: "MarkFailed L oc now clock i t delay code s = (r, s')"
  shows "pipeline_inv L M s'"
proof -
  note sch = pipeline_inv_schema [OF inv]
  from res show ?thesis
  proof (cases rule: MarkFailed_state)
    case same
    then show ?thesis using inv by simp
  next
    case cancelled
    have "pipeline_inv L M (s\<lparr>deliveries := upd (holds_claim t)
       (release_row now StCancelled ''channel_disabled'') (deliveries s)\<rparr>)"
    proof (rule pipeline_inv_upd [OF inv])
      fix d assume d: "d \<in> set (deliveries s)" "holds_claim t d"
      have "delivery_ok L M (channels s) (dispatch s) (release_row now StCancelled ''channel_disabled'' d)"
        by (rule delivery_ok_frame [OF pipeline_inv_delivery [OF inv d(1)]]) (simp_all add: release_row_def)
      then show "0 \<le> d_attempts (release_row now StCancelled ''channel_disabled'' d) \<and>
        lease_check (release_row now StCancelled ''channel_disabled'' d) \<and>
        sent_check (release_row now StCancelled ''channel_disabled'' d) \<and>
        delivery_ok L M (channels s) (dispatch s) (release_row now StCancelled ''channel_disabled'' d)"
        using schema_delivery [OF sch d(1)] d(2) by (simp add: release_row_def check_defs holds_claim_def)
    qed (simp add: release_row_def same_delivery_def)
    then show ?thesis using cancelled by simp
  next
    case (released code' st kind topic av)
    from affected_1_obtain [OF released(2)] obtain d where d: "d \<in> set (deliveries s)" "holds_claim t d" .
    have t: "t_id t = d_id d" "t_user t = d_user d" "t_event t = d_event d" "t_attempts t = d_attempts d"
      "d_status d = StProcessing"
      using agree d by (auto simp: task_agrees_def holds_claim_def)
    have act: "active_in (channels s) d"
      using released(1) channelActive_iff [OF sch d(1)] by (simp add: t)
    show ?thesis
    proof (rule release_with_dispatch_inv [OF inv d(1) t(5), of "holds_claim t"])
      show "insert_dispatch now i (d_id d) (d_user d) (d_attempts d) kind topic
        (jsonb_in L (json_text L
           (dispatchPayload L (d_id d) (d_event d) (d_user d) (d_attempts d) code'))) av
        (s\<lparr>deliveries := upd (holds_claim t) (release_row now st code') (deliveries s)\<rparr>) = Inr s'"
        using released(4) by (simp add: t)
      show "st = StFailed \<and> kind = ''dlq'' \<and> topic = DLQTopicV1 \<or>
       st = StRetryWait \<and> kind = ''retry'' \<and> IsRetryTopic topic \<and> d_attempts d < M \<and>
       active_in (channels s) d"
        using released(3) retry act retryTopic_retry t(4) by auto
    qed (use holds_claim_row [OF sch d] in \<open>auto simp: release_row_def same_delivery_def\<close>)
  qed
qed

subsection \<open>RecoverExpired\<close>

lemma recover_loop_inv:
  assumes "recover_loop L oc k fresh now M ds s = Inr (k', s')"
    and "pipeline_inv L M s" "distinct (map d_id ds)"
    and "\<forall>d \<in> set ds. d \<in> set (deliveries s) \<and> d_status d = StProcessing"
  shows "pipeline_inv L M s'"
  using assms
proof (induction L oc k fresh now M ds s rule: recover_loop.induct)
  case (1 L oc k fresh now M s)
  then show ?case by simp
next
  case (2 L oc k fresh now M d ds s)
  note inv = "2.prems"(2)
  note sch = pipeline_inv_schema [OF inv]
  have d: "d \<in> set (deliveries s)" "d_status d = StProcessing" using "2.prems"(4) by auto
  define active where "active = channelActive (d_id d) s"
  define st where "st = (if \<not> active then StCancelled else if M \<le> d_attempts d then StFailed else StPending)"
  define code where "code = (if \<not> active then ''channel_disabled'' else ''lease_expired'')"
  define s1 where "s1 = s\<lparr>deliveries := upd (\<lambda>r. d_id r = d_id d) (recover_row now st code) (deliveries s)\<rparr>"
  have oc: "oc k = Applied" "oc (k + 1) = Applied"
    using "2.prems"(1) by (auto simp: Let_def split: sum.splits)
  have P: "\<And>x. x \<in> set (deliveries s) \<Longrightarrow> d_id x = d_id d \<longleftrightarrow> x = d"
    using row_by_id [OF sch _ d(1)] by blast
  have rest: "\<forall>x \<in> set ds. x \<in> set (deliveries s1) \<and> d_status x = StProcessing"
    using "2.prems"(3,4) P by (auto simp: s1_def set_upd image_iff)
  show ?case
  proof (cases "st = StFailed")
    case True
    then have mx: "M \<le> d_attempts d" by (auto simp: st_def split: if_splits)
    have "(case call (oc (k + 2)) (insert_dispatch now (fresh (d_id d)) (d_id d) (d_user d)
        (d_attempts d) ''dlq'' DLQTopicV1
        (jsonb_in L (json_text L (dispatchPayload L (d_id d) (d_event d) (d_user d) (d_attempts d)
           ''lease_expired''))) now s1) of Inl e \<Rightarrow> Inl e
        | Inr s2 \<Rightarrow> recover_loop L oc (k + 3) fresh now M ds s2) = Inr (k', s')"
      using "2.prems"(1) oc True
      by (simp add: active_def [symmetric] st_def [symmetric] code_def [symmetric] Let_def)
        (simp add: s1_def True)
    then obtain s2 where s2: "insert_dispatch now (fresh (d_id d)) (d_id d) (d_user d)
        (d_attempts d) ''dlq'' DLQTopicV1
        (jsonb_in L (json_text L (dispatchPayload L (d_id d) (d_event d) (d_user d) (d_attempts d)
           ''lease_expired''))) now s1 = Inr s2"
      and l: "recover_loop L oc (k + 3) fresh now M ds s2 = Inr (k', s')" and oc2: "oc (k + 2) = Applied"
      by (auto split: sum.splits)
    have "pipeline_inv L M s2"
      by (rule release_with_dispatch_inv [OF inv d, of "\<lambda>r. d_id r = d_id d" "recover_row now st code"
            st "''dlq''" DLQTopicV1, OF _ _ _ s2 [unfolded s1_def]])
        (use P True in \<open>auto simp: recover_row_def release_row_def same_delivery_def\<close>)
    moreover have "deliveries s2 = deliveries s1"
      using insert_dispatch_Inr [OF s2] by auto
    ultimately show ?thesis
      using "2.IH"(1) l "2.prems"(3) rest True oc oc2 s2
      by (simp add: st_def code_def active_def s1_def)
  next
    case False
    have "pipeline_inv L M s1"
      unfolding s1_def
    proof (rule pipeline_inv_upd [OF inv])
      fix x assume x: "x \<in> set (deliveries s)" "d_id x = d_id d"
      have xd: "x = d" using P x by blast
      have "active_in (channels s) d \<and> d_attempts d < M \<and> st = StPending \<or> st = StCancelled"
        using False channelActive_iff [OF sch d(1)] by (auto simp: st_def active_def)
      then have "delivery_ok L M (channels s) (dispatch s) (recover_row now st code x)"
        unfolding xd
        by (intro delivery_ok_frame [OF pipeline_inv_delivery [OF inv d(1)]])
          (auto simp: recover_row_def release_row_def)
      then show "0 \<le> d_attempts (recover_row now st code x) \<and> lease_check (recover_row now st code x) \<and>
        sent_check (recover_row now st code x) \<and>
        delivery_ok L M (channels s) (dispatch s) (recover_row now st code x)"
        using schema_delivery [OF sch d(1)] d(2) False
        by (auto simp: xd recover_row_def release_row_def check_defs st_def)
    qed (simp add: recover_row_def release_row_def same_delivery_def)
    moreover have "recover_loop L oc (k + 2) fresh now M ds s1 = Inr (k', s')"
      using "2.prems"(1) False oc
      by (simp add: Let_def st_def [symmetric] code_def [symmetric] active_def [symmetric] s1_def [symmetric])
    ultimately show ?thesis
      using "2.IH"(2) "2.prems"(3) rest False oc
      by (simp add: st_def code_def active_def s1_def)
  qed
qed

lemma RecoverExpired_state:
  assumes "RecoverExpired L oc now locked fresh limit M s = (r, s')"
  shows "s' = s \<or> (\<exists>k ds. recover_loop L oc 2 fresh now M ds s = Inr (k, s') \<and>
     ds = select_for_update (\<lambda>d. (the (d_lease d), d_id d)) (nat limit)
       (\<lambda>d. locked (d_id d)) (expired now) (deliveries s))"
  using assms
  by (auto simp: RecoverExpired_def split: sum.splits prod.splits if_splits dest!: commit_stateD)

lemma RecoverExpired_inv:
  assumes inv: "pipeline_inv L M s" and res: "RecoverExpired L oc now locked fresh limit M s = (r, s')"
  shows "pipeline_inv L M s'"
proof -
  let ?ds = "select_for_update (\<lambda>d. (the (d_lease d), d_id d)) (nat limit)
       (\<lambda>d. locked (d_id d)) (expired now) (deliveries s)"
  have "distinct (map d_id ?ds)"
    by (rule distinct_map_select [OF schema_d_id [OF pipeline_inv_schema [OF inv]]])
  moreover have "\<forall>d \<in> set ?ds. d \<in> set (deliveries s) \<and> d_status d = StProcessing"
    by (auto dest!: set_select_for_update simp: expired_def)
  ultimately show ?thesis
    using RecoverExpired_state [OF res] inv recover_loop_inv by blast
qed

section \<open>Claims held by workers\<close>

text \<open>
  \<open>agrees t s\<close>: if a delivery still carries the claim token of \<open>t\<close>, it is in the
  attempt \<open>t\<close> was handed out for. A fresh claim agrees, and every statement keeps this,
  because a row that leaves \<open>StProcessing\<close> carries no claim and a new claim has a new
  token.
\<close>

definition agrees :: "task \<Rightarrow> ndb \<Rightarrow> bool" where
  "agrees t s \<longleftrightarrow> (\<forall>d \<in> set (deliveries s). task_agrees t d)"

lemma agrees_upd:
  assumes "agrees t s" "\<And>d. d \<in> set (deliveries s) \<Longrightarrow> P d \<Longrightarrow> d_status (f d) \<noteq> StProcessing"
  shows "agrees t (s\<lparr>deliveries := upd P f (deliveries s)\<rparr>)"
  using assms by (auto simp: agrees_def task_agrees_def holds_claim_def elim!: set_updE)

lemma agrees_frame: "deliveries s' = deliveries s \<Longrightarrow> agrees t s' \<longleftrightarrow> agrees t s"
  by (simp add: agrees_def)

lemma agrees_claimed:
  assumes "agrees t s" "\<And>i. tok i \<noteq> t_token t"
  shows "agrees t (claimed_state now limit lease locked tok types s)"
  using assms
  by (auto simp: agrees_def task_agrees_def holds_claim_def claimed_state_def claim_row_def elim!: set_updE)

lemma Claim_agrees:
  assumes s: "schema_ok s" and res: "Claim L oc brk now locked tok limit lease types s = (r, s')"
    and t: "t \<in> set (fst r)"
  shows "agrees t s'"
proof -
  from Claim_tasks [OF s res t] obtain d where
    d: "task_for now (nat limit) lease locked tok types s t d" by blast
  let ?sel = "selected now (nat limit) locked types s"
  have dsel: "d \<in> set ?sel" "d \<in> set (deliveries s)" "d_status d = StPending"
    using d by (auto simp: task_for_def selected_def claimable_def dest!: set_select_for_update)
  have same: "x = d" if "x \<in> set (deliveries s)" "d_id x = t_id t" for x
    using row_by_id [OF s that(1) dsel(2)] that(2) d by (simp add: task_for_def)
  have "agrees t s"
    using same dsel(3) by (auto simp: agrees_def task_agrees_def holds_claim_def)
  moreover have "agrees t (claimed_state now (nat limit) lease locked tok types s)"
    unfolding agrees_def
  proof
    fix x assume "x \<in> set (deliveries (claimed_state now (nat limit) lease locked tok types s))"
    then have "x \<in> set (upd (\<lambda>d. d_id d \<in> d_id ` set ?sel) (claim_row now lease tok) (deliveries s))"
      by (simp add: claimed_state_def)
    then show "task_agrees t x"
    proof (cases rule: set_updE)
      case (changed y)
      then show ?thesis
        using same [OF changed(1)] d by (auto simp: task_agrees_def holds_claim_def claim_row_def task_for_def)
    next
      case kept
      then show ?thesis
        using same [OF kept(1)] dsel(3) by (auto simp: task_agrees_def holds_claim_def)
    qed
  qed
  ultimately show ?thesis using Claim_state [OF res] by auto
qed

lemma MarkSent_agrees:
  assumes "agrees t s" "MarkSent oc now u s = (r, s')"
  shows "agrees t s'"
  using MarkSent_state [OF assms(2)] assms(1) by (auto intro!: agrees_upd simp: sent_row_def)

lemma insert_dispatch_deliveries:
  "insert_dispatch now i dl user att kind topic p av s = Inr s' \<Longrightarrow>
   deliveries s' = deliveries s \<and> channels s' = channels s"
  by (auto dest!: insert_dispatch_Inr)

lemma MarkFailed_agrees:
  assumes a: "agrees t s" and res: "MarkFailed L oc now clock i u delay code s = (r, s')"
  shows "agrees t s'"
  using res
proof (cases rule: MarkFailed_state)
  case same
  then show ?thesis using a by simp
next
  case cancelled
  then show ?thesis using a by (auto intro!: agrees_upd simp: release_row_def)
next
  case (released code' st kind topic av)
  have "agrees t (s\<lparr>deliveries := upd (holds_claim u) (release_row now st code') (deliveries s)\<rparr>)"
    using released(3) by (intro agrees_upd [OF a]) (auto simp: release_row_def)
  then show ?thesis
    using agrees_frame insert_dispatch_deliveries [OF released(4)] by blast
qed

end
