(* ===== verification/Channels.thy ===== *)
theory Channels
  imports NotifInv
begin

text \<open>
  \<open>internal/notification/postgres/channels.go\<close>: the notification channels of a user, the
  classification of storage errors, and the cancellation of the deliveries that wait on a
  channel that goes away. The last section shows that every method keeps the invariant of the
  pipeline when its transaction runs alone, and what the two statements of \<open>DeleteChannel\<close>
  allow between them.
\<close>

section \<open>Errors of the storage\<close>

definition channelDestinationConstraint :: string where
  "channelDestinationConstraint = ''notification_channels_user_id_channel_type_destination_key''"

fun is_pg_error :: "goerr \<Rightarrow> bool" where
  "is_pg_error (GoErr (PgError _ _) _) = True"
| "is_pg_error _ = False"

fun pg_code :: "goerr \<Rightarrow> string" where
  "pg_code (GoErr (PgError code _) _) = code"
| "pg_code _ = ''''"

fun pg_constraint :: "goerr \<Rightarrow> string" where
  "pg_constraint (GoErr (PgError _ name) _) = name"
| "pg_constraint _ = ''''"

definition channelStorageError :: "string \<Rightarrow> goerr \<Rightarrow> goerr" where
  "channelStorageError operation err =
     (let pgErr = errors_as is_pg_error err;
          connectErr = errors_as (\<lambda>e. err_kind e = PgConnectError) err;
          networkErr = errors_as is_net_error err
      in if (case pgErr of None \<Rightarrow> False
             | Some e \<Rightarrow> pg_code e = ''23505'' \<and> pg_constraint e = channelDestinationConstraint)
         then GoErr (Text operation) [sentinel_err ErrChannelConflict, err]
         else if errors_is err PuddleClosedPool \<or>
           errors_as (\<lambda>e. err_kind e = DeadlineExceeded) err \<noteq> None \<or>
           errors_is err IoEOF \<or> connectErr \<noteq> None \<or> networkErr \<noteq> None \<or>
           errors_as (\<lambda>e. err_kind e = PgTimeout) err \<noteq> None
         then GoErr (Text operation) [sentinel_err ErrUnavailable, err]
         else if (case pgErr of None \<Rightarrow> False
             | Some e \<Rightarrow> HasPrefix (pg_code e) ''08'' \<or> pg_code e = ''53300'' \<or> pg_code e = ''57P01'' \<or>
                 pg_code e = ''57P02'' \<or> pg_code e = ''57P03'')
         then GoErr (Text operation) [sentinel_err ErrUnavailable, err]
         else wrap_err operation err)"

section \<open>CreateChannel and GetChannels\<close>

definition insert_channel :: "instant \<Rightarrow> channel \<Rightarrow> ndb \<Rightarrow> goerr + channel \<times> ndb" where
  "insert_channel now c s =
     (if \<not> pg_text (ch_type c) \<or> \<not> pg_text (ch_destination c) then
        Inl (GoErr (PgError ''22021'' '''') [])
      else if ch_type c \<noteq> ''email'' \<and> ch_type c \<noteq> ''telegram'' then
        Inl (check_violation ''notification_channels_channel_type_check'')
      else if list_all (\<lambda>x. x = CHR '' '') (ch_destination c) \<or> 512 < length (ch_destination c) then
        Inl (check_violation ''notification_channels_destination_check'')
      else if \<exists>r \<in> set (channels s). ch_id r = ch_id c then
        Inl (unique_violation ''notification_channels_pkey'')
      else if \<exists>r \<in> set (channels s). ch_user r = ch_user c \<and> ch_type r = ch_type c \<and>
          ch_destination r = ch_destination c then
        Inl (unique_violation channelDestinationConstraint)
      else
        let row = \<lparr>ch_id = ch_id c, ch_user = ch_user c, ch_type = ch_type c,
              ch_destination = ch_destination c, ch_enabled = True, ch_created = now, ch_updated = now\<rparr>
        in Inr (channel.truncate row, s\<lparr>channels := channels s @ [row]\<rparr>))"

definition CreateChannel :: "outcome \<Rightarrow> instant \<Rightarrow> channel \<Rightarrow> ndb \<Rightarrow> (goerr + channel) \<times> ndb" where
  "CreateChannel oc now c s =
     (case autocommit oc (insert_channel now c) s of
        (Inl e, s') \<Rightarrow> (Inl (channelStorageError ''create notification channel'' e), s')
      | (Inr created, s') \<Rightarrow> (Inr created, s'))"

definition GetChannels :: "(nat \<Rightarrow> outcome) \<Rightarrow> uuid \<Rightarrow> ndb \<Rightarrow> goerr + channel list" where
  \<comment> \<open>round trip 0 is the query, round trip 1 the end of the iteration (\<open>rows.Err\<close>)\<close>
  "GetChannels oc userID s =
     (case call (oc 0) (Inr (sort_key (\<lambda>c. (ch_created c, ch_id c))
              (filter (\<lambda>c. ch_user c = userID) (channels s)))) of
        Inl e \<Rightarrow> Inl (channelStorageError ''get user notification channels'' e)
      | Inr rows \<Rightarrow>
          (case call (oc 1) (Inr (map channel.truncate rows)) of
             Inl e \<Rightarrow> Inl (channelStorageError ''iterate notification channels'' e)
           | Inr cs \<Rightarrow> Inr cs))"

section \<open>SetChannelEnabled and DeleteChannel\<close>

definition channel_row_of :: "uuid \<Rightarrow> uuid \<Rightarrow> channel_row \<Rightarrow> bool" where
  "channel_row_of userID channelID c \<longleftrightarrow> ch_id c = channelID \<and> ch_user c = userID"

definition waiting_on :: "uuid \<Rightarrow> uuid \<Rightarrow> delivery_row \<Rightarrow> bool" where
  "waiting_on userID channelID d \<longleftrightarrow>
     d_channel d = channelID \<and> d_user d = userID \<and> (d_status d = StPending \<or> d_status d = StRetryWait)"

definition cancel_row :: "instant \<Rightarrow> delivery_row \<Rightarrow> delivery_row" where
  "cancel_row now d = d\<lparr>d_status := StCancelled, d_updated := now\<rparr>"

definition cancel_stmt :: "instant \<Rightarrow> uuid \<Rightarrow> uuid \<Rightarrow> ndb \<Rightarrow> ndb" where
  "cancel_stmt now userID channelID s =
     s\<lparr>deliveries := upd (waiting_on userID channelID) (cancel_row now) (deliveries s)\<rparr>"

definition enable_stmt :: "instant \<Rightarrow> uuid \<Rightarrow> uuid \<Rightarrow> bool \<Rightarrow> ndb \<Rightarrow> goerr + channel \<times> ndb" where
  "enable_stmt now userID channelID enabled s =
     (let cs = upd (channel_row_of userID channelID)
            (\<lambda>c. c\<lparr>ch_enabled := enabled, ch_updated := now\<rparr>) (channels s)
      in case filter (channel_row_of userID channelID) cs of
           [] \<Rightarrow> Inl (sentinel_err PgxNoRows)
         | c # _ \<Rightarrow> Inr (channel.truncate c, s\<lparr>channels := cs\<rparr>))"

definition SetChannelEnabled ::
  "(nat \<Rightarrow> outcome) \<Rightarrow> instant \<Rightarrow> uuid \<Rightarrow> uuid \<Rightarrow> bool \<Rightarrow> ndb \<Rightarrow> (goerr + channel) \<times> ndb" where
  "SetChannelEnabled oc now userID channelID enabled s =
     (case call (oc 0) (Inr ()) of
        Inl e \<Rightarrow> (Inl (channelStorageError ''begin channel update'' e), s)
      | Inr _ \<Rightarrow>
      case call (oc 1) (enable_stmt now userID channelID enabled s) of
        Inl e \<Rightarrow>
          if errors_is e PgxNoRows
          then (Inl (GoErr (Text '''') [sentinel_err ErrChannelNotFound, e]), s)
          else (Inl (channelStorageError ''set notification channel enabled'' e), s)
      | Inr (c, s1) \<Rightarrow>
      case (if \<not> enabled then call (oc 2) (Inr (cancel_stmt now userID channelID s1)) else Inr s1) of
        Inl e \<Rightarrow> (Inl (channelStorageError ''cancel channel deliveries'' e), s)
      | Inr s2 \<Rightarrow>
      case commit (oc 3) c s s2 of
        (Inl e, s') \<Rightarrow> (Inl (channelStorageError ''commit channel update'' e), s')
      | (Inr c, s') \<Rightarrow> (Inr c, s'))"

definition delete_stmt :: "uuid \<Rightarrow> uuid \<Rightarrow> ndb \<Rightarrow> nat \<times> ndb" where
  "delete_stmt userID channelID s =
     (affected (channel_row_of userID channelID) (channels s),
      s\<lparr>channels := del (channel_row_of userID channelID) (channels s)\<rparr>)"

definition DeleteChannel ::
  "(nat \<Rightarrow> outcome) \<Rightarrow> instant \<Rightarrow> uuid \<Rightarrow> uuid \<Rightarrow> ndb \<Rightarrow> (goerr + unit) \<times> ndb" where
  "DeleteChannel oc now userID channelID s =
     (case call (oc 0) (Inr ()) of
        Inl e \<Rightarrow> (Inl (channelStorageError ''begin channel deletion'' e), s)
      | Inr _ \<Rightarrow>
      case call (oc 1) (Inr (cancel_stmt now userID channelID s)) of
        Inl e \<Rightarrow> (Inl (channelStorageError ''cancel channel deliveries'' e), s)
      | Inr s1 \<Rightarrow>
      case call (oc 2) (Inr (delete_stmt userID channelID s1)) of
        Inl e \<Rightarrow> (Inl (channelStorageError ''delete notification channel'' e), s)
      | Inr (n, s2) \<Rightarrow>
          if n \<noteq> 1 then (Inl (sentinel_err ErrChannelNotFound), s)
          else
            (case commit (oc 3) () s s2 of
               (Inl e, s') \<Rightarrow> (Inl (channelStorageError ''commit channel deletion'' e), s')
             | (Inr _, s') \<Rightarrow> (Inr (), s')))"

section \<open>What the errors of the storage mean\<close>

lemma errors_is_pair:
  "errors_is (GoErr (Text m) [sentinel_err x, e]) y \<longleftrightarrow> x = y \<or> errors_is e y"
  by (auto simp: errors_is_def)

lemma channelStorageError_keeps:
  "errors_is e x \<Longrightarrow> errors_is (channelStorageError m e) x"
  by (simp add: channelStorageError_def Let_def errors_is_pair errors_is_wrap)

lemma channelStorageError_unavailable:
  "errors_as is_net_error e \<noteq> None \<or> errors_is e PuddleClosedPool \<or> errors_is e IoEOF \<Longrightarrow>
   errors_as is_pg_error e = None \<Longrightarrow> errors_is (channelStorageError m e) ErrUnavailable"
  by (auto simp: channelStorageError_def Let_def errors_is_pair)

lemma channelStorageError_conflict:
  assumes "\<not> errors_is e ErrChannelConflict"
  shows "errors_is (channelStorageError m e) ErrChannelConflict \<longleftrightarrow>
    (\<exists>p. errors_as is_pg_error e = Some p \<and> pg_code p = ''23505'' \<and>
       pg_constraint p = channelDestinationConstraint)"
  using assms
  by (auto simp: channelStorageError_def Let_def errors_is_pair errors_is_wrap split: option.splits)

section \<open>The methods keep the invariant\<close>

lemma schema_ok_channels:
  assumes "schema_ok s" "distinct (map ch_id cs)"
    "distinct (map (\<lambda>c. (ch_user c, ch_type c, ch_destination c)) cs)"
  shows "schema_ok (s\<lparr>channels := cs\<rparr>)"
  using assms unfolding schema_ok_def by simp

lemma pipeline_inv_channels:
  assumes inv: "pipeline_inv L M s"
    and cs: "distinct (map ch_id cs)" "distinct (map (\<lambda>c. (ch_user c, ch_type c, ch_destination c)) cs)"
    and act: "\<And>d. d \<in> set (deliveries s) \<Longrightarrow> d_status d = StPending \<or> d_status d = StRetryWait \<Longrightarrow>
      active_in (channels s) d \<Longrightarrow> active_in cs d"
  shows "pipeline_inv L M (s\<lparr>channels := cs\<rparr>)"
  using inv schema_ok_channels [OF pipeline_inv_schema [OF inv] cs] act
  by (auto simp: pipeline_inv_def delivery_ok_def)

lemma insert_channel_Inr:
  assumes "insert_channel now c s = Inr (created, s')"
  shows "\<exists>row. s' = s\<lparr>channels := channels s @ [row]\<rparr> \<and> created = channel.truncate row \<and>
    created = c\<lparr>ch_enabled := True\<rparr> \<and>
    (\<forall>r \<in> set (channels s). ch_id r \<noteq> ch_id row) \<and>
    (\<forall>r \<in> set (channels s). (ch_user r, ch_type r, ch_destination r) \<noteq>
        (ch_user row, ch_type row, ch_destination row))"
  using assms by (auto simp: insert_channel_def Let_def channel.truncate_def split: if_splits)

lemma CreateChannel_state:
  assumes "CreateChannel oc now c s = (r, s')"
  shows "s' = s \<or> (\<exists>created. insert_channel now c s = Inr (created, s'))"
  using assms by (auto simp: CreateChannel_def autocommit_def split: outcome.splits sum.splits prod.splits)

lemma CreateChannel_inv:
  assumes inv: "pipeline_inv L M s" and res: "CreateChannel oc now c s = (r, s')"
  shows "pipeline_inv L M s'"
proof -
  have "pipeline_inv L M s'" if "insert_channel now c s = Inr (created, s')" for created
  proof -
    from insert_channel_Inr [OF that] obtain row where row: "s' = s\<lparr>channels := channels s @ [row]\<rparr>"
      "\<forall>r \<in> set (channels s). ch_id r \<noteq> ch_id row"
      "\<forall>r \<in> set (channels s). (ch_user r, ch_type r, ch_destination r) \<noteq>
        (ch_user row, ch_type row, ch_destination row)" by blast
    show ?thesis
      unfolding row(1)
      using pipeline_inv_schema [OF inv] row(2,3)
      by (intro pipeline_inv_channels [OF inv]) (auto simp: schema_ok_def active_in_def)
  qed
  then show ?thesis using CreateChannel_state [OF res] inv by auto
qed

lemma cancel_stmt_inv:
  assumes inv: "pipeline_inv L M s"
  shows "pipeline_inv L M (cancel_stmt now u c s)"
  unfolding cancel_stmt_def
proof (rule pipeline_inv_upd [OF inv])
  fix d assume d: "d \<in> set (deliveries s)" "waiting_on u c d"
  have "delivery_ok L M (channels s) (dispatch s) (cancel_row now d)"
    by (rule delivery_ok_frame [OF pipeline_inv_delivery [OF inv d(1)]]) (simp_all add: cancel_row_def)
  then show "0 \<le> d_attempts (cancel_row now d) \<and> lease_check (cancel_row now d) \<and>
      sent_check (cancel_row now d) \<and> delivery_ok L M (channels s) (dispatch s) (cancel_row now d)"
    using schema_delivery [OF pipeline_inv_schema [OF inv] d(1)] d(2)
    by (auto simp: cancel_row_def check_defs waiting_on_def)
qed (simp add: cancel_row_def same_delivery_def)

lemma cancel_stmt_none:
  assumes "d \<in> set (deliveries (cancel_stmt now u c s))"
  shows "\<not> waiting_on u c d"
  using assms unfolding cancel_stmt_def
  by (simp, elim set_updE) (simp_all add: cancel_row_def waiting_on_def)

lemma cancel_stmt_channels [simp]: "channels (cancel_stmt now u c s) = channels s"
  by (simp add: cancel_stmt_def)

lemma cancel_stmt_commute:
  "cancel_stmt now u c (s\<lparr>channels := cs\<rparr>) = (cancel_stmt now u c s)\<lparr>channels := cs\<rparr>"
  by (simp add: cancel_stmt_def)

lemma active_in_upd_other:
  assumes "active_in cs d" "b \<or> \<not> (d_channel d = c \<and> d_user d = u)"
  shows "active_in (upd (channel_row_of u c) (\<lambda>c. c\<lparr>ch_enabled := b, ch_updated := now\<rparr>) cs) d"
proof -
  from assms(1) obtain x where x: "x \<in> set cs" "ch_id x = d_channel d" "ch_user x = d_user d" "ch_enabled x"
    by (auto simp: active_in_def)
  show ?thesis
  proof (cases "channel_row_of u c x")
    case True
    then have "b" using x(2,3) assms(2) by (auto simp: channel_row_of_def)
    moreover have "x\<lparr>ch_enabled := b, ch_updated := now\<rparr> \<in>
        set (upd (channel_row_of u c) (\<lambda>c. c\<lparr>ch_enabled := b, ch_updated := now\<rparr>) cs)"
      using x(1) True by (rule upd_changed)
    ultimately show ?thesis
      unfolding active_in_def using x(2-4) by (intro bexI) simp_all
  next
    case False
    then have "x \<in> set (upd (channel_row_of u c) (\<lambda>c. c\<lparr>ch_enabled := b, ch_updated := now\<rparr>) cs)"
      by (rule upd_kept [OF x(1)])
    then show ?thesis unfolding active_in_def using x(2-4) by blast
  qed
qed

lemma enable_stmt_keys:
  assumes "schema_ok s"
  shows "distinct (map ch_id (upd (channel_row_of u c) (\<lambda>c. c\<lparr>ch_enabled := b, ch_updated := now\<rparr>) (channels s)))"
    "distinct (map (\<lambda>c. (ch_user c, ch_type c, ch_destination c))
       (upd (channel_row_of u c) (\<lambda>c. c\<lparr>ch_enabled := b, ch_updated := now\<rparr>) (channels s)))"
  using assms by (simp_all add: map_upd schema_ok_def)

lemma enable_stmt_Inr:
  assumes "enable_stmt now u c b s = Inr (x, s1)"
  shows "s1 = s\<lparr>channels := upd (channel_row_of u c) (\<lambda>c. c\<lparr>ch_enabled := b, ch_updated := now\<rparr>) (channels s)\<rparr> \<and>
   ch_id x = c \<and> ch_user x = u \<and> ch_enabled x = b"
proof -
  let ?f = "\<lambda>c. c\<lparr>ch_enabled := b, ch_updated := now\<rparr>"
  let ?cs = "upd (channel_row_of u c) ?f (channels s)"
  obtain y ys where y: "filter (channel_row_of u c) ?cs = y # ys" and x: "x = channel.truncate y"
    and s1: "s1 = s\<lparr>channels := ?cs\<rparr>"
    using assms by (auto simp: enable_stmt_def Let_def split: list.splits)
  have "y \<in> set (filter (channel_row_of u c) ?cs)" unfolding y by simp
  then obtain z where "z \<in> set (channels s)" "y = (if channel_row_of u c z then ?f z else z)"
    "channel_row_of u c y"
    by (auto simp only: set_filter set_upd mem_Collect_eq image_iff)
  then have "ch_id y = c \<and> ch_user y = u \<and> ch_enabled y = b"
    by (cases "channel_row_of u c z") (auto simp: channel_row_of_def)
  then show ?thesis by (simp add: x s1 channel.truncate_def)
qed

lemma SetChannelEnabled_state:
  assumes "SetChannelEnabled oc now u c b s = (r, s')"
  shows "s' = s \<or> (\<exists>x s1. enable_stmt now u c b s = Inr (x, s1) \<and>
    s' = (if b then s1 else cancel_stmt now u c s1))"
  using assms
  by (auto simp: SetChannelEnabled_def split: sum.splits prod.splits if_splits dest!: commit_stateD)

lemma SetChannelEnabled_inv:
  assumes inv: "pipeline_inv L M s" and res: "SetChannelEnabled oc now u c b s = (r, s')"
  shows "pipeline_inv L M s'"
proof -
  let ?cs = "upd (channel_row_of u c) (\<lambda>c. c\<lparr>ch_enabled := b, ch_updated := now\<rparr>) (channels s)"
  have "pipeline_inv L M (s\<lparr>channels := ?cs\<rparr>)" if b
    using that
    by (intro pipeline_inv_channels [OF inv] enable_stmt_keys [OF pipeline_inv_schema [OF inv]])
      (auto intro: active_in_upd_other)
  moreover have "pipeline_inv L M ((cancel_stmt now u c s)\<lparr>channels := ?cs\<rparr>)" if "\<not> b"
  proof (rule pipeline_inv_channels [OF cancel_stmt_inv [OF inv]])
    fix d assume d: "d \<in> set (deliveries (cancel_stmt now u c s))"
      "d_status d = StPending \<or> d_status d = StRetryWait" "active_in (channels (cancel_stmt now u c s)) d"
    then show "active_in ?cs d"
      using cancel_stmt_none [OF d(1)] by (intro active_in_upd_other) (auto simp: waiting_on_def)
  qed (use enable_stmt_keys [OF pipeline_inv_schema [OF inv]] in auto)
  ultimately show ?thesis
    using SetChannelEnabled_state [OF res] inv
    by (auto dest!: enable_stmt_Inr simp: cancel_stmt_commute split: if_splits)
qed

lemma DeleteChannel_state:
  assumes "DeleteChannel oc now u c s = (r, s')"
  shows "s' = s \<or> s' = snd (delete_stmt u c (cancel_stmt now u c s))"
  using assms
  by (auto simp: DeleteChannel_def split: sum.splits prod.splits if_splits dest!: commit_stateD)

lemma DeleteChannel_inv:
  assumes inv: "pipeline_inv L M s" and res: "DeleteChannel oc now u c s = (r, s')"
  shows "pipeline_inv L M s'"
proof -
  have "pipeline_inv L M ((cancel_stmt now u c s)\<lparr>channels := del (channel_row_of u c) (channels s)\<rparr>)"
  proof (rule pipeline_inv_channels [OF cancel_stmt_inv [OF inv]])
    fix d assume d: "d \<in> set (deliveries (cancel_stmt now u c s))"
      "d_status d = StPending \<or> d_status d = StRetryWait" "active_in (channels (cancel_stmt now u c s)) d"
    then show "active_in (del (channel_row_of u c) (channels s)) d"
      using cancel_stmt_none [OF d(1)]
      by (auto simp: active_in_def set_del channel_row_of_def waiting_on_def)
  qed (use pipeline_inv_schema [OF inv] in \<open>auto simp: schema_ok_def intro: distinct_map_del\<close>)
  then show ?thesis
    using DeleteChannel_state [OF res] inv by (auto simp: delete_stmt_def)
qed

end
