(* ===== verification/Relay.thy ===== *)
theory Relay
  imports Kafka Storage Channels
begin

text \<open>
  \<open>internal/notification/relay/relay.go\<close>: the outbox relay. \<open>PublishOne\<close> is written
  once over the three statements it sends to a table (\<open>outbox\<close>: select the next record,
  schedule a retry, mark it published); the two sources of the code, the request events of the
  monolith and the dispatch outbox of the notification service, are the two instances. The
  locale \<open>outbox_table\<close> states what the statements promise, and both instances are
  interpreted.
\<close>

record fetched =
  fe_id :: uuid
  fe_topic :: string
  fe_key :: string
  fe_payload :: string
  fe_type :: string
  fe_version :: int
  fe_attempts :: int

record 's outbox =
  ob_select :: "instant \<Rightarrow> (uuid \<Rightarrow> bool) \<Rightarrow> 's \<Rightarrow> goerr + fetched"
  ob_schedule :: "instant \<Rightarrow> uuid \<Rightarrow> duration \<Rightarrow> 's \<Rightarrow> 's"
  ob_mark :: "instant \<Rightarrow> uuid \<Rightarrow> 's \<Rightarrow> 's"

datatype source = SourceRequests | SourceDispatch | SourceUnknown string

definition source_of :: "string \<Rightarrow> source" where
  "source_of x =
     (if x = ''requests'' then SourceRequests else if x = ''dispatch'' then SourceDispatch
      else SourceUnknown x)"

definition relay_New :: "bool \<Rightarrow> bool \<Rightarrow> source \<Rightarrow> goerr + duration" where
  \<comment> \<open>\<open>pool\<close> and \<open>publisher\<close> say whether the arguments are set; the result is the
    interval of the relay\<close>
  "relay_New pool publisher src =
     (if \<not> pool \<or> \<not> publisher then Inl (plain_err ''relay requires a database and publisher'')
      else
        (case src of
           SourceUnknown _ \<Rightarrow> Inl (plain_err ''unknown relay source'')
         | _ \<Rightarrow> Inr (int64 Second)))"

section \<open>The statements of the two sources\<close>

definition request_ready :: "instant \<Rightarrow> event_row \<Rightarrow> bool" where
  "request_ready now e \<longleftrightarrow> ev_topic e \<noteq> None \<and> ev_published e = None \<and> ev_available e \<le> now"

definition requests_outbox :: "lib \<Rightarrow> mdb outbox" where
  "requests_outbox L =
     \<lparr>ob_select = (\<lambda>now locked s.
        (case select_for_update (\<lambda>e. (ev_created e, ev_id e)) 1 (\<lambda>e. locked (ev_id e))
              (request_ready now) (events s) of
           [] \<Rightarrow> Inl (sentinel_err PgxNoRows)
         | e # _ \<Rightarrow>
             (case (ev_topic e, ev_key e, ev_version e) of
                (Some topic, Some key, Some version) \<Rightarrow>
                  Inr \<lparr>fe_id = ev_id e, fe_topic = topic, fe_key = key,
                    fe_payload = jsonb_text L (ev_payload e), fe_type = ev_type e,
                    fe_version = version, fe_attempts = ev_attempts e\<rparr>
              | _ \<Rightarrow> Inl (plain_err ''cannot scan NULL'')))),
      ob_schedule = (\<lambda>now i backoff s. s\<lparr>events :=
        upd (\<lambda>e. ev_id e = i) (\<lambda>e. e\<lparr>ev_attempts := ev_attempts e + 1,
          ev_available := now + Milliseconds backoff * 1000\<rparr>) (events s)\<rparr>),
      ob_mark = (\<lambda>now i s. s\<lparr>events :=
        upd (\<lambda>e. ev_id e = i) (\<lambda>e. e\<lparr>ev_published := Some now, ev_processed := Some now,
          ev_attempts := ev_attempts e + 1\<rparr>) (events s)\<rparr>)\<rparr>"

definition dispatch_ready :: "instant \<Rightarrow> dispatch_row \<Rightarrow> bool" where
  "dispatch_ready now r \<longleftrightarrow> o_published r = None \<and> o_available r \<le> now"

definition dispatch_outbox :: "lib \<Rightarrow> ndb outbox" where
  "dispatch_outbox L =
     \<lparr>ob_select = (\<lambda>now locked s.
        (case select_for_update (\<lambda>r. (o_available r, o_created r, o_id r)) 1 (\<lambda>r. locked (o_id r))
              (dispatch_ready now) (dispatch s) of
           [] \<Rightarrow> Inl (sentinel_err PgxNoRows)
         | r # _ \<Rightarrow>
             Inr \<lparr>fe_id = o_id r, fe_topic = o_topic r, fe_key = uuid_text L (o_user r),
               fe_payload = jsonb_text L (o_payload r), fe_type = ''notification.'' @ o_kind r,
               fe_version = 1, fe_attempts = o_publish_attempts r\<rparr>)),
      ob_schedule = (\<lambda>now i backoff s. s\<lparr>dispatch :=
        upd (\<lambda>r. o_id r = i) (\<lambda>r. r\<lparr>o_publish_attempts := o_publish_attempts r + 1,
          o_available := now + Milliseconds backoff * 1000\<rparr>) (dispatch s)\<rparr>),
      ob_mark = (\<lambda>now i s. s\<lparr>dispatch :=
        upd (\<lambda>r. o_id r = i) (\<lambda>r. r\<lparr>o_published := Some now,
          o_publish_attempts := o_publish_attempts r + 1\<rparr>) (dispatch s)\<rparr>)\<rparr>"

lemma Itoa_1: "Itoa 1 = ''1''"
  by code_simp

section \<open>PublishOne\<close>

definition relay_backoff :: "int \<Rightarrow> duration" where
  \<comment> \<open>\<open>time.Duration(1<<min(attempts, 6)) * time.Second\<close>, for \<open>attempts >= 0\<close>\<close>
  "relay_backoff attempts = int64 (2 ^ nat (min attempts 6)) * int64 Second"

definition relay_record_of :: "lib \<Rightarrow> fetched \<Rightarrow> relay_record" where
  "relay_record_of L f =
     \<lparr>rr_ID = fe_id f, rr_Topic = fe_topic f, rr_Key = fe_key f, rr_Value = fe_payload f,
      rr_Headers = [''event_id'' \<mapsto> uuid_text L (fe_id f), ''event_type'' \<mapsto> fe_type f,
        ''schema_version'' \<mapsto> Itoa (fe_version f), ''content-type'' \<mapsto> ''application/json'']\<rparr>"

definition PublishOne ::
  "lib \<Rightarrow> 's outbox \<Rightarrow> (nat \<Rightarrow> outcome) \<Rightarrow> produce \<Rightarrow> instant \<Rightarrow> (uuid \<Rightarrow> bool) \<Rightarrow> 's \<times> kafka_msg list \<Rightarrow>
   (bool \<times> goerr option) \<times> 's \<times> kafka_msg list" where
  "PublishOne L ob oc pc now locked st =
     (let (s, kl) = st in
      case call (oc 0) (Inr ()) of
        Inl e \<Rightarrow> ((False, Some (wrap_err ''begin relay transaction'' e)), st)
      | Inr _ \<Rightarrow>
      case call (oc 1) (ob_select ob now locked s) of
        Inl e \<Rightarrow>
          if errors_is e PgxNoRows then ((False, None), st)
          else ((False, Some (wrap_err ''select outbox record'' e)), st)
      | Inr f \<Rightarrow>
          if \<not> json_valid L (fe_payload f)
          then ((False, Some (plain_err ''outbox payload is invalid JSON'')), st)
          else
            let (publishErr, kl1) = Publish pc (relay_record_of L f) kl in
            case publishErr of
              Some pe \<Rightarrow>
                (case call (oc 2) (Inr (ob_schedule ob now (fe_id f) (relay_backoff (fe_attempts f)) s)) of
                   Inl e \<Rightarrow> ((False, Some (wrap_err ''schedule outbox retry'' e)), (s, kl1))
                 | Inr s1 \<Rightarrow>
                     (case commit (oc 3) () s s1 of
                        (Inl e, s2) \<Rightarrow> ((False, Some (wrap_err ''commit outbox retry'' e)), (s2, kl1))
                      | (Inr _, s2) \<Rightarrow> ((False, Some (wrap_err ''publish outbox record'' pe)), (s2, kl1))))
            | None \<Rightarrow>
                (case call (oc 2) (Inr (ob_mark ob now (fe_id f) s)) of
                   Inl e \<Rightarrow> ((False, Some (wrap_err ''mark outbox record published'' e)), (s, kl1))
                 | Inr s1 \<Rightarrow>
                     (case commit (oc 3) () s s1 of
                        (Inl e, s2) \<Rightarrow> ((False, Some (wrap_err ''commit outbox publication'' e)), (s2, kl1))
                      | (Inr _, s2) \<Rightarrow> ((True, None), (s2, kl1)))))"

text \<open>One round of \<open>Run\<close>: what the world does to \<open>PublishOne\<close>, and whether the wait
  after it ends because the context is done.\<close>

record relay_round =
  rl_oc :: "nat \<Rightarrow> outcome"
  rl_pc :: produce
  rl_now :: instant
  rl_locked :: "uuid \<Rightarrow> bool"
  rl_done :: bool

fun Relay_Run :: "lib \<Rightarrow> 's outbox \<Rightarrow> relay_round list \<Rightarrow> 's \<times> kafka_msg list \<Rightarrow> 's \<times> kafka_msg list" where
  "Relay_Run L ob [] st = st"
| "Relay_Run L ob (rl # rls) st =
     (let ((published, err), st1) = PublishOne L ob (rl_oc rl) (rl_pc rl) (rl_now rl) (rl_locked rl) st in
      if published \<and> err = None then Relay_Run L ob rls st1
      else if rl_done rl then st1
      else Relay_Run L ob rls st1)"

lemma PublishOne_cases:
  assumes "PublishOne L ob oc pc now locked (s, kl) = (res, (s', kl'))"
  obtains (idle) "s' = s" "kl' = kl" "fst res = False"
  | (failed) f pe where "ob_select ob now locked s = Inr f"
      "Publish pc (relay_record_of L f) kl = (Some pe, kl')" "fst res = False" "snd res \<noteq> None"
      "s' = s \<or> s' = ob_schedule ob now (fe_id f) (relay_backoff (fe_attempts f)) s"
  | (unmarked) f where "ob_select ob now locked s = Inr f"
      "Publish pc (relay_record_of L f) kl = (None, kl')" "s' = s" "fst res = False" "snd res \<noteq> None"
  | (marked) f where "ob_select ob now locked s = Inr f"
      "Publish pc (relay_record_of L f) kl = (None, kl')" "s' = ob_mark ob now (fe_id f) s"
      "res = (True, None) \<or> fst res = False"
proof (cases "oc 0 = Applied \<and> oc 1 = Applied \<and> (\<exists>f. ob_select ob now locked s = Inr f \<and>
    json_valid L (fe_payload f))")
  case False
  then show ?thesis
    using assms idle
    by (cases "oc 0"; cases "oc 1"; cases "ob_select ob now locked s")
      (auto simp: PublishOne_def call_def split: if_splits)
next
  case True
  then obtain f where f: "oc 0 = Applied" "oc 1 = Applied" "ob_select ob now locked s = Inr f"
    "json_valid L (fe_payload f)" by blast
  obtain pe kl1 where pub: "Publish pc (relay_record_of L f) kl = (pe, kl1)" by fastforce
  show ?thesis
  proof (cases pe)
    case None
    then show ?thesis
      using assms f pub unmarked [OF f(3)] marked [OF f(3)]
      by (cases "oc 2"; cases "oc 3") (auto simp: PublishOne_def call_def commit_def)
  next
    case (Some e)
    then show ?thesis
      using assms f pub failed [OF f(3)]
      by (cases "oc 2"; cases "oc 3") (auto simp: PublishOne_def call_def commit_def)
  qed
qed

section \<open>The contract of an outbox table\<close>

locale outbox_table =
  fixes L :: lib and ob :: "'s outbox" and inv :: "'s \<Rightarrow> bool"
    and published :: "uuid \<Rightarrow> 's \<Rightarrow> bool" and message_of :: "uuid \<Rightarrow> 's \<Rightarrow> kafka_msg option"
  assumes select_pending: "inv s \<Longrightarrow> ob_select ob now locked s = Inr f \<Longrightarrow> \<not> published (fe_id f) s"
    and select_message: "inv s \<Longrightarrow> ob_select ob now locked s = Inr f \<Longrightarrow>
      message_of (fe_id f) s = Some (kafka_of (relay_record_of L f))"
    and schedule_inv: "inv s \<Longrightarrow> inv (ob_schedule ob now i d s)"
    and schedule_published: "published j (ob_schedule ob now i d s) = published j s"
    and schedule_message: "message_of j (ob_schedule ob now i d s) = message_of j s"
    and mark_inv: "inv s \<Longrightarrow> inv (ob_mark ob now i s)"
    and mark_published: "published j (ob_mark ob now i s) \<Longrightarrow> j = i \<or> published j s"
    and mark_keeps: "published j s \<Longrightarrow> published j (ob_mark ob now i s)"
    and mark_message: "message_of j (ob_mark ob now i s) = message_of j s"
begin

definition sent_all :: "'s \<times> kafka_msg list \<Rightarrow> bool" where
  "sent_all st \<longleftrightarrow> inv (fst st) \<and>
     (\<forall>i. published i (fst st) \<longrightarrow> (\<exists>m \<in> set (snd st). message_of i (fst st) = Some m))"

lemma PublishOne_sent_all:
  assumes st: "sent_all (s, kl)" and res: "PublishOne L ob oc pc now locked (s, kl) = (r, (s', kl'))"
  shows "sent_all (s', kl')"
  using res
proof (cases rule: PublishOne_cases)
  case idle
  then show ?thesis using st by simp
next
  case (failed f pe)
  then show ?thesis
    using st Publish_log [OF failed(2)]
    by (auto simp: sent_all_def schedule_inv schedule_published schedule_message)
next
  case (unmarked f)
  then show ?thesis using st Publish_ok [OF unmarked(2)] by (auto simp: sent_all_def)
next
  case (marked f)
  have i: "inv s" using st by (simp add: sent_all_def)
  show ?thesis
    unfolding sent_all_def marked(3) Publish_ok [OF marked(2)] fst_conv snd_conv
  proof (intro conjI allI impI)
    show "inv (ob_mark ob now (fe_id f) s)" by (rule mark_inv [OF i])
    fix j assume "published j (ob_mark ob now (fe_id f) s)"
    then consider "j = fe_id f" | "published j s" using mark_published by blast
    then show "\<exists>m \<in> set (kl @ [kafka_of (relay_record_of L f)]).
        message_of j (ob_mark ob now (fe_id f) s) = Some m"
    proof cases
      case 1
      then show ?thesis using select_message [OF i marked(1)] by (simp add: mark_message)
    next
      case 2
      then show ?thesis using st by (auto simp: sent_all_def mark_message)
    qed
  qed
qed

lemma PublishOne_published:
  assumes "PublishOne L ob oc pc now locked (s, kl) = (r, (s', kl'))"
  shows "published j s \<Longrightarrow> published j s'"
  using assms by (cases rule: PublishOne_cases) (auto simp: schedule_published mark_keeps)

lemma PublishOne_inv:
  assumes "inv s" "PublishOne L ob oc pc now locked (s, kl) = (r, (s', kl'))"
  shows "inv s'"
  using assms(2) by (cases rule: PublishOne_cases) (use assms(1) schedule_inv mark_inv in auto)

lemma Relay_Run_sent_all:
  assumes "sent_all st"
  shows "sent_all (Relay_Run L ob rls st)"
  using assms
proof (induction rls arbitrary: st)
  case (Cons rl rls)
  obtain p e st1 where one: "PublishOne L ob (rl_oc rl) (rl_pc rl) (rl_now rl) (rl_locked rl) st = ((p, e), st1)"
    by (metis surj_pair)
  have "sent_all st1"
    using PublishOne_sent_all [of "fst st" "snd st"] Cons.prems one by (metis prod.collapse)
  then show ?case using Cons.IH one by simp
qed simp

end

lemma bex_upd: "(\<exists>x \<in> set (upd P f xs). Q x) \<longleftrightarrow> (\<exists>x \<in> set xs. Q (if P x then f x else x))"
  by (auto simp: upd_def)

section \<open>The dispatch outbox\<close>

definition dispatch_published :: "uuid \<Rightarrow> ndb \<Rightarrow> bool" where
  "dispatch_published i s \<longleftrightarrow> (\<exists>r \<in> set (dispatch s). o_id r = i \<and> o_published r \<noteq> None)"

definition dispatch_message :: "lib \<Rightarrow> dispatch_row \<Rightarrow> kafka_msg" where
  "dispatch_message L r =
     \<lparr>k_topic = o_topic r, k_key = uuid_text L (o_user r), k_value = jsonb_text L (o_payload r),
      k_headers = [(''event_id'', uuid_text L (o_id r)), (''event_type'', ''notification.'' @ o_kind r),
        (''schema_version'', ''1''), (''content-type'', ''application/json'')]\<rparr>"

definition dispatch_message_of :: "lib \<Rightarrow> uuid \<Rightarrow> ndb \<Rightarrow> kafka_msg option" where
  "dispatch_message_of L i s = map_option (dispatch_message L) (find (\<lambda>r. o_id r = i) (dispatch s))"

lemma find_unique:
  "distinct (map k xs) \<Longrightarrow> x \<in> set xs \<Longrightarrow> k x = a \<Longrightarrow> find (\<lambda>y. k y = a) xs = Some x"
  by (induction xs) auto

lemma find_upd:
  assumes "\<And>x. k (f x) = k x"
  shows "find (\<lambda>x. k x = a) (upd P f xs) = map_option (\<lambda>x. if P x then f x else x) (find (\<lambda>x. k x = a) xs)"
  using assms by (induction xs) (auto simp: upd_def)

lemma pipeline_inv_dispatch:
  assumes inv: "pipeline_inv L M s"
    and f: "\<And>r. o_id (f r) = o_id r \<and> o_delivery (f r) = o_delivery r \<and> o_user (f r) = o_user r \<and>
      o_attempt (f r) = o_attempt r \<and> o_kind (f r) = o_kind r \<and> o_topic (f r) = o_topic r \<and>
      o_payload (f r) = o_payload r \<and> (0 \<le> o_publish_attempts r \<longrightarrow> 0 \<le> o_publish_attempts (f r))"
  shows "pipeline_inv L M (s\<lparr>dispatch := upd P f (dispatch s)\<rparr>)"
proof -
  let ?os = "upd P f (dispatch s)"
  note sch = pipeline_inv_schema [OF inv]
  have keys: "map o_id ?os = map o_id (dispatch s)"
    "map (\<lambda>r. (o_delivery r, o_kind r, o_attempt r)) ?os =
     map (\<lambda>r. (o_delivery r, o_kind r, o_attempt r)) (dispatch s)"
    using f by (auto intro!: map_upd)
  have rows: "\<exists>r' \<in> set ?os. o_delivery r' = o_delivery r \<and> o_user r' = o_user r \<and>
      o_attempt r' = o_attempt r \<and> o_kind r' = o_kind r \<and> o_payload r' = o_payload r"
    if "r \<in> set (dispatch s)" for r
    using that f [of r] upd_changed [of r "dispatch s" P f] upd_kept [of r "dispatch s" P f]
    by (cases "P r") blast+
  have orig: "\<exists>r \<in> set (dispatch s). o_delivery r' = o_delivery r \<and> o_user r' = o_user r \<and>
      o_attempt r' = o_attempt r \<and> o_kind r' = o_kind r \<and> o_topic r' = o_topic r \<and>
      (0 \<le> o_publish_attempts r \<longrightarrow> 0 \<le> o_publish_attempts r')"
    if "r' \<in> set ?os" for r'
    using that by (rule set_updE) (use f in blast)+
  have "schema_ok (s\<lparr>dispatch := ?os\<rparr>)"
  proof -
    have "\<forall>r \<in> set ?os. 0 < o_attempt r \<and> 0 \<le> o_publish_attempts r \<and>
        (o_kind r = ''dlq'' \<and> o_topic r = DLQTopicV1 \<or>
         o_kind r = ''retry'' \<and> IsRetryTopic (o_topic r)) \<and>
        (\<exists>d \<in> set (deliveries s). d_id d = o_delivery r \<and> d_user d = o_user r)"
    proof
      fix r' assume "r' \<in> set ?os"
      from orig [OF this] obtain r where r: "r \<in> set (dispatch s)" "o_delivery r' = o_delivery r"
        "o_user r' = o_user r" "o_attempt r' = o_attempt r" "o_kind r' = o_kind r" "o_topic r' = o_topic r"
        "0 \<le> o_publish_attempts r \<longrightarrow> 0 \<le> o_publish_attempts r'" by blast
      then show "0 < o_attempt r' \<and> 0 \<le> o_publish_attempts r' \<and>
        (o_kind r' = ''dlq'' \<and> o_topic r' = DLQTopicV1 \<or>
         o_kind r' = ''retry'' \<and> IsRetryTopic (o_topic r')) \<and>
        (\<exists>d \<in> set (deliveries s). d_id d = o_delivery r' \<and> d_user d = o_user r')"
        using sch unfolding schema_ok_def r(2-6) by (meson r(1,7))
    qed
    then show ?thesis using sch keys unfolding schema_ok_def by simp
  qed
  moreover have "delivery_ok L M (channels s) ?os d" if "d \<in> set (deliveries s)" for d
  proof -
    have ok: "delivery_ok L M (channels s) (dispatch s) d" by (rule pipeline_inv_delivery [OF inv that])
    have ann: "(\<exists>r \<in> set (dispatch s). announces L d kind r) \<Longrightarrow> (\<exists>r \<in> set ?os. announces L d kind r)" for kind
      using rows unfolding announces_def by metis
    have older: "(\<forall>r \<in> set (dispatch s). o_delivery r = d_id d \<longrightarrow> Q (o_attempt r)) \<Longrightarrow>
        (\<forall>r \<in> set ?os. o_delivery r = d_id d \<longrightarrow> Q (o_attempt r))" for Q
      using orig by metis
    show ?thesis
      using ok ann older [of "\<lambda>n. n \<le> d_attempts d"] older [of "\<lambda>n. n < d_attempts d"]
      unfolding delivery_ok_def by blast
  qed
  ultimately show ?thesis by (simp add: pipeline_inv_def)
qed

lemma dispatch_select:
  assumes "pipeline_inv L M s" "ob_select (dispatch_outbox L) now locked s = Inr f"
  obtains r where "r \<in> set (dispatch s)" "dispatch_ready now r" "fe_id f = o_id r"
    "kafka_of (relay_record_of L f) = dispatch_message L r" "fe_attempts f = o_publish_attempts r"
proof -
  from assms(2) obtain r rs where
    sel: "select_for_update (\<lambda>r. (o_available r, o_created r, o_id r)) 1 (\<lambda>r. locked (o_id r))
              (dispatch_ready now) (dispatch s) = r # rs"
    and f: "f = \<lparr>fe_id = o_id r, fe_topic = o_topic r, fe_key = uuid_text L (o_user r),
               fe_payload = jsonb_text L (o_payload r), fe_type = ''notification.'' @ o_kind r,
               fe_version = 1, fe_attempts = o_publish_attempts r\<rparr>"
    by (auto simp: dispatch_outbox_def split: list.splits)
  have "r \<in> set (r # rs)" by simp
  then have "r \<in> set (dispatch s)" "dispatch_ready now r"
    unfolding sel [symmetric] by (auto dest!: set_select_for_update)
  then show ?thesis
    by (rule that)
      (simp_all add: f kafka_of_def relay_record_of_def published_headers_def dispatch_message_def
        List.map_filter_def Itoa_1)
qed

interpretation dob: outbox_table L "dispatch_outbox L" "pipeline_inv L M" dispatch_published
  "dispatch_message_of L"
proof unfold_locales
  fix s now locked f
  assume i: "pipeline_inv L M s" and sel: "ob_select (dispatch_outbox L) now locked s = Inr f"
  note sch = pipeline_inv_schema [OF i]
  have d: "distinct (map o_id (dispatch s))" using sch by (simp add: schema_ok_def)
  from dispatch_select [OF i sel] obtain r where r: "r \<in> set (dispatch s)" "dispatch_ready now r" "fe_id f = o_id r"
    "kafka_of (relay_record_of L f) = dispatch_message L r" .
  show "\<not> dispatch_published (fe_id f) s"
    using unique_row [OF d] r(1-3) unfolding dispatch_published_def dispatch_ready_def by metis
  show "dispatch_message_of L (fe_id f) s = Some (kafka_of (relay_record_of L f))"
    using find_unique [OF d r(1)] r(3,4) by (simp add: dispatch_message_of_def)
next
  fix s now i j and d :: duration
  show "pipeline_inv L M (ob_schedule (dispatch_outbox L) now i d s)" if "pipeline_inv L M s"
    using pipeline_inv_dispatch [OF that, where f = "\<lambda>r. r\<lparr>o_publish_attempts := o_publish_attempts r + 1,
      o_available := now + Milliseconds d * 1000\<rparr>"] by (simp add: dispatch_outbox_def)
  show "pipeline_inv L M (ob_mark (dispatch_outbox L) now i s)" if "pipeline_inv L M s"
    using pipeline_inv_dispatch [OF that, where f = "\<lambda>r. r\<lparr>o_published := Some now,
      o_publish_attempts := o_publish_attempts r + 1\<rparr>"] by (simp add: dispatch_outbox_def)
  show "dispatch_message_of L j (ob_schedule (dispatch_outbox L) now i d s) = dispatch_message_of L j s"
    "dispatch_message_of L j (ob_mark (dispatch_outbox L) now i s) = dispatch_message_of L j s"
    by (auto simp: dispatch_message_of_def dispatch_outbox_def find_upd option.map_comp comp_def
        dispatch_message_def intro!: map_option_cong)
  show "dispatch_published j (ob_schedule (dispatch_outbox L) now i d s) = dispatch_published j s"
    by (simp add: dispatch_published_def dispatch_outbox_def bex_upd if_distrib cong: if_cong)
  show "j = i \<or> dispatch_published j s" if "dispatch_published j (ob_mark (dispatch_outbox L) now i s)"
    using that by (auto simp: dispatch_published_def dispatch_outbox_def bex_upd split: if_splits)
  show "dispatch_published j (ob_mark (dispatch_outbox L) now i s)" if "dispatch_published j s"
    using that by (auto simp: dispatch_published_def dispatch_outbox_def bex_upd)
qed

section \<open>The request events\<close>

definition event_published :: "uuid \<Rightarrow> mdb \<Rightarrow> bool" where
  "event_published i s \<longleftrightarrow> (\<exists>e \<in> set (events s). ev_id e = i \<and> ev_published e \<noteq> None)"

definition event_message :: "lib \<Rightarrow> event_row \<Rightarrow> kafka_msg" where
  "event_message L e =
     \<lparr>k_topic = the (ev_topic e), k_key = the (ev_key e), k_value = jsonb_text L (ev_payload e),
      k_headers = [(''event_id'', uuid_text L (ev_id e)), (''event_type'', ev_type e),
        (''schema_version'', Itoa (the (ev_version e))), (''content-type'', ''application/json'')]\<rparr>"

definition event_message_of :: "lib \<Rightarrow> uuid \<Rightarrow> mdb \<Rightarrow> kafka_msg option" where
  "event_message_of L i s = map_option (event_message L) (find (\<lambda>e. ev_id e = i) (events s))"

lemma mdb_ok_events:
  assumes ok: "mdb_ok s"
    and f: "\<And>e. ev_id (f e) = ev_id e \<and> ev_type (f e) = ev_type e \<and> ev_aggregate (f e) = ev_aggregate e \<and>
      ev_key (f e) = ev_key e \<and> ev_topic (f e) = ev_topic e \<and> ev_version (f e) = ev_version e \<and>
      (0 \<le> ev_attempts e \<longrightarrow> 0 \<le> ev_attempts (f e))"
  shows "mdb_ok (s\<lparr>events := upd P f (events s)\<rparr>)"
proof -
  let ?es = "upd P f (events s)"
  have ids: "map ev_id ?es = map ev_id (events s)" using f by (auto intro!: map_upd)
  have keys: "map intent_key (filter (\<lambda>e. ev_type e = NotificationRequested) (upd P f es)) =
      map intent_key (filter (\<lambda>e. ev_type e = NotificationRequested) es)" for es
    using f by (induction es) (auto simp: upd_def intent_key_def)
  have "\<forall>e \<in> set ?es. 0 \<le> ev_attempts e \<and>
        (ev_type e = NotificationRequested \<longrightarrow> ev_topic e \<noteq> None \<and> ev_key e \<noteq> None \<and> ev_version e \<noteq> None)"
    using ok f by (auto simp: mdb_ok_def elim!: set_updE)
  then show ?thesis using ok ids keys unfolding mdb_ok_def by simp
qed

lemma event_select:
  assumes "ob_select (requests_outbox L) now locked s = Inr f"
  obtains e where "e \<in> set (events s)" "request_ready now e" "fe_id f = ev_id e"
    "kafka_of (relay_record_of L f) = event_message L e" "fe_attempts f = ev_attempts e"
proof -
  from assms obtain e es where
    sel: "select_for_update (\<lambda>e. (ev_created e, ev_id e)) 1 (\<lambda>e. locked (ev_id e))
              (request_ready now) (events s) = e # es"
    and f: "ev_topic e = Some (fe_topic f)" "ev_key e = Some (fe_key f)" "ev_version e = Some (fe_version f)"
      "fe_id f = ev_id e" "fe_payload f = jsonb_text L (ev_payload e)" "fe_type f = ev_type e"
      "fe_attempts f = ev_attempts e"
    by (auto simp: requests_outbox_def split: list.splits option.splits)
  have "e \<in> set (e # es)" by simp
  then have "e \<in> set (events s)" "request_ready now e"
    unfolding sel [symmetric] by (auto dest!: set_select_for_update)
  then show ?thesis
    by (rule that)
      (simp_all add: f kafka_of_def relay_record_of_def published_headers_def event_message_def
        List.map_filter_def)
qed

interpretation rob: outbox_table L "requests_outbox L" mdb_ok event_published "event_message_of L"
proof unfold_locales
  fix s now locked f
  assume i: "mdb_ok s" and sel: "ob_select (requests_outbox L) now locked s = Inr f"
  have d: "distinct (map ev_id (events s))" using i by (simp add: mdb_ok_def)
  from event_select [OF sel] obtain e where e: "e \<in> set (events s)" "request_ready now e" "fe_id f = ev_id e"
    "kafka_of (relay_record_of L f) = event_message L e" .
  show "\<not> event_published (fe_id f) s"
    using unique_row [OF d] e(1-3) unfolding event_published_def request_ready_def by metis
  show "event_message_of L (fe_id f) s = Some (kafka_of (relay_record_of L f))"
    using find_unique [OF d e(1)] e(3,4) by (simp add: event_message_of_def)
next
  fix s now i j and d :: duration
  show "mdb_ok (ob_schedule (requests_outbox L) now i d s)" if "mdb_ok s"
    using mdb_ok_events [OF that, where f = "\<lambda>e. e\<lparr>ev_attempts := ev_attempts e + 1,
          ev_available := now + Milliseconds d * 1000\<rparr>"] by (simp add: requests_outbox_def)
  show "mdb_ok (ob_mark (requests_outbox L) now i s)" if "mdb_ok s"
    using mdb_ok_events [OF that, where f = "\<lambda>e. e\<lparr>ev_published := Some now, ev_processed := Some now,
          ev_attempts := ev_attempts e + 1\<rparr>"] by (simp add: requests_outbox_def)
  show "event_message_of L j (ob_schedule (requests_outbox L) now i d s) = event_message_of L j s"
    "event_message_of L j (ob_mark (requests_outbox L) now i s) = event_message_of L j s"
    by (auto simp: event_message_of_def requests_outbox_def find_upd option.map_comp comp_def
        event_message_def intro!: map_option_cong)
  show "event_published j (ob_schedule (requests_outbox L) now i d s) = event_published j s"
    by (simp add: event_published_def requests_outbox_def bex_upd if_distrib cong: if_cong)
  show "j = i \<or> event_published j s" if "event_published j (ob_mark (requests_outbox L) now i s)"
    using that by (auto simp: event_published_def requests_outbox_def bex_upd split: if_splits)
  show "event_published j (ob_mark (requests_outbox L) now i s)" if "event_published j s"
    using that by (auto simp: event_published_def requests_outbox_def bex_upd)
qed

section \<open>The backoff\<close>

lemma relay_backoff_value:
  assumes "0 \<le> attempts"
  shows "sint (relay_backoff attempts) = 2 ^ nat (min attempts 6) * Second"
proof -
  have "nat (min attempts 6) \<le> 6" by simp
  then have "(2 :: int) ^ nat (min attempts 6) \<le> 2 ^ 6" by (intro power_increasing) simp_all
  then have le: "(2 :: int) ^ nat (min attempts 6) \<le> 64" by simp
  have ge: "(0 :: int) \<le> 2 ^ nat (min attempts 6)" by simp
  have "relay_backoff attempts = int64 (2 ^ nat (min attempts 6) * Second)"
    by (simp add: relay_backoff_def int64_def)
  moreover have "in_int64 (2 ^ nat (min attempts 6) * Second)"
    unfolding in_int64_def Second_def
  proof
    have "(0 :: int) \<le> 2 ^ nat (min attempts 6) * 1000000000" using ge by simp
    then show "- (2 ^ 63) \<le> 2 ^ nat (min attempts 6) * (1000000000 :: int)" by (rule order_trans [rotated]) simp
    have "2 ^ nat (min attempts 6) * 1000000000 \<le> (64 * 1000000000 :: int)" using le by linarith
    then show "2 ^ nat (min attempts 6) * 1000000000 < (2 ^ 63 :: int)" by (rule order_le_less_trans) simp
  qed
  ultimately show ?thesis by (simp add: sint_int64)
qed

end
