(* ===== verification/PipelineWorker.thy ===== *)
theory PipelineWorker
  imports Retry Channels
begin

text \<open>
  \<open>internal/notification/pipeline/worker.go\<close>: the delivery worker. The Go interface
  \<open>Store\<close> is the record \<open>store\<close> of its methods over a state; what the worker
  needs of a store is the locale \<open>delivery_store\<close>, and the worker's lemmas are proved
  in it. The interpretation at the end discharges the laws for the PostgreSQL repository of
  \<open>NotifStore\<close>, run in an arbitrary environment (\<open>env\<close>: the outcomes of the round
  trips, clocks, locks and random identifiers of every call).
\<close>

record 's store =
  st_Claim :: "int \<Rightarrow> duration \<Rightarrow> string list \<Rightarrow> 's \<Rightarrow> (task list \<times> goerr option) \<times> 's"
  st_MarkSent :: "task \<Rightarrow> 's \<Rightarrow> (goerr + unit) \<times> 's"
  st_MarkFailed :: "task \<Rightarrow> duration \<Rightarrow> string \<Rightarrow> 's \<Rightarrow> (goerr + unit) \<times> 's"
  st_RecoverExpired :: "int \<Rightarrow> int \<Rightarrow> 's \<Rightarrow> (goerr + nat) \<times> 's"

record 's worker =
  w_Store :: "'s store option"
  w_Senders :: "registry option"
  w_Policy :: "policy option"

section \<open>safeErrorCode\<close>

fun api_code :: "goerr \<Rightarrow> int" where
  "api_code (GoErr (ApiError _ code _ _) _) = code"
| "api_code _ = 0"

definition safeErrorCode :: "goerr \<Rightarrow> string" where
  "safeErrorCode err =
     (case errors_as is_api_error err of
        Some telegramError \<Rightarrow>
          if api_code telegramError = 429 then ''telegram_rate_limited''
          else if 500 \<le> api_code telegramError then ''telegram_server_error''
          else ''telegram_rejected''
      | None \<Rightarrow>
      case errors_as is_transport_error err of
        Some _ \<Rightarrow> ''telegram_transport_error''
      | None \<Rightarrow>
      case errors_as is_smtp_error err of
        Some _ \<Rightarrow>
          (case errors_as is_proto_error err of
             Some protocolError \<Rightarrow>
               if 400 \<le> proto_code protocolError \<and> proto_code protocolError < 500
               then ''smtp_transient_error''
               else ''smtp_rejected''
           | None \<Rightarrow> ''smtp_transport_error'')
      | None \<Rightarrow>
          if errors_is err ErrSenderNotRegistered then ''sender_unconfigured''
          else ''provider_error'')"

section \<open>Process\<close>

text \<open>
  \<open>ctx1\<close> is what \<open>ctx.Err\<close> returns after the message was sent, \<open>ctx2\<close> what it
  returns inside \<open>NextDelay\<close>; \<open>rv\<close> is the random number of the jitter and
  \<open>impl\<close> the conversion of a NaN.
\<close>

record chance =
  ctx1 :: ctx
  ctx2 :: ctx
  rv :: f64
  impl :: "f64 \<Rightarrow> duration"

definition send_task :: "registry \<Rightarrow> task \<Rightarrow> goerr option" where
  "send_task senders t =
     (case Registry_Get senders (t_channel_type t) of
        Inl e \<Rightarrow> Some e
      | Inr channelSender \<Rightarrow> channelSender (t_message t))"

definition err_of :: "goerr + 'a \<Rightarrow> goerr option" where
  "err_of r = (case r of Inl e \<Rightarrow> Some e | Inr _ \<Rightarrow> None)"

definition Process ::
  "'s store \<Rightarrow> registry \<Rightarrow> policy option \<Rightarrow> chance \<Rightarrow> task \<Rightarrow> 's \<Rightarrow> goerr option \<times> 's" where
  "Process store senders pol ch t s =
     (case send_task senders t of
        None \<Rightarrow> map_prod err_of id (st_MarkSent store t s)
      | Some err \<Rightarrow>
          (case ctx1 ch of
             Some e \<Rightarrow> (Some e, s)
           | None \<Rightarrow>
               let (delay, shouldRetry) =
                     NextDelay (impl ch) (rv ch) pol (Some (ctx2 ch)) (t_attempts t) (Some err);
                   delay = (if \<not> shouldRetry then 0 else delay)
               in map_prod err_of id (st_MarkFailed store t delay (safeErrorCode err) s)))"

section \<open>Run\<close>

text \<open>
  One round of the loop of \<open>Run\<close>: whether the recovery ticker has fired, what the senders
  answer in it, \<open>ctx.Err\<close> before every task, and what ends the final select. The list of
  the rounds ends when \<open>ctx.Err\<close> is not nil at the head of the loop.
\<close>

datatype wake = CtxDone | PollTick | RecoveryTick

record round =
  rd_recover :: bool
  rd_senders :: registry
  rd_ctx :: "nat \<Rightarrow> ctx"
  rd_chance :: "nat \<Rightarrow> chance"
  rd_wake :: wake

fun run_tasks :: "'s store \<Rightarrow> policy option \<Rightarrow> round \<Rightarrow> nat \<Rightarrow> task list \<Rightarrow> 's \<Rightarrow> 's" where
  "run_tasks store pol rd k [] s = s"
| "run_tasks store pol rd k (t # ts) s =
     (if rd_ctx rd k \<noteq> None then s
      else run_tasks store pol rd (k + 1) ts
             (snd (Process store (rd_senders rd) pol (rd_chance rd k) t s)))"

definition recover :: "'s store \<Rightarrow> 's \<Rightarrow> 's" where
  "recover store s = snd (st_RecoverExpired store 100 8 s)"

fun Run_loop :: "'s store \<Rightarrow> policy option \<Rightarrow> string list \<Rightarrow> round list \<Rightarrow> 's \<Rightarrow> 's" where
  "Run_loop store pol channelTypes [] s = s"
| "Run_loop store pol channelTypes (rd # rds) s =
     (let s1 = (if rd_recover rd then recover store s else s);
          ((tasks, err), s2) = st_Claim store 1 (int64 Minute) channelTypes s1;
          s3 = run_tasks store pol rd 0 tasks s2
      in if length tasks = 1 then Run_loop store pol channelTypes rds s3
         else
           (case rd_wake rd of
              CtxDone \<Rightarrow> s3
            | PollTick \<Rightarrow> Run_loop store pol channelTypes rds s3
            | RecoveryTick \<Rightarrow> Run_loop store pol channelTypes rds (recover store s3)))"

definition Worker_Run :: "'s worker \<Rightarrow> string list \<Rightarrow> round list \<Rightarrow> 's \<Rightarrow> goerr option \<times> 's" where
  \<comment> \<open>\<open>channelTypes\<close> lists the keys of the registry, in the order of the map iteration\<close>
  "Worker_Run w channelTypes rds s =
     (case (w_Store w, w_Policy w, w_Senders w) of
        (Some store, Some pol, Some senders) \<Rightarrow>
          (None, Run_loop store (Some pol) channelTypes rds (recover store s))
      | _ \<Rightarrow> (Some (plain_err ''delivery worker is not configured''), s))"

section \<open>The contract of a store\<close>

locale delivery_store =
  fixes store :: "'s store" and inv :: "'s \<Rightarrow> bool" and held :: "task \<Rightarrow> 's \<Rightarrow> bool" and max_att :: int
  assumes claim_inv: "inv s \<Longrightarrow> st_Claim store n lease types s = (r, s') \<Longrightarrow> inv s'"
    and claim_held: "inv s \<Longrightarrow> st_Claim store n lease types s = (r, s') \<Longrightarrow> t \<in> set (fst r) \<Longrightarrow> held t s'"
    and claim_limit: "inv s \<Longrightarrow> st_Claim store n lease types s = (r, s') \<Longrightarrow> length (fst r) \<le> nat n"
    and sent_inv: "inv s \<Longrightarrow> st_MarkSent store t s = (r', s') \<Longrightarrow> inv s'"
    and sent_held: "held t s \<Longrightarrow> st_MarkSent store u s = (r', s') \<Longrightarrow> held t s'"
    and failed_inv: "inv s \<Longrightarrow> held t s \<Longrightarrow> (0 < sint delay \<Longrightarrow> t_attempts t < max_att) \<Longrightarrow>
      st_MarkFailed store t delay code s = (r', s') \<Longrightarrow> inv s'"
    and failed_held: "held t s \<Longrightarrow> st_MarkFailed store u delay code s = (r', s') \<Longrightarrow> held t s'"
    and recover_inv: "inv s \<Longrightarrow> st_RecoverExpired store n max_att s = (r'', s') \<Longrightarrow> inv s'"
begin

lemma Process_held: "held t s \<Longrightarrow> held t (snd (Process store senders pol ch u s))"
  by (auto simp: Process_def Let_def map_prod_def split: option.splits prod.splits if_splits
      intro: sent_held failed_held)

lemma Process_inv:
  assumes i: "inv s" and h: "held t s" and p: "maxAttempts p \<le> max_att"
  shows "inv (snd (Process store senders (Some p) ch t s))"
proof (cases "send_task senders t")
  case None
  then show ?thesis
    using sent_inv [OF i, of t] by (cases "st_MarkSent store t s") (simp add: Process_def)
next
  case (Some err)
  show ?thesis
  proof (cases "ctx1 ch")
    case None
    obtain d b where nd: "NextDelay (impl ch) (rv ch) (Some p) (Some (ctx2 ch)) (t_attempts t) (Some err) = (d, b)"
      by fastforce
    define delay where "delay = (if \<not> b then 0 else d)"
    have "t_attempts t < max_att" if "0 < sint delay"
    proof -
      have b using that by (auto simp: delay_def split: if_splits)
      then have "t_attempts t < maxAttempts p"
        using NextDelay_value(3) [of "impl ch" "rv ch" p "Some (ctx2 ch)" "t_attempts t" "Some err" d] nd by simp
      then show ?thesis using p by simp
    qed
    then show ?thesis
      using failed_inv [OF i h, of delay "safeErrorCode err"] Some None nd
      by (cases "st_MarkFailed store t delay (safeErrorCode err) s")
        (simp add: Process_def delay_def Let_def)
  qed (use Some i in \<open>simp add: Process_def\<close>)
qed

lemma run_tasks_inv:
  assumes "inv s" "\<forall>t \<in> set ts. held t s" "maxAttempts p \<le> max_att"
  shows "inv (run_tasks store (Some p) rd k ts s)"
  using assms
proof (induction ts arbitrary: k s)
  case (Cons t ts)
  have "\<forall>u \<in> set ts. held u (snd (Process store (rd_senders rd) (Some p) (rd_chance rd k) t s))"
    using Cons.prems(2) by (auto intro: Process_held)
  then show ?case
    using Cons.IH [OF Process_inv [OF Cons.prems(1) _ Cons.prems(3)]] Cons.prems by simp
qed simp

lemma recover_keeps: "inv s \<Longrightarrow> max_att = 8 \<Longrightarrow> inv (recover store s)"
  using recover_inv [of s 100] by (cases "st_RecoverExpired store 100 8 s") (auto simp: recover_def)

lemma Run_loop_inv:
  assumes "inv s" "maxAttempts p \<le> max_att" "max_att = 8"
  shows "inv (Run_loop store (Some p) types rds s)"
  using assms(1)
proof (induction rds arbitrary: s)
  case (Cons rd rds)
  define s1 where "s1 = (if rd_recover rd then recover store s else s)"
  obtain tasks err s2 where cl: "st_Claim store 1 (int64 Minute) types s1 = ((tasks, err), s2)"
    by (metis prod.exhaust)
  have i1: "inv s1" using Cons.prems recover_keeps assms(3) by (simp add: s1_def)
  have "inv s2" "\<forall>t \<in> set tasks. held t s2"
    using claim_inv [OF i1 cl] claim_held [OF i1 cl] by auto
  then have i3: "inv (run_tasks store (Some p) rd 0 tasks s2)"
    using run_tasks_inv assms(2) by blast
  then show ?case
    using Cons.IH [OF i3] Cons.IH [OF recover_keeps [OF i3 assms(3)]] cl
    by (simp add: s1_def [symmetric] Let_def split: wake.split)
qed simp

lemma Worker_Run_inv:
  assumes "inv s" "maxAttempts p \<le> max_att" "max_att = 8"
    and "w_Store w = Some store" "w_Policy w = Some p"
  shows "inv (snd (Worker_Run w types rds s))"
  using assms Run_loop_inv [OF recover_keeps [OF assms(1,3)] assms(2,3)]
  by (cases "w_Senders w") (simp_all add: Worker_Run_def)

end

section \<open>The PostgreSQL store\<close>

record env =
  e_oc :: "nat \<Rightarrow> outcome"
  e_brk :: "nat option"
  e_now :: instant
  e_clock :: instant
  e_locked :: "uuid \<Rightarrow> bool"
  e_tok :: "uuid \<Rightarrow> uuid"
  e_id :: uuid
  e_fresh :: "uuid \<Rightarrow> uuid"

text \<open>The state is the database and the number of calls made: call \<open>k\<close> runs in \<open>E k\<close>.\<close>

definition pg_store :: "lib \<Rightarrow> (nat \<Rightarrow> env) \<Rightarrow> (ndb \<times> nat) store" where
  "pg_store L E =
     \<lparr>st_Claim = (\<lambda>n lease types (s, k).
        let (r, s') = Claim L (e_oc (E k) 0) (e_brk (E k)) (e_now (E k)) (e_locked (E k)) (e_tok (E k))
              n lease types s in (r, (s', k + 1))),
      st_MarkSent = (\<lambda>t (s, k).
        let (r, s') = MarkSent (e_oc (E k) 0) (e_now (E k)) t s in (r, (s', k + 1))),
      st_MarkFailed = (\<lambda>t delay code (s, k).
        let (r, s') = MarkFailed L (e_oc (E k)) (e_now (E k)) (e_clock (E k)) (e_id (E k)) t delay code s
        in (r, (s', k + 1))),
      st_RecoverExpired = (\<lambda>limit m (s, k).
        let (r, s') = RecoverExpired L (e_oc (E k)) (e_now (E k)) (e_locked (E k)) (e_fresh (E k)) limit m s
        in (r, (s', k + 1)))\<rparr>"

interpretation pg: delivery_store "pg_store L E" "\<lambda>s. pipeline_inv L 8 (fst s)" "\<lambda>t s. agrees t (fst s)" 8
proof unfold_locales
  fix s s' :: "ndb \<times> nat" and n lease types r
  assume i: "pipeline_inv L 8 (fst s)" and c: "st_Claim (pg_store L E) n lease types s = (r, s')"
  then obtain oc brk now locked tok where
    c': "Claim L oc brk now locked tok n lease types (fst s) = (r, fst s')"
    by (auto simp: pg_store_def split: prod.splits)
  show "pipeline_inv L 8 (fst s')" by (rule Claim_inv [OF i c'])
  show "length (fst r) \<le> nat n" by (rule Claim_length [OF pipeline_inv_schema [OF i] c'])
  show "agrees t (fst s')" if "t \<in> set (fst r)" for t
    by (rule Claim_agrees [OF pipeline_inv_schema [OF i] c' that])
next
  fix s s' :: "ndb \<times> nat" and t delay code r
  assume i: "pipeline_inv L 8 (fst s)" "agrees t (fst s)" "0 < sint delay \<Longrightarrow> t_attempts t < 8"
    and f: "st_MarkFailed (pg_store L E) t delay code s = (r, s')"
  then obtain oc now clock j where
    "MarkFailed L oc now clock j t delay code (fst s) = (r, fst s')"
    by (auto simp: pg_store_def split: prod.splits)
  then show "pipeline_inv L 8 (fst s')"
    by (rule MarkFailed_inv [OF i(1) i(2) [unfolded agrees_def], rotated]) (rule i(3))
qed (auto simp: pg_store_def split: prod.splits intro: MarkSent_inv MarkSent_agrees MarkFailed_agrees
    RecoverExpired_inv)

end
