(* ===== verification/Consumer.thy ===== *)
theory Consumer
  imports Kafka PipelineWorker
begin

text \<open>
  \<open>internal/notification/pipeline/consumer.go\<close>: the Kafka consumer. Its store is the
  record \<open>inbox_store\<close> of the Go interface's methods; the locale \<open>event_inbox\<close> states what
  the consumer needs of it, and the lemma on committed records is proved there. The
  interpretation at the end is the PostgreSQL repository.
\<close>

record 's inbox_store =
  in_AcceptRequest :: "requested \<Rightarrow> string \<Rightarrow> 's \<Rightarrow> (goerr + unit) \<times> 's"
  in_ResumeRetry :: "retry_event \<Rightarrow> 's \<Rightarrow> (goerr + unit) \<times> 's"

section \<open>Process\<close>

definition source_name :: "kafka_record \<Rightarrow> string" where
  "source_name source = k_topic source @ ''/'' @ Itoa (k_partition source) @ ''/'' @ Itoa (k_offset source)"

definition invalid_id :: "lib \<Rightarrow> kafka_record \<Rightarrow> uuid" where
  "invalid_id L source = uuid_sha1_url L (source_name source)"

definition invalid_record :: "lib \<Rightarrow> instant \<Rightarrow> kafka_record \<Rightarrow> string \<Rightarrow> relay_record" where
  "invalid_record L clock source reason =
     (let i = uuid_text L (invalid_id L source) in
      \<lparr>rr_ID = invalid_id L source, rr_Topic = DLQTopicV1, rr_Key = i,
       rr_Value = json_text L (JObj
         [(''source_topic'', JStr (k_topic source)), (''partition'', JNum (Itoa (k_partition source))),
          (''offset'', JNum (Itoa (k_offset source))), (''error_code'', JStr reason),
          (''occurred_at'', JStr (time_text L clock))]),
       rr_Headers = [''event_id'' \<mapsto> i, ''event_type'' \<mapsto> ''notification.invalid'',
         ''schema_version'' \<mapsto> ''1'', ''content-type'' \<mapsto> ''application/json'']\<rparr>)"

text \<open>The state is the store's and the log of what was published.\<close>

definition publishInvalid ::
  "lib \<Rightarrow> produce \<Rightarrow> instant \<Rightarrow> kafka_record \<Rightarrow> string \<Rightarrow> 's \<times> kafka_msg list \<Rightarrow>
   goerr option \<times> 's \<times> kafka_msg list" where
  "publishInvalid L pc clock source reason st =
     (let (e, kl) = Publish pc (invalid_record L clock source reason) (snd st) in (e, (fst st, kl)))"

definition Consumer_Process ::
  "lib \<Rightarrow> 's inbox_store \<Rightarrow> produce \<Rightarrow> instant \<Rightarrow> kafka_record option \<Rightarrow> 's \<times> kafka_msg list \<Rightarrow>
   goerr option \<times> 's \<times> kafka_msg list" where
  "Consumer_Process L store pc clock rec st =
     (case rec of
        None \<Rightarrow> (Some (plain_err ''nil Kafka record''), st)
      | Some source \<Rightarrow>
          let hs = record_headers (k_headers source) in
          if k_topic source = RequestsTopicV1 then
            (case DecodeRequested L (k_key source) hs (k_value source) of
               Inl _ \<Rightarrow> publishInvalid L pc clock source ''invalid_request'' st
             | Inr event \<Rightarrow>
                 (case in_AcceptRequest store event (k_value source) (fst st) of
                    (Inl err, s) \<Rightarrow>
                      if errors_is err ErrIdentityConflict
                      then publishInvalid L pc clock source ''identity_conflict'' (s, snd st)
                      else (Some err, (s, snd st))
                  | (Inr _, s) \<Rightarrow> (None, (s, snd st))))
          else if \<not> IsRetryTopic (k_topic source) then
            publishInvalid L pc clock source ''invalid_topic'' st
          else if header hs ''event_type'' \<noteq> ''notification.retry'' \<or>
              header hs ''schema_version'' \<noteq> ''1'' \<or>
              header hs ''content-type'' \<noteq> ''application/json'' then
            publishInvalid L pc clock source ''invalid_retry'' st
          else if uuid_parse L (header hs ''event_id'') = None then
            publishInvalid L pc clock source ''invalid_retry'' st
          else
            (case DecodeRetry L (k_key source) (k_value source) of
               Inl _ \<Rightarrow> publishInvalid L pc clock source ''invalid_retry'' st
             | Inr event \<Rightarrow>
                 (case in_ResumeRetry store event (fst st) of
                    (Inl err, s) \<Rightarrow> (Some err, (s, snd st))
                  | (Inr _, s) \<Rightarrow> (None, (s, snd st)))))"

definition is_request :: "lib \<Rightarrow> kafka_record \<Rightarrow> requested \<Rightarrow> bool" where
  "is_request L source event \<longleftrightarrow>
     k_topic source = RequestsTopicV1 \<and>
     DecodeRequested L (k_key source) (record_headers (k_headers source)) (k_value source) = Inr event"

lemma Consumer_Process_cases:
  assumes "Consumer_Process L store pc clock (Some source) st = (e, st')"
  obtains (invalid) reason where "publishInvalid L pc clock source reason st = (e, st')"
  | (conflict) event err s where "is_request L source event"
      "in_AcceptRequest store event (k_value source) (fst st) = (Inl err, s)"
      "errors_is err ErrIdentityConflict"
      "publishInvalid L pc clock source ''identity_conflict'' (s, snd st) = (e, st')"
  | (failed) event err s where "is_request L source event"
      "in_AcceptRequest store event (k_value source) (fst st) = (Inl err, s)"
      "e = Some err" "st' = (s, snd st)"
  | (accepted) event s where "is_request L source event"
      "in_AcceptRequest store event (k_value source) (fst st) = (Inr (), s)" "e = None" "st' = (s, snd st)"
  | (resumed) event r s where "k_topic source \<noteq> RequestsTopicV1"
      "in_ResumeRetry store event (fst st) = (r, s)" "st' = (s, snd st)"
      "e = (case r of Inl err \<Rightarrow> Some err | Inr _ \<Rightarrow> None)"
proof (cases "k_topic source = RequestsTopicV1")
  case True
  show ?thesis
  proof (cases "DecodeRequested L (k_key source) (record_headers (k_headers source)) (k_value source)")
    case (Inl err)
    then show ?thesis using assms True invalid by (simp add: Consumer_Process_def)
  next
    case (Inr event)
    then have req: "is_request L source event" using True by (simp add: is_request_def)
    obtain r s where r: "in_AcceptRequest store event (k_value source) (fst st) = (r, s)" by fastforce
    show ?thesis
    proof (cases r)
      case (Inl err)
      then show ?thesis
        using assms True Inr r conflict [OF req] failed [OF req]
        by (cases "errors_is err ErrIdentityConflict") (simp_all add: Consumer_Process_def)
    qed (use assms True Inr r accepted [OF req] in \<open>simp add: Consumer_Process_def\<close>)
  qed
next
  case topic: False
  let ?hs = "record_headers (k_headers source)"
  show ?thesis
  proof (cases "IsRetryTopic (k_topic source) \<and> header ?hs ''event_type'' = ''notification.retry'' \<and>
      header ?hs ''schema_version'' = ''1'' \<and> header ?hs ''content-type'' = ''application/json'' \<and>
      uuid_parse L (header ?hs ''event_id'') \<noteq> None")
    case False
    then show ?thesis
      using assms topic invalid by (auto simp: Consumer_Process_def Let_def split: if_splits)
  next
    case ok: True
    show ?thesis
    proof (cases "DecodeRetry L (k_key source) (k_value source)")
      case (Inl err)
      then show ?thesis using assms topic ok invalid by (auto simp: Consumer_Process_def)
    next
      case (Inr event)
      obtain r s where r: "in_ResumeRetry store event (fst st) = (r, s)" by fastforce
      then show ?thesis
        using assms topic ok Inr resumed [OF topic r]
        by (cases r) (auto simp: Consumer_Process_def)
    qed
  qed
qed

section \<open>Run\<close>

text \<open>
  One poll of the loop of \<open>Run\<close> over a partition: an error of the fetch (with what
  \<open>ctx.Err\<close> says then), no record, or the next record, with what the broker does to a
  publish and to the commit of the offset. \<open>pos\<close> is the next offset to fetch,
  \<open>committed\<close> the group's committed offset. A run that ends (the list of the polls is the
  time until \<open>ctx\<close> is done) starts again at the committed offset.
\<close>

datatype commit_result = Committed | NotCommitted goerr | CommitUnknown goerr

datatype poll =
    FetchError goerr "goerr option"
  | NoRecord
  | NextRecord produce instant commit_result

record 's consumer_state =
  c_st :: "'s \<times> kafka_msg list"
  c_pos :: nat
  c_committed :: nat

definition commit_record :: "commit_result \<Rightarrow> 's consumer_state \<Rightarrow> goerr option \<times> 's consumer_state" where
  "commit_record cr c =
     (let c' = c\<lparr>c_committed := c_pos c\<rparr> in
      case cr of Committed \<Rightarrow> (None, c') | NotCommitted e \<Rightarrow> (Some e, c) | CommitUnknown e \<Rightarrow> (Some e, c'))"

fun Consumer_loop ::
  "lib \<Rightarrow> 's inbox_store \<Rightarrow> kafka_record list \<Rightarrow> poll list \<Rightarrow> 's consumer_state \<Rightarrow>
   goerr option \<times> 's consumer_state" where
  "Consumer_loop L store part [] c = (None, c)"
| "Consumer_loop L store part (FetchError e ctx # ps) c =
     (if ctx \<noteq> None then (None, c) else (Some (wrap_err ''poll Kafka records'' e), c))"
| "Consumer_loop L store part (NoRecord # ps) c = Consumer_loop L store part ps c"
| "Consumer_loop L store part (NextRecord pc clock cr # ps) c =
     (if length part \<le> c_pos c then Consumer_loop L store part ps c
      else
        let (e, st) = Consumer_Process L store pc clock (Some (part ! c_pos c)) (c_st c);
            c1 = c\<lparr>c_st := st, c_pos := c_pos c + 1\<rparr>
        in case e of
             Some err \<Rightarrow> (Some (wrap_err ''process Kafka notification'' err), c1)
           | None \<Rightarrow>
               (case commit_record cr c1 of
                  (Some err, c2) \<Rightarrow> (Some (wrap_err ''process Kafka notification'' err), c2)
                | (None, c2) \<Rightarrow> Consumer_loop L store part ps c2))"

text \<open>\<open>Run\<close>, from the committed offset; \<open>ok\<close> says that client, store and publisher are set.\<close>

definition Consumer_Run ::
  "lib \<Rightarrow> 's inbox_store \<Rightarrow> bool \<Rightarrow> kafka_record list \<Rightarrow> poll list \<Rightarrow> 's consumer_state \<Rightarrow>
   goerr option \<times> 's consumer_state" where
  "Consumer_Run L store ok part ps c =
     (if \<not> ok then (Some (plain_err ''notification consumer is not configured''), c)
      else Consumer_loop L store part ps (c\<lparr>c_pos := c_committed c\<rparr>))"

text \<open>Several runs, each after the one before has stopped, or its process has died.\<close>

fun Consumer_runs ::
  "lib \<Rightarrow> 's inbox_store \<Rightarrow> kafka_record list \<Rightarrow> poll list list \<Rightarrow> 's consumer_state \<Rightarrow> 's consumer_state" where
  "Consumer_runs L store part [] c = c"
| "Consumer_runs L store part (ps # pss) c =
     Consumer_runs L store part pss (snd (Consumer_Run L store True part ps c))"

section \<open>The contract of the inbox\<close>

definition rejected :: "lib \<Rightarrow> kafka_record \<Rightarrow> kafka_msg list \<Rightarrow> bool" where
  \<comment> \<open>the dead letter of a record that cannot be accepted\<close>
  "rejected L source kl \<longleftrightarrow>
     (\<exists>clock reason. kafka_of (invalid_record L clock source reason) \<in> set kl)"

locale event_inbox =
  fixes L :: lib and store :: "'s inbox_store" and inv :: "'s \<Rightarrow> bool" and stored :: "uuid \<Rightarrow> 's \<Rightarrow> bool"
  assumes accept_inv: "inv s \<Longrightarrow> in_AcceptRequest store event payload s = (r, s') \<Longrightarrow> inv s'"
    and accept_keeps: "stored i s \<Longrightarrow> in_AcceptRequest store event payload s = (r, s') \<Longrightarrow> stored i s'"
    and accept_stores: "in_AcceptRequest store event payload s = (Inr u, s') \<Longrightarrow> stored (EventID event) s'"
    and resume_inv: "inv s \<Longrightarrow> in_ResumeRetry store ev s = (r, s') \<Longrightarrow> inv s'"
    and resume_keeps: "stored i s \<Longrightarrow> in_ResumeRetry store ev s = (r, s') \<Longrightarrow> stored i s'"
begin

definition handled :: "kafka_record \<Rightarrow> 's \<times> kafka_msg list \<Rightarrow> bool" where
  "handled source st \<longleftrightarrow> k_topic source = RequestsTopicV1 \<longrightarrow>
     rejected L source (snd st) \<or> (\<exists>event. is_request L source event \<and> stored (EventID event) (fst st))"

lemma publishInvalid_frame:
  assumes "publishInvalid L pc clock source reason st = (e, st')"
  shows "fst st' = fst st" "set (snd st) \<subseteq> set (snd st')" "e = None \<Longrightarrow> rejected L source (snd st')"
  using assms Publish_log Publish_ok
  by (fastforce simp: publishInvalid_def rejected_def split: prod.splits)+

lemma Process_inv:
  assumes "inv (fst st)" "Consumer_Process L store pc clock (Some source) st = (e, st')"
  shows "inv (fst st')"
  using assms(2)
proof (cases rule: Consumer_Process_cases)
  case (invalid reason)
  then show ?thesis using assms(1) publishInvalid_frame(1) by metis
next
  case (conflict event err s)
  then show ?thesis using accept_inv [OF assms(1)] publishInvalid_frame(1) by (metis fst_conv)
qed (use accept_inv [OF assms(1)] resume_inv [OF assms(1)] in auto)

lemma Process_keeps:
  assumes "Consumer_Process L store pc clock (Some source) st = (e, st')"
  shows "(stored i (fst st) \<longrightarrow> stored i (fst st')) \<and> set (snd st) \<subseteq> set (snd st')"
  using assms
proof (cases rule: Consumer_Process_cases)
  case (invalid reason)
  then show ?thesis using publishInvalid_frame(1,2) by metis
next
  case (conflict event err s)
  then show ?thesis
    using accept_keeps [OF _ conflict(2)] publishInvalid_frame(1,2) [OF conflict(4)] by simp
next
  case (failed event err s)
  then show ?thesis using accept_keeps [OF _ failed(2)] by simp
next
  case (accepted event s)
  then show ?thesis using accept_keeps [OF _ accepted(2)] by simp
next
  case (resumed event r s)
  then show ?thesis using resume_keeps [OF _ resumed(2)] by simp
qed

lemma handled_keeps:
  assumes "handled source st" "\<And>i. stored i (fst st) \<Longrightarrow> stored i (fst st')" "set (snd st) \<subseteq> set (snd st')"
  shows "handled source st'"
  using assms unfolding handled_def rejected_def by blast

lemma Process_handles:
  assumes "Consumer_Process L store pc clock (Some source) st = (None, st')"
  shows "handled source st'"
  using assms
proof (cases rule: Consumer_Process_cases)
  case (invalid reason)
  then show ?thesis using publishInvalid_frame(3) [OF invalid] by (simp add: handled_def)
next
  case (conflict event err s)
  then show ?thesis using publishInvalid_frame(3) [OF conflict(4)] by (simp add: handled_def)
qed (use accept_stores in \<open>auto simp: handled_def\<close>)

definition progress :: "kafka_record list \<Rightarrow> 's consumer_state \<Rightarrow> bool" where
  "progress part c \<longleftrightarrow> inv (fst (c_st c)) \<and> c_committed c \<le> c_pos c \<and> c_pos c \<le> length part \<and>
     (\<forall>i < c_committed c. handled (part ! i) (c_st c))"

lemma commit_record_cases:
  assumes "commit_record cr c = (e, c')"
  shows "c' = c \<or> c' = c\<lparr>c_committed := c_pos c\<rparr>" "e = None \<Longrightarrow> c' = c\<lparr>c_committed := c_pos c\<rparr>"
  using assms by (auto simp: commit_record_def Let_def split: commit_result.splits)

text \<open>Inside a run every record before the position has been handled.\<close>

lemma Consumer_loop_progress:
  assumes "progress part c" "\<forall>i < c_pos c. handled (part ! i) (c_st c)"
  shows "progress part (snd (Consumer_loop L store part ps c))"
  using assms
proof (induction ps arbitrary: c)
  case (Cons p ps)
  consider (fetch) e ctx where "p = FetchError e ctx" | (none) "p = NoRecord"
    | (rec) pc clock cr where "p = NextRecord pc clock cr" by (cases p)
  then show ?case
  proof cases
    case rec
    show ?thesis
    proof (cases "length part \<le> c_pos c")
      case True
      then show ?thesis using Cons rec by simp
    next
      case False
      obtain e st where pr: "Consumer_Process L store pc clock (Some (part ! c_pos c)) (c_st c) = (e, st)"
        by (metis surj_pair)
      let ?c1 = "c\<lparr>c_st := st, c_pos := c_pos c + 1\<rparr>"
      have i1: "inv (fst st)" using Process_inv [OF _ pr] Cons.prems(1) by (simp add: progress_def)
      have old: "\<forall>i < c_pos c. handled (part ! i) st"
        using Cons.prems(2) handled_keeps Process_keeps [OF pr] by blast
      have p1: "progress part ?c1"
        using Cons.prems(1) old i1 False by (simp add: progress_def)
      show ?thesis
      proof (cases e)
        case (Some err)
        then show ?thesis using p1 pr False rec by simp
      next
        case None
        obtain e2 c2 where cm: "commit_record cr ?c1 = (e2, c2)" by fastforce
        have h1: "\<forall>i < c_pos ?c1. handled (part ! i) (c_st ?c1)"
          using old Process_handles pr None by (auto simp: less_Suc_eq)
        have c2: "c2 = ?c1 \<or> c2 = ?c1\<lparr>c_committed := c_pos ?c1\<rparr>" by (rule commit_record_cases(1) [OF cm])
        then have "progress part c2 \<and> (\<forall>i < c_pos c2. handled (part ! i) (c_st c2))"
          using p1 h1 by (auto simp: progress_def)
        then show ?thesis
          using Cons.IH [of c2] False pr None cm rec by (auto split: option.splits)
      qed
    qed
  qed (use Cons in auto)
qed simp

lemma Consumer_runs_progress:
  assumes "progress part c"
  shows "progress part (Consumer_runs L store part pss c)"
  using assms
proof (induction pss arbitrary: c)
  case (Cons ps pss)
  have "progress part (c\<lparr>c_pos := c_committed c\<rparr>)"
    "\<forall>i < c_pos (c\<lparr>c_pos := c_committed c\<rparr>). handled (part ! i) (c_st (c\<lparr>c_pos := c_committed c\<rparr>))"
    using Cons.prems by (auto simp: progress_def)
  then show ?case
    using Cons.IH Consumer_loop_progress by (simp add: Consumer_Run_def)
qed simp

end

section \<open>The PostgreSQL inbox\<close>

definition has_event :: "uuid \<Rightarrow> ndb \<Rightarrow> bool" where
  "has_event i s \<longleftrightarrow> (\<exists>r \<in> set (inbox s). in_event r = i)"

lemma AcceptRequest_inbox:
  assumes "AcceptRequest L oc fresh now event payload s = (r, s')"
  shows "inbox s' = inbox s \<or> (\<exists>j. inbox s' = inbox s @ [inbox_entry now event j])"
  using AcceptRequest_state [OF assms] by (auto dest!: insert_inbox_Inr insert_deliveries_Inr)

lemma AcceptRequest_Inr:
  assumes "AcceptRequest L oc fresh now event payload s = (Inr u, s')"
  shows "has_event (EventID event) s'"
proof -
  obtain n s1 where ins: "insert_inbox L now event payload s = Inr (n, s1)"
    using assms by (auto simp: AcceptRequest_def split: sum.splits)
  show ?thesis
  proof (cases "n = 0")
    case True
    then have "s' = s"
      using insert_inbox_Inr [OF ins] assms ins
      by (auto simp: AcceptRequest_def split: sum.splits if_splits dest!: commit_stateD)
    then show ?thesis using insert_inbox_Inr [OF ins] True by (auto simp: has_event_def)
  next
    case False
    then have n: "n = 1" using insert_inbox_Inr [OF ins] by simp
    then have "insert_deliveries fresh now event s1 = Inr s'"
      using assms ins by (auto simp: AcceptRequest_def commit_Inr split: sum.splits)
    then have "inbox s' = inbox s1" by (auto dest!: insert_deliveries_Inr)
    then show ?thesis
      using insert_inbox_Inr [OF ins] n by (auto simp: has_event_def inbox_entry_def)
  qed
qed

definition pg_inbox :: "lib \<Rightarrow> (nat \<Rightarrow> env) \<Rightarrow> (ndb \<times> nat) inbox_store" where
  "pg_inbox L E =
     \<lparr>in_AcceptRequest = (\<lambda>event payload (s, k).
        let (r, s') = AcceptRequest L (e_oc (E k)) (e_fresh (E k)) (e_now (E k)) event payload s
        in (r, (s', k + 1))),
      in_ResumeRetry = (\<lambda>event (s, k).
        let (r, s') = ResumeRetry (e_oc (E k) 0) (e_now (E k)) event s in (r, (s', k + 1)))\<rparr>"

interpretation pgi: event_inbox L "pg_inbox L E" "\<lambda>s. pipeline_inv L 8 (fst s)" "\<lambda>i s. has_event i (fst s)"
proof unfold_locales
  fix s s' :: "ndb \<times> nat" and event payload r
  assume c: "in_AcceptRequest (pg_inbox L E) event payload s = (r, s')"
  then obtain oc fresh now where a: "AcceptRequest L oc fresh now event payload (fst s) = (r, fst s')"
    by (auto simp: pg_inbox_def split: prod.splits)
  show "pipeline_inv L 8 (fst s')" if "pipeline_inv L 8 (fst s)"
    by (rule AcceptRequest_inv [OF that _ a]) simp
  show "has_event i (fst s')" if "has_event i (fst s)" for i
    using AcceptRequest_inbox [OF a] that by (auto simp: has_event_def)
next
  fix s s' :: "ndb \<times> nat" and event payload u
  assume "in_AcceptRequest (pg_inbox L E) event payload s = (Inr u, s')"
  then show "has_event (EventID event) (fst s')"
    by (auto simp: pg_inbox_def intro: AcceptRequest_Inr split: prod.splits)
next
  fix s s' :: "ndb \<times> nat" and ev r
  assume c: "in_ResumeRetry (pg_inbox L E) ev s = (r, s')"
  then obtain oc now where a: "ResumeRetry oc now ev (fst s) = (r, fst s')"
    by (auto simp: pg_inbox_def split: prod.splits)
  show "pipeline_inv L 8 (fst s')" if "pipeline_inv L 8 (fst s)"
    by (rule ResumeRetry_inv [OF that a])
  show "has_event i (fst s')" if "has_event i (fst s)" for i
    using ResumeRetry_state [OF a] that by (auto simp: has_event_def)
qed

end
