(* ===== verification/System.thy ===== *)
theory System
  imports Relay Consumer
begin

text \<open>
  The notification service as a whole: one database, any number of workers that hold tasks,
  the dispatch relay and the log of what it published. A step is one call of an operation of
  the program in an arbitrary environment: every outcome of every round trip, every clock, any
  rows locked by others, any answer of the senders and of Kafka, and a crash of any worker at
  any time. Two things are assumed of the environment: the calls are transactions that do not
  interleave on the rows they lock, and \<open>gen_random_uuid()\<close> does not repeat the token of
  a claim some worker still holds.

  The abstract specification of a delivery is the automaton \<open>life\<close>; the development shows
  that every step moves every delivery along it, and the invariant of \<open>NotifInv\<close> in every
  reachable state.
\<close>

section \<open>The life of a delivery\<close>

inductive life :: "status \<times> int \<Rightarrow> status \<times> int \<Rightarrow> bool" where
  claim: "life (StPending, n) (StProcessing, n + 1)"
| sent: "life (StProcessing, n) (StSent, n)"
| retry: "life (StProcessing, n) (StRetryWait, n)"
| fail: "life (StProcessing, n) (StFailed, n)"
| requeue: "life (StProcessing, n) (StPending, n)"
| resume: "life (StRetryWait, n) (StPending, n)"
| cancel: "st \<in> {StPending, StProcessing, StRetryWait} \<Longrightarrow> life (st, n) (StCancelled, n)"

inductive_cases lifeE: "life (st, n) x"
inductive_simps life_simps: "life (st, n) (st', n')"

code_pred (modes: i \<Rightarrow> i \<Rightarrow> bool) life .

definition finished :: "status \<Rightarrow> bool" where
  "finished st \<longleftrightarrow> st = StSent \<or> st = StFailed \<or> st = StCancelled"

lemma life_finished: "life (st, n) x \<Longrightarrow> \<not> finished st"
  by (auto simp: finished_def elim: lifeE)

lemma life_attempts: "life x y \<Longrightarrow> snd y = (if fst x = StPending \<and> fst y = StProcessing then snd x + 1 else snd x)"
  by (cases rule: life.cases) auto

lemma lives_attempts: "life\<^sup>*\<^sup>* x y \<Longrightarrow> snd x \<le> snd y"
  by (induction rule: rtranclp_induct) (auto dest!: life_attempts split: if_splits)

lemma lives_finished:
  assumes "life\<^sup>*\<^sup>* x y" "finished (fst x)"
  shows "y = x"
  using assms by (induction rule: converse_rtranclp_induct) (auto dest: life_finished)

definition abs_of :: "delivery_row \<Rightarrow> status \<times> int" where
  "abs_of d = (d_status d, d_attempts d)"

definition evolves :: "delivery_row \<Rightarrow> delivery_row \<Rightarrow> bool" where
  "evolves d d' \<longleftrightarrow> d' = d \<or> same_delivery d d' \<and> life (abs_of d) (abs_of d')"

definition table_evolves :: "delivery_row list \<Rightarrow> delivery_row list \<Rightarrow> bool" where
  \<comment> \<open>every row moves at most one step, new rows start at the beginning\<close>
  "table_evolves ds ds' \<longleftrightarrow>
     (\<exists>old new. ds' = old @ new \<and> list_all2 evolves ds old \<and> (\<forall>d \<in> set new. abs_of d = (StPending, 0)))"

lemma table_evolves_refl: "table_evolves ds ds"
  unfolding table_evolves_def
  by (rule exI [of _ ds], rule exI [of _ "[]"]) (simp add: evolves_def list_all2_refl)

lemma table_evolves_map:
  assumes "\<And>d. d \<in> set ds \<Longrightarrow> evolves d (g d)"
  shows "table_evolves ds (map g ds)"
  unfolding table_evolves_def
  by (rule exI [of _ "map g ds"], rule exI [of _ "[]"]) (use assms in \<open>simp add: list_all2_conv_all_nth\<close>)

lemma table_evolves_upd:
  assumes "\<And>d. d \<in> set ds \<Longrightarrow> P d \<Longrightarrow> same_delivery d (f d) \<and> life (abs_of d) (abs_of (f d))"
  shows "table_evolves ds (upd P f ds)"
  unfolding upd_def using assms by (intro table_evolves_map) (auto simp: evolves_def)

section \<open>Every operation moves deliveries along their life\<close>

lemma AcceptRequest_evolves:
  assumes "AcceptRequest L oc fresh now event payload s = (r, s')"
  shows "table_evolves (deliveries s) (deliveries s')"
proof -
  have "table_evolves (deliveries s) (deliveries s @ rows)"
    if "\<forall>d \<in> set rows. d_status d = StPending \<and> d_attempts d = 0" for rows
    unfolding table_evolves_def
    by (rule exI [of _ "deliveries s"], rule exI [of _ rows])
      (use that in \<open>simp add: evolves_def list_all2_refl abs_of_def\<close>)
  moreover have "\<exists>rows. deliveries s' = deliveries s @ rows \<and>
      (\<forall>d \<in> set rows. d_status d = StPending \<and> d_attempts d = 0)"
    using AcceptRequest_state [OF assms]
  proof
    assume "\<exists>s1. insert_inbox L now event payload s = Inr (1, s1) \<and> insert_deliveries fresh now event s1 = Inr s'"
    then obtain s1 where s1: "insert_inbox L now event payload s = Inr (1, s1)"
      "insert_deliveries fresh now event s1 = Inr s'" by blast
    have "deliveries s1 = deliveries s" using insert_inbox_Inr [OF s1(1)] by auto
    then show ?thesis
      using insert_deliveries_Inr [OF s1(2)] by (auto simp: new_delivery_def)
  qed simp
  ultimately show ?thesis by auto
qed

lemma ResumeRetry_evolves:
  assumes "ResumeRetry oc now event s = (r, s')"
  shows "table_evolves (deliveries s) (deliveries s')"
  using ResumeRetry_state [OF assms]
  by (auto intro!: table_evolves_upd table_evolves_refl
      simp: resumable_def resume_row_def same_delivery_def abs_of_def life_simps)

lemma claimed_evolves:
  assumes "schema_ok s"
  shows "table_evolves (deliveries s) (deliveries (claimed_state now limit lease locked tok types s))"
proof -
  have "table_evolves (deliveries s)
      (upd (\<lambda>d. d_id d \<in> d_id ` set (selected now limit locked types s)) (claim_row now lease tok) (deliveries s))"
  proof (rule table_evolves_upd)
    fix d assume "d \<in> set (deliveries s)" "d_id d \<in> d_id ` set (selected now limit locked types s)"
    from selected_rows(1) [OF assms this] have "d_status d = StPending" by (simp add: claimable_def)
    then show "same_delivery d (claim_row now lease tok d) \<and> life (abs_of d) (abs_of (claim_row now lease tok d))"
      by (simp add: claim_row_def same_delivery_def abs_of_def life_simps)
  qed
  then show ?thesis by (simp add: claimed_state_def)
qed

lemma Claim_evolves:
  assumes "schema_ok s" "Claim L oc brk now locked tok limit lease types s = (r, s')"
  shows "table_evolves (deliveries s) (deliveries s')"
  using Claim_state [OF assms(2)] claimed_evolves [OF assms(1)] table_evolves_refl by blast

lemma MarkSent_evolves:
  assumes "MarkSent oc now t s = (r, s')"
  shows "table_evolves (deliveries s) (deliveries s')"
  using MarkSent_state [OF assms]
  by (auto intro!: table_evolves_upd table_evolves_refl
      simp: holds_claim_def sent_row_def same_delivery_def abs_of_def life_simps)

lemma release_evolves:
  assumes "st = StCancelled \<or> st = StRetryWait \<or> st = StFailed"
  shows "table_evolves ds (upd (holds_claim t) (release_row now st code) ds)"
  by (rule table_evolves_upd)
    (use assms in \<open>auto simp: holds_claim_def release_row_def same_delivery_def abs_of_def life_simps\<close>)

lemma MarkFailed_evolves:
  assumes "MarkFailed L oc now clock i t delay code s = (r, s')"
  shows "table_evolves (deliveries s) (deliveries s')"
  using assms
proof (cases rule: MarkFailed_state)
  case (released code' st kind topic av)
  then have "deliveries s' = upd (holds_claim t) (release_row now st code') (deliveries s)"
    using insert_dispatch_deliveries [OF released(4)] by simp
  moreover have "st = StCancelled \<or> st = StRetryWait \<or> st = StFailed" using released(3) by blast
  ultimately show ?thesis using release_evolves by simp
qed (auto intro: table_evolves_refl release_evolves)

text \<open>The loop of \<open>RecoverExpired\<close> changes every row of its list once and no other row.\<close>

definition recovered :: "instant \<Rightarrow> delivery_row \<Rightarrow> delivery_row \<Rightarrow> bool" where
  "recovered now x y \<longleftrightarrow>
     (\<exists>st code. st \<in> {StCancelled, StFailed, StPending} \<and> y = recover_row now st code x)"

lemma recover_loop_Cons:
  assumes "recover_loop L oc k fresh now m (d # ds) s = Inr (k', s')"
  obtains st code s1 s2 j where "st \<in> {StCancelled, StFailed, StPending}"
    "s1 = s\<lparr>deliveries := upd (\<lambda>r. d_id r = d_id d) (recover_row now st code) (deliveries s)\<rparr>"
    "deliveries s2 = deliveries s1" "recover_loop L oc j fresh now m ds s2 = Inr (k', s')"
proof -
  define active where "active = channelActive (d_id d) s"
  define st where "st = (if \<not> active then StCancelled else if m \<le> d_attempts d then StFailed else StPending)"
  define code where "code = (if \<not> active then ''channel_disabled'' else ''lease_expired'')"
  define s1 where "s1 = s\<lparr>deliveries := upd (\<lambda>r. d_id r = d_id d) (recover_row now st code) (deliveries s)\<rparr>"
  have st: "st \<in> {StCancelled, StFailed, StPending}" by (simp add: st_def)
  have oc: "oc k = Applied" "oc (k + 1) = Applied"
    using assms by (auto simp: Let_def split: sum.splits)
  show ?thesis
  proof (cases "st = StFailed")
    case True
    have "(case call (oc (k + 2)) (insert_dispatch now (fresh (d_id d)) (d_id d) (d_user d)
        (d_attempts d) ''dlq'' DLQTopicV1
        (jsonb_in L (json_text L (dispatchPayload L (d_id d) (d_event d) (d_user d) (d_attempts d)
           ''lease_expired''))) now s1) of Inl e \<Rightarrow> Inl e
        | Inr s2 \<Rightarrow> recover_loop L oc (k + 3) fresh now m ds s2) = Inr (k', s')"
      using assms oc True
      by (simp add: active_def [symmetric] st_def [symmetric] code_def [symmetric] Let_def)
        (simp add: s1_def True)
    then show ?thesis
      using that [OF st s1_def] by (auto dest!: insert_dispatch_deliveries split: sum.splits)
  next
    case False
    then have "recover_loop L oc (k + 2) fresh now m ds s1 = Inr (k', s')"
      using assms oc
      by (simp add: Let_def st_def [symmetric] code_def [symmetric] active_def [symmetric] s1_def [symmetric])
    then show ?thesis using that [OF st s1_def] by blast
  qed
qed

lemma recover_loop_rows:
  assumes "recover_loop L oc k fresh now m ds s = Inr (k', s')" "distinct (map d_id ds)"
  shows "\<exists>g. deliveries s' = map g (deliveries s) \<and> (\<forall>x. d_id x \<notin> d_id ` set ds \<longrightarrow> g x = x) \<and>
    (\<forall>x. d_id x \<in> d_id ` set ds \<longrightarrow> recovered now x (g x))"
  using assms
proof (induction ds arbitrary: k s)
  case Nil
  then show ?case by (intro exI [of _ id]) simp
next
  case (Cons d ds)
  from Cons.prems(1) obtain st code s1 s2 j where st: "st \<in> {StCancelled, StFailed, StPending}"
    and s1: "s1 = s\<lparr>deliveries := upd (\<lambda>r. d_id r = d_id d) (recover_row now st code) (deliveries s)\<rparr>"
    and s2: "deliveries s2 = deliveries s1" and l: "recover_loop L oc j fresh now m ds s2 = Inr (k', s')"
    by (rule recover_loop_Cons)
  define f where "f = (\<lambda>r. if d_id r = d_id d then recover_row now st code r else r)"
  have f: "deliveries s2 = map f (deliveries s)" by (simp add: s1 s2 upd_def f_def)
  from Cons.IH [OF l] Cons.prems(2) obtain g where g: "deliveries s' = map g (deliveries s2)"
    "\<forall>x. d_id x \<notin> d_id ` set ds \<longrightarrow> g x = x"
    "\<forall>x. d_id x \<in> d_id ` set ds \<longrightarrow> recovered now x (g x)" by auto
  show ?case
  proof (intro exI [of _ "g \<circ> f"] conjI allI impI)
    show "deliveries s' = map (g \<circ> f) (deliveries s)" by (simp add: g(1) f)
    show "(g \<circ> f) x = x" if "d_id x \<notin> d_id ` set (d # ds)" for x
      using that g(2) by (simp add: f_def)
    show "recovered now x ((g \<circ> f) x)" if "d_id x \<in> d_id ` set (d # ds)" for x
    proof (cases "d_id x = d_id d")
      case True
      then have "g (f x) = f x" using g(2) Cons.prems(2) by (simp add: f_def recover_row_def release_row_def)
      then show ?thesis using st True unfolding recovered_def f_def comp_def by auto
    qed (use g(3) that in \<open>simp add: f_def\<close>)
  qed
qed

lemma RecoverExpired_evolves:
  assumes s: "schema_ok s" and res: "RecoverExpired L oc now locked fresh limit m s = (r, s')"
  shows "table_evolves (deliveries s) (deliveries s')"
proof -
  let ?ds = "select_for_update (\<lambda>d. (the (d_lease d), d_id d)) (nat limit)
       (\<lambda>d. locked (d_id d)) (expired now) (deliveries s)"
  have ds: "distinct (map d_id ?ds)" by (rule distinct_map_select [OF schema_d_id [OF s]])
  have proc: "d_status d = StProcessing" if "d \<in> set (deliveries s)" "d_id d \<in> d_id ` set ?ds" for d
  proof -
    from that(2) obtain x where x: "x \<in> set ?ds" "d_id d = d_id x" by blast
    from set_select_for_update [OF x(1)] have "x \<in> set (deliveries s)" "d_status x = StProcessing"
      by (simp_all add: expired_def)
    then show ?thesis using row_by_id [OF s that(1) _ x(2)] by simp
  qed
  from RecoverExpired_state [OF res] show ?thesis
  proof
    assume "\<exists>k ds. recover_loop L oc 2 fresh now m ds s = Inr (k, s') \<and> ds = ?ds"
    then obtain g where g: "deliveries s' = map g (deliveries s)"
      "\<forall>x. d_id x \<notin> d_id ` set ?ds \<longrightarrow> g x = x"
      "\<forall>x. d_id x \<in> d_id ` set ?ds \<longrightarrow> recovered now x (g x)"
      using recover_loop_rows ds by blast
    have "evolves d (g d)" if "d \<in> set (deliveries s)" for d
    proof (cases "g d = d")
      case False
      then have "d_status d = StProcessing" using proc [OF that] g(2) by blast
      moreover obtain st code where st: "st \<in> {StCancelled, StFailed, StPending}"
        and gd: "g d = recover_row now st code d"
        using g(2,3) False unfolding recovered_def by blast
      ultimately have "same_delivery d (recover_row now st code d) \<and>
          life (abs_of d) (abs_of (recover_row now st code d))"
        by (auto simp: recover_row_def release_row_def same_delivery_def abs_of_def life_simps)
      then show ?thesis by (simp add: evolves_def gd)
    qed (simp add: evolves_def)
    then show ?thesis unfolding g(1) by (rule table_evolves_map)
  qed (simp add: table_evolves_refl)
qed

lemma cancel_stmt_evolves: "table_evolves (deliveries s) (deliveries (cancel_stmt now u c s))"
  unfolding cancel_stmt_def
  by (auto intro!: table_evolves_upd
      simp: waiting_on_def cancel_row_def same_delivery_def abs_of_def life_simps)

lemma SetChannelEnabled_evolves:
  assumes "SetChannelEnabled oc now u c b s = (r, s')"
  shows "table_evolves (deliveries s) (deliveries s')"
  using SetChannelEnabled_state [OF assms] cancel_stmt_evolves
  by (auto dest!: enable_stmt_Inr simp: cancel_stmt_commute table_evolves_refl)

lemma DeleteChannel_evolves:
  assumes "DeleteChannel oc now u c s = (r, s')"
  shows "table_evolves (deliveries s) (deliveries s')"
  using DeleteChannel_state [OF assms] cancel_stmt_evolves
  by (auto simp: delete_stmt_def table_evolves_refl)

section \<open>Claims survive the other operations\<close>

lemma AcceptRequest_rows:
  assumes "AcceptRequest L oc fresh now event payload s = (r, s')"
  shows "\<exists>rows. deliveries s' = deliveries s @ rows \<and> (\<forall>d \<in> set rows. abs_of d = (StPending, 0)) \<and>
    dispatch s' = dispatch s"
  using AcceptRequest_state [OF assms]
  by (auto dest!: insert_inbox_Inr insert_deliveries_Inr simp: new_delivery_def abs_of_def)

lemma AcceptRequest_agrees:
  assumes "agrees t s" "AcceptRequest L oc fresh now event payload s = (r, s')"
  shows "agrees t s'"
  using AcceptRequest_rows [OF assms(2)] assms(1)
  by (auto simp: agrees_def task_agrees_def holds_claim_def abs_of_def)

lemma ResumeRetry_agrees:
  assumes "agrees t s" "ResumeRetry oc now event s = (r, s')"
  shows "agrees t s'"
  using ResumeRetry_state [OF assms(2)] assms(1) by (auto intro!: agrees_upd simp: resume_row_def)

lemma cancel_stmt_agrees: "agrees t s \<Longrightarrow> agrees t (cancel_stmt now u c s)"
  unfolding cancel_stmt_def by (rule agrees_upd) (simp_all add: cancel_row_def)

lemma CreateChannel_frame:
  assumes "CreateChannel oc now c s = (r, s')"
  shows "deliveries s' = deliveries s" "dispatch s' = dispatch s"
  using CreateChannel_state [OF assms] by (auto dest!: insert_channel_Inr)

lemma SetChannelEnabled_frame:
  assumes "SetChannelEnabled oc now u c b s = (r, s')"
  shows "deliveries s' = deliveries s \<or> deliveries s' = deliveries (cancel_stmt now u c s)"
    "dispatch s' = dispatch s"
  using SetChannelEnabled_state [OF assms]
  by (auto dest!: enable_stmt_Inr simp: cancel_stmt_def)

lemma DeleteChannel_frame:
  assumes "DeleteChannel oc now u c s = (r, s')"
  shows "deliveries s' = deliveries s \<or> deliveries s' = deliveries (cancel_stmt now u c s)"
    "dispatch s' = dispatch s"
  using DeleteChannel_state [OF assms] by (auto simp: delete_stmt_def cancel_stmt_def)

lemma agrees_cancel_frame:
  assumes "agrees t s" "deliveries s' = deliveries s \<or> deliveries s' = deliveries (cancel_stmt now u c s)"
  shows "agrees t s'"
  using assms agrees_frame cancel_stmt_agrees by metis

lemma RecoverExpired_agrees:
  assumes s: "schema_ok s" and a: "agrees t s"
    and res: "RecoverExpired L oc now locked fresh limit m s = (r, s')"
  shows "agrees t s'"
proof -
  let ?ds = "select_for_update (\<lambda>d. (the (d_lease d), d_id d)) (nat limit)
       (\<lambda>d. locked (d_id d)) (expired now) (deliveries s)"
  have ds: "distinct (map d_id ?ds)" by (rule distinct_map_select [OF schema_d_id [OF s]])
  have "agrees t s'" if "recover_loop L oc 2 fresh now m ?ds s = Inr (k, s')" for k
  proof -
    from recover_loop_rows [OF that ds] obtain g where g: "deliveries s' = map g (deliveries s)"
      "\<forall>x. g x = x \<or> recovered now x (g x)" by blast
    have "task_agrees t (g d)" if "d \<in> set (deliveries s)" for d
    proof (cases "g d = d")
      case False
      then obtain st code where "st \<in> {StCancelled, StFailed, StPending}" "g d = recover_row now st code d"
        using g(2) unfolding recovered_def by blast
      then have "d_status (g d) \<noteq> StProcessing" by (auto simp: recover_row_def release_row_def)
      then show ?thesis by (simp add: task_agrees_def holds_claim_def)
    qed (use a that in \<open>simp add: agrees_def\<close>)
    then show ?thesis by (simp add: agrees_def g(1))
  qed
  then show ?thesis using RecoverExpired_state [OF res] a by blast
qed

section \<open>The dispatch outbox only grows\<close>

definition dispatch_grows :: "ndb \<Rightarrow> ndb \<Rightarrow> bool" where
  "dispatch_grows s s' \<longleftrightarrow>
     (\<exists>xs. dispatch s' = dispatch s @ xs \<and> (\<forall>x \<in> set xs. o_published x = None))"

lemma dispatch_grows_refl: "dispatch s' = dispatch s \<Longrightarrow> dispatch_grows s s'"
  by (simp add: dispatch_grows_def)

lemma dispatch_grows_trans: "dispatch_grows s s' \<Longrightarrow> dispatch_grows s' s'' \<Longrightarrow> dispatch_grows s s''"
  by (auto simp: dispatch_grows_def)

lemma insert_dispatch_grows:
  "insert_dispatch now i dl user att kind topic p av s = Inr s' \<Longrightarrow> dispatch_grows s s'"
  by (auto dest!: insert_dispatch_Inr simp: dispatch_grows_def)

lemma MarkSent_grows: "MarkSent oc now t s = (r, s') \<Longrightarrow> dispatch_grows s s'"
  by (auto dest!: MarkSent_state intro!: dispatch_grows_refl)

lemma MarkFailed_grows:
  assumes "MarkFailed L oc now clock i t delay code s = (r, s')"
  shows "dispatch_grows s s'"
  using assms
proof (cases rule: MarkFailed_state)
  case (released code' st kind topic av)
  then show ?thesis using insert_dispatch_grows [OF released(4)] by (simp add: dispatch_grows_def)
qed (simp_all add: dispatch_grows_refl)

lemma recover_loop_grows:
  "recover_loop L oc k fresh now m ds s = Inr (k', s') \<Longrightarrow> dispatch_grows s s'"
proof (induction L oc k fresh now m ds s rule: recover_loop.induct)
  case (2 L oc k fresh now m d ds s)
  then show ?case
    by (fastforce simp: Let_def dispatch_grows_def split: sum.splits if_splits dest: insert_dispatch_grows)
qed (simp add: dispatch_grows_refl)

lemma RecoverExpired_grows:
  "RecoverExpired L oc now locked fresh limit m s = (r, s') \<Longrightarrow> dispatch_grows s s'"
  by (auto dest!: RecoverExpired_state intro: dispatch_grows_refl recover_loop_grows)

lemma find_append_Some: "find P xs = Some x \<Longrightarrow> find P (xs @ ys) = Some x"
  by (induction xs) auto

lemma sent_all_grows:
  assumes "dob.sent_all L M (s, kl)" "dispatch_grows s s'" "pipeline_inv L M s'"
  shows "dob.sent_all L M (s', kl)"
proof -
  obtain xs where xs: "dispatch s' = dispatch s @ xs" "\<forall>x \<in> set xs. o_published x = None"
    using assms(2) by (auto simp: dispatch_grows_def)
  have "dispatch_published i s' \<Longrightarrow> dispatch_published i s" for i
    using xs by (auto simp: dispatch_published_def)
  moreover have "dispatch_message_of L i s = Some m \<Longrightarrow> dispatch_message_of L i s' = Some m" for i m
    by (auto simp: dispatch_message_of_def xs(1) intro: find_append_Some)
  ultimately show ?thesis
    using assms(1,3) unfolding dob.sent_all_def fst_conv snd_conv by blast
qed

section \<open>The step relation\<close>

record sys =
  sdb :: ndb
  held :: "task list"
  slog :: "kafka_msg list"

definition initial :: sys where
  "initial = \<lparr>sdb = empty_ndb, held = [], slog = []\<rparr>"

inductive sys_step :: "lib \<Rightarrow> sys \<Rightarrow> sys \<Rightarrow> bool" for L :: lib where
  accept: "AcceptRequest L oc fresh now event payload (sdb s) = (r, db') \<Longrightarrow>
    sys_step L s (s\<lparr>sdb := db'\<rparr>)"
| resume: "ResumeRetry oc1 now ev (sdb s) = (r, db') \<Longrightarrow> sys_step L s (s\<lparr>sdb := db'\<rparr>)"
| claim: "Claim L oc1 brk now locked tok limit lease types (sdb s) = ((ts, e), db') \<Longrightarrow>
    \<forall>t \<in> set (held s). \<forall>i. tok i \<noteq> t_token t \<Longrightarrow>
    sys_step L s (s\<lparr>sdb := db', held := held s @ ts\<rparr>)"
| process: "t \<in> set (held s) \<Longrightarrow>
    Process (pg_store L E) senders (Some default_policy) ch t (sdb s, k) = (e, (db', k')) \<Longrightarrow>
    sys_step L s (s\<lparr>sdb := db', held := removeAll t (held s)\<rparr>)"
| recover: "RecoverExpired L oc now locked fresh limit 8 (sdb s) = (r, db') \<Longrightarrow>
    sys_step L s (s\<lparr>sdb := db'\<rparr>)"
| create: "CreateChannel oc1 now c (sdb s) = (r, db') \<Longrightarrow> sys_step L s (s\<lparr>sdb := db'\<rparr>)"
| enable: "SetChannelEnabled oc now u i b (sdb s) = (r, db') \<Longrightarrow> sys_step L s (s\<lparr>sdb := db'\<rparr>)"
| delete: "DeleteChannel oc now u i (sdb s) = (r, db') \<Longrightarrow> sys_step L s (s\<lparr>sdb := db'\<rparr>)"
| relay: "PublishOne L (dispatch_outbox L) oc pc now locked (sdb s, slog s) = (r, (db', kl')) \<Longrightarrow>
    sys_step L s (s\<lparr>sdb := db', slog := kl'\<rparr>)"
| crash: "set ts \<subseteq> set (held s) \<Longrightarrow> sys_step L s (s\<lparr>held := ts\<rparr>)"

inductive_cases sys_stepE: "sys_step L s s'"

definition reachable :: "lib \<Rightarrow> sys \<Rightarrow> bool" where
  "reachable L s \<longleftrightarrow> (sys_step L)\<^sup>*\<^sup>* initial s"

definition sys_inv :: "lib \<Rightarrow> sys \<Rightarrow> bool" where
  "sys_inv L s \<longleftrightarrow> pipeline_inv L 8 (sdb s) \<and> (\<forall>t \<in> set (held s). agrees t (sdb s)) \<and>
     dob.sent_all L 8 (sdb s, slog s)"

text \<open>What a worker's \<open>Process\<close> does to the database.\<close>

lemma Process_db:
  assumes "Process (pg_store L E) senders pol ch t (s, k) = (e, (s', k'))"
  obtains (idle) "s' = s" | (sent) oc now r where "MarkSent oc now t s = (r, s')"
  | (failed) oc now clock i delay code r where "MarkFailed L oc now clock i t delay code s = (r, s')"
proof (cases "send_task senders t")
  case None
  then obtain oc now r where "MarkSent oc now t s = (r, s')"
    using assms by (auto simp: Process_def pg_store_def split: prod.splits)
  then show ?thesis by (rule sent)
next
  case (Some err)
  show ?thesis
  proof (cases "ctx1 ch")
    case None
    obtain delay b where nd: "NextDelay (impl ch) (rv ch) pol (Some (ctx2 ch)) (t_attempts t) (Some err) = (delay, b)"
      by fastforce
    obtain oc now clock i r where
      "MarkFailed L oc now clock i t (if \<not> b then 0 else delay) (safeErrorCode err) s = (r, s')"
      using assms Some None nd by (auto simp: Process_def pg_store_def Let_def split: prod.splits)
    then show ?thesis by (rule failed)
  next
    case (Some e')
    then show ?thesis using assms \<open>send_task senders t = Some err\<close> by (intro idle) (simp add: Process_def)
  qed
qed

lemma Process_agrees:
  assumes "agrees u s" "Process (pg_store L E) senders pol ch t (s, k) = (e, (s', k'))"
  shows "agrees u s'"
  using assms(2)
proof (cases rule: Process_db)
  case idle
  then show ?thesis using assms(1) by simp
next
  case (sent oc now r)
  show ?thesis by (rule MarkSent_agrees [OF assms(1) sent])
next
  case (failed oc now clock i delay code r)
  show ?thesis by (rule MarkFailed_agrees [OF assms(1) failed])
qed

lemma Process_grows:
  assumes "Process (pg_store L E) senders pol ch t (s, k) = (e, (s', k'))"
  shows "dispatch_grows s s'"
  using assms
proof (cases rule: Process_db)
  case idle
  then show ?thesis by (simp add: dispatch_grows_refl)
next
  case (sent oc now r)
  show ?thesis by (rule MarkSent_grows [OF sent])
next
  case (failed oc now clock i delay code r)
  show ?thesis by (rule MarkFailed_grows [OF failed])
qed

lemma Process_evolves:
  assumes "Process (pg_store L E) senders pol ch t (s, k) = (e, (s', k'))"
  shows "table_evolves (deliveries s) (deliveries s')"
  using assms
proof (cases rule: Process_db)
  case idle
  then show ?thesis by (simp add: table_evolves_refl)
next
  case (sent oc now r)
  show ?thesis by (rule MarkSent_evolves [OF sent])
next
  case (failed oc now clock i delay code r)
  show ?thesis by (rule MarkFailed_evolves [OF failed])
qed

lemma Process_db_inv:
  assumes "pipeline_inv L 8 s" "agrees t s"
    "Process (pg_store L E) senders (Some default_policy) ch t (s, k) = (e, (s', k'))"
  shows "pipeline_inv L 8 s'"
  using pg.Process_inv [of L "(s, k)" t default_policy E senders ch] assms
  by (simp add: default_policy_def)

lemma PublishOne_frame:
  assumes "PublishOne L (dispatch_outbox L) oc pc now locked (s, kl) = (r, (s', kl'))"
  shows "deliveries s' = deliveries s \<and> channels s' = channels s"
  using assms by (cases rule: PublishOne_cases) (auto simp: dispatch_outbox_def)

lemma sys_inv_db:
  assumes "sys_inv L s" "pipeline_inv L 8 db'" "dispatch_grows (sdb s) db'" "\<forall>t \<in> set ts. agrees t db'"
  shows "sys_inv L (s\<lparr>sdb := db', held := ts\<rparr>)"
  using assms sent_all_grows [of L 8 "sdb s" "slog s" db'] by (simp add: sys_inv_def)

lemma sys_inv_db_only:
  assumes "sys_inv L s" "pipeline_inv L 8 db'" "dispatch_grows (sdb s) db'"
    "\<And>t. agrees t (sdb s) \<Longrightarrow> agrees t db'"
  shows "sys_inv L (s\<lparr>sdb := db'\<rparr>)"
  using sys_inv_db [OF assms(1-3), of "held s"] assms(1,4) by (simp add: sys_inv_def)

lemma sys_step_inv:
  assumes "sys_step L s s'" and inv: "sys_inv L s"
  shows "sys_inv L s'"
  using assms(1)
proof cases
  note i = inv [unfolded sys_inv_def, THEN conjunct1]
  {
    case (accept oc fresh now event payload r db')
    show ?thesis
      unfolding accept(1)
      by (rule sys_inv_db_only [OF inv AcceptRequest_inv [OF i _ accept(2)] _ AcceptRequest_agrees [OF _ accept(2)]])
        (use AcceptRequest_rows [OF accept(2)] in \<open>auto intro: dispatch_grows_refl\<close>)
  next
    case (resume oc1 now ev r db')
    have "dispatch_grows (sdb s) db'"
      using ResumeRetry_state [OF resume(2)] by (auto intro: dispatch_grows_refl)
    then show ?thesis
      unfolding resume(1)
      using sys_inv_db_only [OF inv ResumeRetry_inv [OF i resume(2)]] ResumeRetry_agrees resume(2) by blast
  next
    case (claim oc1 brk now locked tok limit lease types ts e db')
    have "\<forall>t \<in> set ts. agrees t db'"
      using Claim_agrees [OF pipeline_inv_schema [OF i] claim(2)] by simp
    moreover have "\<forall>t \<in> set (held s). agrees t db'"
      using Claim_state [OF claim(2)] inv claim(3) agrees_claimed by (auto simp: sys_inv_def)
    moreover have "dispatch_grows (sdb s) db'"
      using Claim_state [OF claim(2)] by (auto simp: claimed_state_def intro: dispatch_grows_refl)
    ultimately show ?thesis
      unfolding claim(1) by (intro sys_inv_db [OF inv Claim_inv [OF i claim(2)]]) auto
  next
    case (process t E senders ch k e db' k')
    have a: "agrees t (sdb s)" using inv process(2) by (auto simp: sys_inv_def)
    show ?thesis
      unfolding process(1)
      using Process_agrees [OF _ process(3)] inv
      by (intro sys_inv_db [OF inv Process_db_inv [OF i a process(3)] Process_grows [OF process(3)]])
        (auto simp: sys_inv_def)
  next
    case (recover oc now locked fresh limit r db')
    show ?thesis
      unfolding recover(1)
      by (rule sys_inv_db_only [OF inv RecoverExpired_inv [OF i recover(2)] RecoverExpired_grows [OF recover(2)]
          RecoverExpired_agrees [OF pipeline_inv_schema [OF i] _ recover(2)]])
  next
    case (create oc1 now c r db')
    show ?thesis
      unfolding create(1)
      by (rule sys_inv_db_only [OF inv CreateChannel_inv [OF i create(2)]
            dispatch_grows_refl [OF CreateChannel_frame(2) [OF create(2)]]])
        (simp add: agrees_def CreateChannel_frame(1) [OF create(2)])
  next
    case (enable oc now u i' b r db')
    show ?thesis
      unfolding enable(1)
      by (rule sys_inv_db_only [OF inv SetChannelEnabled_inv [OF i enable(2)]
            dispatch_grows_refl [OF SetChannelEnabled_frame(2) [OF enable(2)]]
            agrees_cancel_frame [OF _ SetChannelEnabled_frame(1) [OF enable(2)]]])
  next
    case (delete oc now u i' r db')
    show ?thesis
      unfolding delete(1)
      by (rule sys_inv_db_only [OF inv DeleteChannel_inv [OF i delete(2)]
            dispatch_grows_refl [OF DeleteChannel_frame(2) [OF delete(2)]]
            agrees_cancel_frame [OF _ DeleteChannel_frame(1) [OF delete(2)]]])
  next
    case (relay oc pc now locked r db' kl')
    have "dob.sent_all L 8 (db', kl')"
      using dob.PublishOne_sent_all [OF _ relay(2)] inv by (simp add: sys_inv_def)
    then show ?thesis
      using inv relay(1) PublishOne_frame [OF relay(2)]
      by (auto simp: sys_inv_def agrees_def dob.sent_all_def)
  next
    case (crash ts)
    then show ?thesis using inv by (auto simp: sys_inv_def)
  }
qed

lemma initial_inv: "sys_inv L initial"
  by (simp add: sys_inv_def initial_def pipeline_inv_empty dob.sent_all_def)
    (simp add: dispatch_published_def empty_ndb_def)

lemma steps_inv: "(sys_step L)\<^sup>*\<^sup>* s s' \<Longrightarrow> sys_inv L s \<Longrightarrow> sys_inv L s'"
  by (induction rule: rtranclp_induct) (auto intro: sys_step_inv)

lemma reachable_inv: "reachable L s \<Longrightarrow> sys_inv L s"
  unfolding reachable_def using steps_inv initial_inv by blast

lemma sys_step_evolves:
  assumes "sys_step L s s'" and inv: "pipeline_inv L 8 (sdb s)"
  shows "table_evolves (deliveries (sdb s)) (deliveries (sdb s'))"
  using assms(1)
proof cases
  case (claim oc1 brk now locked tok limit lease types ts e db')
  then show ?thesis using Claim_evolves [OF pipeline_inv_schema [OF inv]] by simp
next
  case (recover oc now locked fresh limit r db')
  then show ?thesis using RecoverExpired_evolves [OF pipeline_inv_schema [OF inv]] by simp
next
  case (create oc1 now c r db')
  then show ?thesis using CreateChannel_frame(1) table_evolves_refl by fastforce
next
  case (relay oc pc now locked r db' kl')
  then show ?thesis using PublishOne_frame table_evolves_refl by fastforce
qed (auto intro: AcceptRequest_evolves ResumeRetry_evolves Process_evolves SetChannelEnabled_evolves
    DeleteChannel_evolves table_evolves_refl)

section \<open>Executions\<close>

text \<open>Along an execution every delivery keeps its identity and moves along its life.\<close>

lemma table_evolves_row:
  assumes "table_evolves ds ds'" "d \<in> set ds"
  shows "\<exists>d' \<in> set ds'. evolves d d'"
proof -
  obtain old new where on: "ds' = old @ new" "list_all2 evolves ds old"
    using assms(1) by (auto simp: table_evolves_def)
  obtain n where n: "n < length ds" "ds ! n = d" using assms(2) by (auto simp: in_set_conv_nth)
  then have "evolves d (old ! n)" "n < length old" using on(2) by (auto simp: list_all2_conv_all_nth)
  then show ?thesis using on(1) by (auto intro: bexI [of _ "old ! n"])
qed

lemma evolves_lives: "evolves d d' \<Longrightarrow> same_delivery d d' \<and> life\<^sup>*\<^sup>* (abs_of d) (abs_of d')"
  by (auto simp: evolves_def same_delivery_def)

lemma execution_row:
  assumes "(sys_step L)\<^sup>*\<^sup>* s s'" "sys_inv L s" "d \<in> set (deliveries (sdb s))"
  shows "\<exists>d' \<in> set (deliveries (sdb s')). same_delivery d d' \<and> life\<^sup>*\<^sup>* (abs_of d) (abs_of d') \<and>
    (finished (d_status d) \<longrightarrow> d' = d)"
  using assms(1)
proof (induction rule: rtranclp_induct)
  case base
  then show ?case using assms(3) by (auto simp: same_delivery_def)
next
  case (step s1 s2)
  have "sys_inv L s1" by (rule steps_inv [OF step.hyps(1) assms(2)])
  then have ev: "table_evolves (deliveries (sdb s1)) (deliveries (sdb s2))"
    using sys_step_evolves [OF step.hyps(2)] by (simp add: sys_inv_def)
  from step.IH obtain d1 where d1: "d1 \<in> set (deliveries (sdb s1))" "same_delivery d d1"
    "life\<^sup>*\<^sup>* (abs_of d) (abs_of d1)" "finished (d_status d) \<longrightarrow> d1 = d" by blast
  from table_evolves_row [OF ev d1(1)] obtain d2 where d2: "d2 \<in> set (deliveries (sdb s2))" "evolves d1 d2"
    by blast
  have "finished (d_status d) \<longrightarrow> d2 = d"
    using d1(4) d2(2) life_finished by (auto simp: evolves_def abs_of_def)
  then show ?case
    using d1(2,3) d2(1) evolves_lives [OF d2(2)]
    by (intro bexI [of _ d2]) (auto simp: same_delivery_def)
qed

end
