(* ===== verification/RoundTrip.thy ===== *)
theory RoundTrip
  imports System
begin

text \<open>
  The two messages that cross a process boundary: a retry, from the dispatch outbox through the
  relay and Kafka back into the delivery, and a request, from \<open>SavePost\<close> to the
  consumer's checks.
\<close>

section \<open>The retry message\<close>

definition retry_members :: "lib \<Rightarrow> delivery_row \<Rightarrow> string \<Rightarrow> (string \<times> json) list" where
  "retry_members L d code =
     [(''delivery_id'', JStr (uuid_text L (d_id d))),
      (''event_id'', JStr (uuid_text L (d_event d))),
      (''user_id'', JStr (uuid_text L (d_user d))),
      (''attempt_no'', JNum (Itoa (d_attempts d)))] @
     (if code = '''' then [] else [(''error_code'', JStr code)])"

text \<open>
  What the code relies on of \<open>encoding/json\<close>, \<open>uuid\<close> and \<open>jsonb\<close> for the
  message of a delivery: an identifier survives its text, the object survives its text and the
  database.
\<close>

definition retry_text_ok :: "lib \<Rightarrow> delivery_row \<Rightarrow> bool" where
  "retry_text_ok L d \<longleftrightarrow>
     uuid_parse L (uuid_text L (d_id d)) = Some (d_id d) \<and>
     uuid_parse L (uuid_text L (d_event d)) = Some (d_event d) \<and>
     uuid_parse L (uuid_text L (d_user d)) = Some (d_user d) \<and>
     (\<forall>code j. jsonb_in L (json_text L (JObj (retry_members L d code))) = Some j \<longrightarrow>
        json_unmarshal L (jsonb_text L j) = Some (jsonb_build_object (retry_members L d code)))"

lemma error_code_field:
  "EqualFold ''error_code'' ''delivery_id'' = False" "EqualFold ''error_code'' ''event_id'' = False"
  "EqualFold ''error_code'' ''user_id'' = False" "EqualFold ''error_code'' ''attempt_no'' = False"
  by (simp_all add: EqualFold_def bytes_of_def fold_equal_def ascii_lower_def)

lemma decode_retry_members:
  assumes "uuid_parse L (uuid_text L (d_id d)) = Some (d_id d)"
    "uuid_parse L (uuid_text L (d_event d)) = Some (d_event d)"
    "uuid_parse L (uuid_text L (d_user d)) = Some (d_user d)"
    and n: "0 \<le> d_attempts d" "d_attempts d < 2 ^ 63"
  shows "decode_struct (retry_fields L) False (jsonb_build_object (retry_members L d code)) zero_retry =
    Some \<lparr>r_DeliveryID = d_id d, r_EventID = d_event d, r_UserID = d_user d, r_AttemptNo = d_attempts d\<rparr>"
proof -
  have p: "ParseInt 64 (Itoa (d_attempts d)) = Some (d_attempts d)"
    using n by (intro ParseInt_Itoa) simp_all
  show ?thesis
    using assms(1-3) p
    by (cases "code = ''''")
      (simp_all add: retry_members_def jsonb_build_object_def decode_struct_def retry_fields_def
        find_field_def uuid_field_def int_field_def zero_retry_def error_code_field)
qed

lemma retry_payload: "dispatchPayload L (d_id d) (d_event d) (d_user d) (d_attempts d) code =
    JObj (retry_members L d code)"
  by (simp add: dispatchPayload_def retry_members_def)

text \<open>A Kafka record that carries a message: the broker adds partition and offset.\<close>

definition carries :: "kafka_record \<Rightarrow> kafka_msg \<Rightarrow> bool" where
  "carries rec m \<longleftrightarrow> kafka_msg.truncate rec = m"

lemma carries_simps:
  assumes "carries rec m"
  shows "k_topic rec = k_topic m" "k_key rec = k_key m" "k_value rec = k_value m" "k_headers rec = k_headers m"
  using assms by (auto simp: carries_def kafka_msg.truncate_def)

definition retry_event_of :: "delivery_row \<Rightarrow> retry_event" where
  "retry_event_of d =
     \<lparr>r_DeliveryID = d_id d, r_EventID = d_event d, r_UserID = d_user d, r_AttemptNo = d_attempts d\<rparr>"

lemma retry_topic_not_request: "IsRetryTopic t \<Longrightarrow> t \<noteq> RequestsTopicV1"
  by (auto simp: IsRetryTopic_def topic_defs)

text \<open>The consumer turns the message of a waiting delivery into \<open>ResumeRetry\<close> of exactly it.\<close>

lemma Consumer_Process_retry:
  assumes lib: "retry_text_ok L d" "uuid_parse L (uuid_text L (o_id r)) \<noteq> None"
    and ids: "d_id d \<noteq> 0" "d_event d \<noteq> 0" "d_user d \<noteq> 0" "0 < d_attempts d" "d_attempts d < 2 ^ 63"
    and r: "announces L d ''retry'' r" "IsRetryTopic (o_topic r)"
    and rec: "carries rec (dispatch_message L r)"
  shows "Consumer_Process L store pc clock (Some rec) st =
    (case in_ResumeRetry store (retry_event_of d) (fst st) of
       (Inl err, s) \<Rightarrow> (Some err, (s, snd st)) | (Inr _, s) \<Rightarrow> (None, (s, snd st)))"
proof -
  from r(1) obtain code where
    j: "jsonb_in L (json_text L (JObj (retry_members L d code))) = Some (o_payload r)"
    by (auto simp: announces_def retry_payload)
  have un: "json_unmarshal L (jsonb_text L (o_payload r)) = Some (jsonb_build_object (retry_members L d code))"
    using lib(1) j by (auto simp: retry_text_ok_def)
  have user: "o_user r = d_user d" "o_kind r = ''retry''" using r(1) by (auto simp: announces_def)
  have dec: "decode_struct (retry_fields L) False (jsonb_build_object (retry_members L d code)) zero_retry =
      Some (retry_event_of d)"
    using decode_retry_members [of L d code] lib(1) ids by (simp add: retry_text_ok_def retry_event_of_def)
  have "DecodeRetry L (k_key rec) (k_value rec) = Inr (retry_event_of d)"
    unfolding DecodeRetry_iff carries_simps [OF rec]
    using un dec ids user by (simp add: dispatch_message_def retry_event_of_def)
  moreover have "record_headers (k_headers rec) =
      [''event_id'' \<mapsto> uuid_text L (o_id r), ''event_type'' \<mapsto> ''notification.retry'',
       ''schema_version'' \<mapsto> ''1'', ''content-type'' \<mapsto> ''application/json'']"
    unfolding carries_simps [OF rec] by (simp add: record_headers_def dispatch_message_def user)
  moreover have "k_topic rec = o_topic r" using carries_simps [OF rec] by (simp add: dispatch_message_def)
  ultimately show ?thesis
    using lib(2) r(2) retry_topic_not_request [OF r(2)]
    by (auto simp: Consumer_Process_def header_def)
qed

lemma ResumeRetry_wakes:
  assumes inv: "pipeline_inv L M s" and d: "d \<in> set (deliveries s)" "d_status d = StRetryWait"
  shows "ResumeRetry Applied now (retry_event_of d) s =
    (Inr (), s\<lparr>deliveries := upd (\<lambda>x. x = d) (resume_row now) (deliveries s)\<rparr>)"
proof -
  have act: "active_channel s d"
    using pipeline_inv_delivery [OF inv d(1)] d(2) by (simp add: active_channel_in delivery_ok_def)
  have "resumable s (retry_event_of d) x \<longleftrightarrow> x = d" if "x \<in> set (deliveries s)" for x
    using row_by_id [OF pipeline_inv_schema [OF inv] that d(1)] act d(2)
    by (auto simp: resumable_def retry_event_of_def)
  then have "upd (resumable s (retry_event_of d)) (resume_row now) (deliveries s) =
      upd (\<lambda>x. x = d) (resume_row now) (deliveries s)"
    by (simp add: upd_def)
  then show ?thesis by (simp add: ResumeRetry_def autocommit_def)
qed

section \<open>The request message\<close>

definition intent_event :: "instant \<Rightarrow> post \<Rightarrow> uuid \<Rightarrow> uuid \<Rightarrow> requested" where
  "intent_event now post i user =
     \<lparr>EventID = i, EventType = NotificationRequested, SchemaVersion = RequestedSchemaV1,
      OccurredAt = of_micros (to_micros now), Producer = notificationProducer, NotificationID = i,
      UserID = user, Template = TemplateNewPost,
      Data = \<lparr>PostID = p_id post, FeedID = p_feed post, DataTitle = p_title post,
        DataBody = (case p_description post of None \<Rightarrow> '''' | Some d \<Rightarrow> d), DataURL = p_url post,
        PublishedAt = of_micros (to_micros (p_published post))\<rparr>\<rparr>"

definition intent_text_ok :: "lib \<Rightarrow> instant \<Rightarrow> post \<Rightarrow> uuid \<Rightarrow> uuid \<Rightarrow> bool" where
  "intent_text_ok L now post i user \<longleftrightarrow>
     (\<forall>u \<in> {i, user, p_id post, p_feed post}. uuid_parse L (uuid_text L u) = Some u) \<and>
     (\<forall>t \<in> {now, p_published post}. time_parse L (pg_time_text L (to_micros t)) = Some (of_micros (to_micros t))) \<and>
     json_unmarshal L (jsonb_text L (intent_payload L now post i user)) = Some (intent_payload L now post i user)"

lemma intent_payload_members:
  "intent_payload L now post i user = JObj
     [(''data'', JObj
        [(''url'', JStr (p_url post)),
         (''body'', JStr (case p_description post of None \<Rightarrow> '''' | Some d \<Rightarrow> d)),
         (''title'', JStr (p_title post)),
         (''feed_id'', JStr (uuid_text L (p_feed post))),
         (''post_id'', JStr (uuid_text L (p_id post))),
         (''published_at'', JStr (pg_time_text L (to_micros (p_published post))))]),
      (''user_id'', JStr (uuid_text L user)),
      (''event_id'', JStr (uuid_text L i)),
      (''producer'', JStr notificationProducer),
      (''template'', JStr TemplateNewPost),
      (''event_type'', JStr NotificationRequested),
      (''occurred_at'', JStr (pg_time_text L (to_micros now))),
      (''schema_version'', JNum (Itoa RequestedSchemaV1)),
      (''notification_id'', JStr (uuid_text L i))]"
  by (simp add: intent_payload_def jsonb_build_object_def)

lemma decode_intent:
  assumes "intent_text_ok L now post i user"
  shows "requested_of_json L (intent_payload L now post i user) = Some (intent_event now post i user)"
proof -
  have p: "ParseInt 64 (Itoa RequestedSchemaV1) = Some RequestedSchemaV1"
    by (rule ParseInt_Itoa) (simp_all add: RequestedSchemaV1_def)
  show ?thesis
    using assms p
    by (simp add: intent_payload_members requested_of_json_def decode_struct_def requested_fields_def
        find_field_def uuid_field_def int_field_def string_field_def time_field_def data_field_def
        data_fields_def zero_requested_def zero_data_def intent_event_def intent_text_ok_def)
qed

lemma producer_not_blank: "TrimSpace notificationProducer \<noteq> ''''"
  by (simp add: TrimSpace_empty_iff notificationProducer_def space_chunk_def rune_of_def bytes_of_def
      is_space_rune_def)

lemma intent_message:
  assumes "carries rec (event_message L (intent_row L now post i user))"
  shows "k_topic rec = RequestsTopicV1" "k_key rec = uuid_text L user"
    "k_value rec = jsonb_text L (intent_payload L now post i user)"
    "record_headers (k_headers rec) =
      [''event_id'' \<mapsto> uuid_text L i, ''event_type'' \<mapsto> NotificationRequested,
       ''schema_version'' \<mapsto> ''1'', ''content-type'' \<mapsto> ''application/json'']"
  unfolding carries_simps [OF assms]
  by (simp_all add: event_message_def intent_row_def record_headers_def RequestedSchemaV1_def Itoa_1)

definition intent_acceptable :: "lib \<Rightarrow> instant \<Rightarrow> post \<Rightarrow> uuid \<Rightarrow> uuid \<Rightarrow> bool" where
  "intent_acceptable L now post i user \<longleftrightarrow>
     i \<noteq> nil_uuid \<and> user \<noteq> nil_uuid \<and> p_id post \<noteq> nil_uuid \<and> p_feed post \<noteq> nil_uuid \<and>
     TrimSpace (p_title post) \<noteq> '''' \<and> \<not> IsZero (of_micros (to_micros now)) \<and>
     \<not> IsZero (of_micros (to_micros (p_published post))) \<and> web_url L (p_url post)"

text \<open>The consumer accepts the request of a saved post exactly if the post is acceptable.\<close>

lemma DecodeRequested_intent:
  assumes ok: "intent_text_ok L now post i user"
    and rec: "carries rec (event_message L (intent_row L now post i user))"
  shows "DecodeRequested L (k_key rec) (record_headers (k_headers rec)) (k_value rec) = Inr e \<longleftrightarrow>
    e = intent_event now post i user \<and> intent_acceptable L now post i user"
proof -
  have un: "json_unmarshal L (jsonb_text L (intent_payload L now post i user)) =
      Some (intent_payload L now post i user)"
    using ok by (simp add: intent_text_ok_def)
  have decoded: "(\<exists>v rest. json_next L (jsonb_text L (intent_payload L now post i user)) = Some (v, rest) \<and>
        json_eof rest \<and> requested_of_json L v = Some e) \<longleftrightarrow> e = intent_event now post i user"
    using un decode_intent [OF ok]
    by (auto simp: json_unmarshal_def split: option.splits if_splits)
  show ?thesis
    unfolding DecodeRequested_iff intent_message [OF rec] decoded
    using producer_not_blank
    by (auto simp: well_formed_request_def intent_event_def intent_acceptable_def request_headers_def
        header_def RequestedSchemaV1_def)
qed

end
