(* ===== verification/Demo.thy ===== *)
theory Demo
  imports RoundTrip
begin

text \<open>
  A concrete instance of the external functions, and a concrete run of the service: the inputs
  on which the theorems of the other theories are applied. The texts of this instance are a
  simple prefix code, not JSON; it has the properties the program relies on (what is written
  can be read back, and \<open>jsonb\<close> orders the members of objects).
\<close>

section \<open>A prefix code for JSON values\<close>

fun enc_str :: "string \<Rightarrow> string" where
  "enc_str [] = [CHR ''.'']"
| "enc_str (c # cs) = CHR ''!'' # c # enc_str cs"

fun dec_str :: "string \<Rightarrow> (string \<times> string) option" where
  "dec_str (x # xs) =
     (if x = CHR ''.'' then Some ([], xs)
      else (case xs of [] \<Rightarrow> None
            | c # cs \<Rightarrow> map_option (\<lambda>(s, rest). (c # s, rest)) (dec_str cs)))"
| "dec_str [] = None"

lemma dec_enc_str [simp]: "dec_str (enc_str s @ r) = Some (s, r)"
  by (induction s) auto

fun enc :: "json \<Rightarrow> string" and enc_list :: "json list \<Rightarrow> string"
  and enc_members :: "(string \<times> json) list \<Rightarrow> string" where
  "enc JNull = ''n''"
| "enc (JBool b) = (if b then ''t'' else ''f'')"
| "enc (JNum s) = CHR ''#'' # enc_str s"
| "enc (JStr s) = CHR ''s'' # enc_str s"
| "enc (JArr vs) = CHR ''['' # enc_list vs"
| "enc (JObj ms) = CHR ''{'' # enc_members ms"
| "enc_list [] = '']''"
| "enc_list (v # vs) = CHR '','' # enc v @ enc_list vs"
| "enc_members [] = ''}''"
| "enc_members ((k, v) # ms) = CHR '','' # enc_str k @ enc v @ enc_members ms"

fun dec :: "nat \<Rightarrow> string \<Rightarrow> (json \<times> string) option"
  and dec_list :: "nat \<Rightarrow> string \<Rightarrow> (json list \<times> string) option"
  and dec_members :: "nat \<Rightarrow> string \<Rightarrow> ((string \<times> json) list \<times> string) option" where
  "dec (Suc n) (c # s) =
     (if c = CHR ''n'' then Some (JNull, s)
      else if c = CHR ''t'' then Some (JBool True, s)
      else if c = CHR ''f'' then Some (JBool False, s)
      else if c = CHR ''#'' then map_option (\<lambda>(x, r). (JNum x, r)) (dec_str s)
      else if c = CHR ''s'' then map_option (\<lambda>(x, r). (JStr x, r)) (dec_str s)
      else if c = CHR ''['' then map_option (\<lambda>(x, r). (JArr x, r)) (dec_list n s)
      else if c = CHR ''{'' then map_option (\<lambda>(x, r). (JObj x, r)) (dec_members n s)
      else None)"
| "dec 0 s = None"
| "dec (Suc n) [] = None"
| "dec_list (Suc n) (c # s) =
     (if c = CHR '']'' then Some ([], s)
      else (case dec n s of None \<Rightarrow> None
            | Some (v, r) \<Rightarrow> map_option (\<lambda>(vs, r'). (v # vs, r')) (dec_list n r)))"
| "dec_list 0 s = None"
| "dec_list (Suc n) [] = None"
| "dec_members (Suc n) (c # s) =
     (if c = CHR ''}'' then Some ([], s)
      else (case dec_str s of None \<Rightarrow> None
            | Some (k, r) \<Rightarrow>
                (case dec n r of None \<Rightarrow> None
                 | Some (v, r') \<Rightarrow> map_option (\<lambda>(ms, r''). ((k, v) # ms, r'')) (dec_members n r'))))"
| "dec_members 0 s = None"
| "dec_members (Suc n) [] = None"

lemma dec_enc:
  "length (enc v) \<le> n \<Longrightarrow> dec n (enc v @ r) = Some (v, r)"
  "length (enc_list vs) \<le> n \<Longrightarrow> dec_list n (enc_list vs @ r) = Some (vs, r)"
  "length (enc_members ms) \<le> n \<Longrightarrow> dec_members n (enc_members ms @ r) = Some (ms, r)"
proof (induction v and vs and ms arbitrary: n r and n r and n r rule: enc_enc_list_enc_members.induct)
  case 1 then show ?case by (cases n) auto
next
  case (2 b) then show ?case by (cases n) (auto split: if_splits)
next
  case (3 s) then show ?case by (cases n) auto
next
  case (4 s) then show ?case by (cases n) auto
next
  case (5 vs) then show ?case by (cases n) auto
next
  case (6 ms) then show ?case by (cases n) auto
next
  case 7 then show ?case by (cases n) auto
next
  case (8 v vs) then show ?case by (cases n) auto
next
  case 9 then show ?case by (cases n) auto
next
  case (10 k v ms) then show ?case by (cases n) auto
qed

fun canon :: "json \<Rightarrow> json" where
  "canon (JArr vs) = JArr (map canon vs)"
| "canon (JObj ms) = jsonb_build_object (map (\<lambda>(k, v). (k, canon v)) ms)"
| "canon v = v"

section \<open>The instance\<close>

definition demo_next :: "string \<Rightarrow> (json \<times> string) option" where
  "demo_next s = dec (length s) s"

definition demo_url :: "string \<Rightarrow> goUrl option" where
  "demo_url s =
     (if HasPrefix s ''https://'' then
        Some \<lparr>Scheme = ''https'', Host = drop 8 s, Hostname = drop 8 s, Port = '''', HasUser = False,
          Path = '''', RawQuery = '''', Fragment = '''', Opaque = ''''\<rparr>
      else None)"

definition demo_lib :: lib where
  "demo_lib =
     \<lparr>uuid_parse = (\<lambda>s. map_option word_of_int (ParseInt 130 s)),
      uuid_text = (\<lambda>u. Itoa (uint u)),
      uuid_sha1_url = (\<lambda>s. of_nat (length s)),
      time_parse = ParseInt 200, time_text = Itoa, url_parse = demo_url,
      json_next = demo_next, json_text = enc,
      jsonb_in = (\<lambda>s. case demo_next s of None \<Rightarrow> None
         | Some (v, rest) \<Rightarrow> if json_eof rest then Some (canon v) else None),
      jsonb_text = enc, pg_time_text = (\<lambda>t. Itoa (t * 1000))\<rparr>"

lemma demo_next_enc [simp]: "demo_next (enc v) = Some (v, [])"
  using dec_enc(1) [of v "length (enc v)" "[]"] by (simp add: demo_next_def)

lemma demo_lib_simps [simp]:
  "uuid_parse demo_lib = (\<lambda>s. map_option word_of_int (ParseInt 130 s))"
  "uuid_text demo_lib u = Itoa (uint u)" "time_parse demo_lib = ParseInt 200"
  "time_text demo_lib = Itoa" "url_parse demo_lib = demo_url" "json_text demo_lib = enc"
  "jsonb_text demo_lib = enc" "pg_time_text demo_lib t = Itoa (t * 1000)"
  by (simp_all add: demo_lib_def)

lemma demo_unmarshal [simp]: "json_unmarshal demo_lib (enc v) = Some v"
  by (simp add: json_unmarshal_def json_eof_def) (simp add: demo_lib_def json_eof_def)

lemma demo_jsonb_in [simp]: "jsonb_in demo_lib (enc v) = Some (canon v)"
  by (simp add: demo_lib_def json_eof_def)

lemma demo_json_next [simp]: "json_next demo_lib (enc v) = Some (v, [])"
  by (simp add: demo_lib_def)

lemma demo_valid [simp]: "json_valid demo_lib (enc v)"
  by (simp add: json_valid_def json_eof_def)

lemma demo_uuid [simp]: "ParseInt 130 (Itoa (uint (u :: uuid))) = Some (uint u)"
proof (rule ParseInt_Itoa)
  have "- (2 ^ (130 - 1)) \<le> (0 :: int)" by simp
  then show "- (2 ^ (130 - 1)) \<le> uint u" using uint_ge_0 [of u] by (rule order_trans)
  have "uint u < 2 ^ 128" using uint_lt2p [of u] by simp
  then show "uint u < 2 ^ (130 - 1)" by simp
qed

lemma demo_uuid_parse: "uuid_parse demo_lib (uuid_text demo_lib u) = Some u"
  by simp

section \<open>A concrete run\<close>

text \<open>
  A user adds a Telegram channel, a request for a post is accepted, the delivery is claimed, the
  send fails with a network error, and the delivery waits for its retry.
\<close>

definition demo_post :: post where
  "demo_post = \<lparr>p_id = 11, p_title = ''Hi'', p_description = None, p_published = 2000000,
     p_url = ''https://x'', p_feed = 12\<rparr>"

definition demo_payload :: string where
  "demo_payload = enc (intent_payload demo_lib 1000000 demo_post 100 7)"

definition demo_event :: requested where
  "demo_event = intent_event 1000000 demo_post 100 7"

definition demo_channel :: channel_row where
  "demo_channel = \<lparr>ch_id = 1, ch_user = 7, ch_type = ''telegram'', ch_destination = ''42'',
     ch_enabled = True, ch_created = 5, ch_updated = 5\<rparr>"

definition demo_inbox :: inbox_row where
  "demo_inbox = inbox_entry 10 demo_event (intent_payload demo_lib 1000000 demo_post 100 7)"

definition demo_pending :: delivery_row where
  "demo_pending = new_delivery 10 1000 demo_event demo_channel"

definition demo_claimed :: delivery_row where
  "demo_claimed = claim_row 20 (int64 Minute) (\<lambda>_. 555) demo_pending"

definition demo_task :: task where
  "demo_task = \<lparr>t_id = 1000, t_event = 100, t_user = 7, t_token = 555, t_attempts = 1,
     t_channel_type = ''telegram'',
     t_message = \<lparr>Recipient = ''42'', Title = ''Hi'', Body = '''', URL = ''https://x''\<rparr>\<rparr>"

definition db1 :: ndb where
  "db1 = \<lparr>channels = [demo_channel], inbox = [], deliveries = [], dispatch = []\<rparr>"
definition db2 :: ndb where
  "db2 = \<lparr>channels = [demo_channel], inbox = [demo_inbox], deliveries = [demo_pending], dispatch = []\<rparr>"
definition db3 :: ndb where
  "db3 = \<lparr>channels = [demo_channel], inbox = [demo_inbox], deliveries = [demo_claimed], dispatch = []\<rparr>"

lemma demo_text_ok: "intent_text_ok demo_lib 1000000 demo_post 100 7"
proof -
  have "ParseInt 200 (Itoa 1000000) = Some 1000000" "ParseInt 200 (Itoa 2000000) = Some 2000000"
    by (rule ParseInt_Itoa; simp)+
  then show ?thesis
    by (simp add: intent_text_ok_def demo_post_def to_micros_def of_micros_def)
qed

lemma demo_canon: "canon (intent_payload demo_lib i post e u) = intent_payload demo_lib i post e u"
  unfolding intent_payload_members by (simp add: jsonb_build_object_def)

lemma demo_decode: "requested_of_json demo_lib (intent_payload demo_lib 1000000 demo_post 100 7) = Some demo_event"
  using decode_intent [OF demo_text_ok] by (simp add: demo_event_def)

lemma pg_text_ascii:
  assumes "list_all (\<lambda>c. 0 < (of_char c :: nat) \<and> (of_char c :: nat) < 128) s"
  shows "pg_text s"
proof -
  have "string_of_runes (runes s) = s"
    using assms by (induction s) (simp_all add: string_of_runes_def encode_rune_def valid_rune_def)
  moreover have "CHR 0x00 \<notin> set s" using assms by (auto simp: list_all_iff)
  ultimately show ?thesis by (simp add: pg_text_def)
qed

lemma demo_create: "CreateChannel Applied 5 \<lparr>ch_id = 1, ch_user = 7, ch_type = ''telegram'',
    ch_destination = ''42'', ch_enabled = False\<rparr> empty_ndb = (Inr (channel.truncate demo_channel), db1)"
  by (simp add: CreateChannel_def autocommit_def insert_channel_def empty_ndb_def pg_text_ascii
      db1_def demo_channel_def Let_def)

lemma demo_accept: "AcceptRequest demo_lib (\<lambda>_. Applied) (\<lambda>_. 1000) 10 demo_event demo_payload db1 = (Inr (), db2)"
proof -
  have e: "EventType demo_event = NotificationRequested" "SchemaVersion demo_event = 1"
    "Template demo_event = TemplateNewPost" "UserID demo_event = 7" "EventID demo_event = 100"
    by (simp_all add: demo_event_def intent_event_def RequestedSchemaV1_def)
  have j: "is_json_object (intent_payload demo_lib 1000000 demo_post 100 7)"
    by (simp add: intent_payload_members is_json_object_def)
  show ?thesis
    using j
    by (simp add: AcceptRequest_def insert_inbox_def demo_payload_def demo_canon e db1_def db2_def
        demo_inbox_def inbox_entry_def insert_deliveries_def user_channels_def demo_channel_def
        demo_pending_def commit_def)
qed

lemma demo_claim: "Claim demo_lib Applied None 20 (\<lambda>_. False) (\<lambda>_. 555) 1 (int64 Minute) [''telegram''] db2 =
    (([demo_task], None), db3)"
proof -
  have m: "sint (int64 Minute) = 60000000000"
    by (simp add: sint_int64 in_int64_def time_unit_defs)
  have sel: "selected 20 (Suc 0) (\<lambda>_. False) [''telegram''] db2 = [demo_pending]"
    by (simp add: selected_def select_for_update_def db2_def claimable_def demo_pending_def new_delivery_def
        demo_channel_def demo_event_def intent_event_def)
  have t: "task_of_row demo_lib (demo_claimed, demo_channel, demo_inbox) = Inr demo_task"
    by (simp add: task_of_row_def demo_inbox_def inbox_entry_def demo_decode)
      (simp add: demo_claimed_def claim_row_def demo_pending_def new_delivery_def demo_task_def
        demo_channel_def demo_event_def intent_event_def demo_post_def)
  have c: "claim_stmt 20 (Suc 0) (int64 Minute) (\<lambda>_. False) (\<lambda>_. 555) [''telegram''] db2 =
      ([(demo_claimed, demo_channel, demo_inbox)], db3)"
    unfolding claim_stmt_def sel
    by (simp add: upd_def db2_def db3_def demo_claimed_def claim_row_def Let_def)
      (simp add: demo_pending_def new_delivery_def demo_channel_def demo_inbox_def inbox_entry_def)
  show ?thesis by (simp add: Claim_def m c scan_rows_def t)
qed

text \<open>The send fails: the worker schedules the first retry.\<close>

definition demo_error :: goerr where
  "demo_error = GoErr (NetError ''timeout'') []"

definition demo_senders :: registry where
  "demo_senders = [''telegram'' \<mapsto> (\<lambda>_. Some demo_error)]"

definition demo_chance :: chance where
  "demo_chance = \<lparr>ctx1 = None, ctx2 = None, rv = Fin (1 / 2), impl = (\<lambda>_. 0)\<rparr>"

definition demo_env :: env where
  "demo_env = \<lparr>e_oc = (\<lambda>_. Applied), e_brk = None, e_now = 30, e_clock = 30000, e_locked = (\<lambda>_. False),
     e_tok = (\<lambda>_. 777), e_id = 2000, e_fresh = (\<lambda>_. 3000)\<rparr>"

definition demo_delay :: duration where
  "demo_delay = fst (NextDelay (\<lambda>_. 0) (Fin (1 / 2)) (Some default_policy) (Some None) 1 (Some demo_error))"

definition demo_waiting :: delivery_row where
  "demo_waiting = release_row 30 StRetryWait ''provider_error'' demo_claimed"

definition demo_dispatch :: dispatch_row where
  "demo_dispatch = \<lparr>o_id = 2000, o_delivery = 1000, o_user = 7, o_attempt = 1, o_kind = ''retry'',
     o_topic = retryTopic demo_delay,
     o_payload = canon (dispatchPayload demo_lib 1000 100 7 1 ''provider_error''),
     o_available = micros (30000 + sint demo_delay), o_published = None, o_publish_attempts = 0,
     o_created = 30\<rparr>"

definition db4 :: ndb where
  "db4 = \<lparr>channels = [demo_channel], inbox = [demo_inbox], deliveries = [demo_waiting],
     dispatch = [demo_dispatch]\<rparr>"

lemma demo_next_delay:
  "NextDelay (\<lambda>_. 0) (Fin (1 / 2)) (Some default_policy) (Some None) 1 (Some demo_error) = (demo_delay, True)"
proof -
  have "IsRetryable (Some demo_error)"
    by (simp add: IsRetryable_def demo_error_def errors_as_def)
  then have "snd (NextDelay (\<lambda>_. 0) (Fin (1 / 2)) (Some default_policy) (Some None) 1 (Some demo_error))"
    by (simp add: NextDelay_retry_iff default_policy_def)
  then show ?thesis by (metis demo_delay_def prod.collapse)
qed

lemma demo_delay_positive: "500000000 \<le> sint demo_delay"
  by (rule NextDelay_default_positive [OF demo_next_delay]) simp

lemma demo_payload_object: "\<exists>ms. canon (dispatchPayload demo_lib 1000 100 7 1 ''provider_error'') = JObj ms"
  by (simp add: dispatchPayload_def jsonb_build_object_def)

lemma demo_mark_failed:
  "MarkFailed demo_lib (\<lambda>_. Applied) 30 30000 2000 demo_task demo_delay ''provider_error'' db3 = (Inr (), db4)"
proof -
  have row: "demo_claimed = \<lparr>d_id = 1000, d_event = 100, d_user = 7, d_channel = 1, d_status = StProcessing,
      d_attempts = 1, d_available = 10, d_token = Some 555,
      d_lease = Some (20 + Milliseconds (int64 Minute) * 1000), d_sent_at = None, d_error = None,
      d_created = 10, d_updated = 20\<rparr>"
    by (simp add: demo_claimed_def claim_row_def demo_pending_def new_delivery_def demo_event_def
        intent_event_def demo_channel_def)
  have holds: "holds_claim demo_task demo_claimed" by (simp add: holds_claim_def demo_task_def row)
  have act: "channelActive (t_id demo_task) db3"
    by (simp add: channelActive_def db3_def row demo_channel_def demo_task_def)
  have pos: "0 < sint demo_delay" using demo_delay_positive by simp
  have w: "d_id demo_waiting = 1000" "d_user demo_waiting = 7"
    by (simp_all add: demo_waiting_def release_row_def row)
  show ?thesis
    using act pos holds w demo_payload_object
    by (auto simp: MarkFailed_def db3_def db4_def upd_def affected_def insert_dispatch_def commit_def
        demo_waiting_def [symmetric] demo_dispatch_def is_json_object_def demo_task_def
        dispatchPayload_def [symmetric])
qed

lemma demo_send: "send_task demo_senders demo_task = Some demo_error"
  by (simp add: send_task_def Registry_Get_def demo_senders_def demo_task_def)

lemma demo_process:
  "Process (pg_store demo_lib (\<lambda>_. demo_env)) demo_senders (Some default_policy) demo_chance demo_task (db3, 0) =
    (None, (db4, 1))"
proof -
  have c: "safeErrorCode demo_error = ''provider_error''"
    by (simp add: safeErrorCode_def demo_error_def errors_as_def errors_is_def)
  have a: "t_attempts demo_task = 1" by (simp add: demo_task_def)
  show ?thesis
    by (simp add: Process_def demo_send demo_chance_def a demo_next_delay c pg_store_def demo_env_def
        demo_mark_failed err_of_def)
qed

text \<open>The same task, sent.\<close>

definition demo_ok_senders :: registry where
  "demo_ok_senders = [''telegram'' \<mapsto> (\<lambda>_. None)]"

definition demo_sent :: delivery_row where
  "demo_sent = sent_row 30 demo_claimed"

definition db5 :: ndb where
  "db5 = \<lparr>channels = [demo_channel], inbox = [demo_inbox], deliveries = [demo_sent], dispatch = []\<rparr>"

lemma demo_holds: "holds_claim demo_task demo_claimed"
  by (simp add: holds_claim_def demo_task_def demo_claimed_def claim_row_def demo_pending_def
      new_delivery_def)

lemma demo_process_sent:
  "Process (pg_store demo_lib (\<lambda>_. demo_env)) demo_ok_senders (Some default_policy) demo_chance demo_task (db3, 0) =
    (None, (db5, 1))"
proof -
  have "send_task demo_ok_senders demo_task = None"
    by (simp add: send_task_def Registry_Get_def demo_ok_senders_def demo_task_def)
  then show ?thesis
    using demo_holds
    by (simp add: Process_def pg_store_def demo_env_def MarkSent_def autocommit_def db3_def db5_def
        upd_def affected_def demo_sent_def err_of_def)
qed

definition demo_before :: sys where
  "demo_before = \<lparr>sdb = db3, held = [demo_task], slog = []\<rparr>"

definition demo_sys :: sys where
  "demo_sys = \<lparr>sdb = db4, held = [], slog = []\<rparr>"

definition demo_done :: sys where
  "demo_done = \<lparr>sdb = db5, held = [], slog = []\<rparr>"

lemma demo_before_reachable: "reachable demo_lib demo_before"
proof -
  let ?s0 = initial
  let ?s1 = "?s0\<lparr>sdb := db1\<rparr>"
  let ?s2 = "?s1\<lparr>sdb := db2\<rparr>"
  let ?s3 = "?s2\<lparr>sdb := db3, held := held ?s2 @ [demo_task]\<rparr>"
  have "sys_step demo_lib ?s0 ?s1"
    using demo_create by (intro sys_step.create) (simp add: initial_def)
  moreover have "sys_step demo_lib ?s1 ?s2"
    using demo_accept by (intro sys_step.accept) simp
  moreover have "sys_step demo_lib ?s2 ?s3"
    using demo_claim by (intro sys_step.claim) (simp_all add: initial_def)
  moreover have "?s3 = demo_before" by (simp add: initial_def demo_before_def)
  ultimately show ?thesis
    unfolding reachable_def by (metis (no_types, lifting) rtranclp.simps)
qed

lemma demo_step_process:
  assumes "Process (pg_store demo_lib (\<lambda>_. demo_env)) senders (Some default_policy) demo_chance demo_task (db3, 0) =
    (e, (db', 1))"
  shows "sys_step demo_lib demo_before \<lparr>sdb = db', held = [], slog = []\<rparr>"
proof -
  have "sys_step demo_lib demo_before (demo_before\<lparr>sdb := db', held := removeAll demo_task (held demo_before)\<rparr>)"
    using assms by (intro sys_step.process) (simp_all add: demo_before_def)
  then show ?thesis by (simp add: demo_before_def)
qed

lemma demo_step: "sys_step demo_lib demo_before demo_sys"
  using demo_step_process [OF demo_process] by (simp add: demo_sys_def)

lemma demo_step_sent: "sys_step demo_lib demo_before demo_done"
  using demo_step_process [OF demo_process_sent] by (simp add: demo_done_def)

lemma reachable_step: "reachable L s \<Longrightarrow> sys_step L s s' \<Longrightarrow> reachable L s'"
  by (simp add: reachable_def)

lemma demo_reachable: "reachable demo_lib demo_sys"
  by (rule reachable_step [OF demo_before_reachable demo_step])

lemma demo_done_reachable: "reachable demo_lib demo_done"
  by (rule reachable_step [OF demo_before_reachable demo_step_sent])

text \<open>The relay publishes the retry message.\<close>

definition demo_published :: dispatch_row where
  "demo_published = demo_dispatch\<lparr>o_published := Some (o_available demo_dispatch), o_publish_attempts := 1\<rparr>"

definition db6 :: ndb where
  "db6 = db4\<lparr>dispatch := [demo_published]\<rparr>"

definition demo_relayed :: sys where
  "demo_relayed = \<lparr>sdb = db6, held = [], slog = [dispatch_message demo_lib demo_dispatch]\<rparr>"

lemma demo_relay:
  "PublishOne demo_lib (dispatch_outbox demo_lib) (\<lambda>_. Applied) Acked (o_available demo_dispatch) (\<lambda>_. False)
     (db4, []) = ((True, None), (db6, [dispatch_message demo_lib demo_dispatch]))"
proof -
  obtain ms where ms: "o_payload demo_dispatch = JObj ms"
    using demo_payload_object by (auto simp: demo_dispatch_def)
  have sel: "select_for_update (\<lambda>r. (o_available r, o_created r, o_id r)) 1 (\<lambda>r. False)
      (dispatch_ready (o_available demo_dispatch)) [demo_dispatch] = [demo_dispatch]"
    by (simp add: select_for_update_def dispatch_ready_def) (simp add: demo_dispatch_def)
  define f where "f = \<lparr>fe_id = o_id demo_dispatch, fe_topic = o_topic demo_dispatch,
      fe_key = uuid_text demo_lib (o_user demo_dispatch),
      fe_payload = jsonb_text demo_lib (o_payload demo_dispatch),
      fe_type = ''notification.'' @ o_kind demo_dispatch,
      fe_version = 1, fe_attempts = o_publish_attempts demo_dispatch\<rparr>"
  have sel': "ob_select (dispatch_outbox demo_lib) (o_available demo_dispatch) (\<lambda>_. False) db4 = Inr f"
    using sel by (simp add: dispatch_outbox_def db4_def f_def)
  have m: "kafka_of (relay_record_of demo_lib f) = dispatch_message demo_lib demo_dispatch"
    by (simp add: f_def kafka_of_def relay_record_of_def published_headers_def dispatch_message_def
        List.map_filter_def Itoa_1)
  have v: "json_valid demo_lib (fe_payload f)" "fe_id f = o_id demo_dispatch" by (simp_all add: f_def)
  have mark: "ob_mark (dispatch_outbox demo_lib) (o_available demo_dispatch) (fe_id f) db4 = db6"
    by (simp add: v dispatch_outbox_def db6_def db4_def upd_def demo_published_def)
      (simp add: demo_dispatch_def)
  show ?thesis
    by (simp add: PublishOne_def sel' v(1) m Publish_def commit_def mark)
qed

lemma demo_relay_step: "sys_step demo_lib demo_sys demo_relayed"
proof -
  have "sys_step demo_lib demo_sys (demo_sys\<lparr>sdb := db6, slog := [dispatch_message demo_lib demo_dispatch]\<rparr>)"
    using demo_relay by (intro sys_step.relay) (simp add: demo_sys_def)
  then show ?thesis by (simp add: demo_sys_def demo_relayed_def)
qed

lemma demo_relayed_reachable: "reachable demo_lib demo_relayed"
  by (rule reachable_step [OF demo_reachable demo_relay_step])

lemmas demo_row_defs = demo_claimed_def claim_row_def demo_pending_def new_delivery_def demo_channel_def

end
