(* ===== verification/PipelineProps.thy ===== *)
theory PipelineProps
  imports Demo
begin

text \<open>
  Properties of the delivery pipeline: what each method of the delivery store does, what the
  consumer and the relay guarantee over restarts, and the round trips of a request and of a retry
  through the outbox, Kafka and the inbox.
\<close>

section \<open>The stages of the example keep the invariant\<close>

lemma db1_inv: "pipeline_inv demo_lib 8 db1"
  by (rule CreateChannel_inv [OF pipeline_inv_empty demo_create])

lemma db2_inv: "pipeline_inv demo_lib 8 db2"
  by (rule AcceptRequest_inv [OF db1_inv _ demo_accept]) simp

lemma db3_inv: "pipeline_inv demo_lib 8 db3"
  by (rule Claim_inv [OF db2_inv demo_claim])

lemma db4_inv: "pipeline_inv demo_lib 8 db4"
  using reachable_inv [OF demo_reachable] by (simp add: sys_inv_def demo_sys_def)

lemmas demo_schema = db1_inv [THEN pipeline_inv_schema] db2_inv [THEN pipeline_inv_schema]
  db3_inv [THEN pipeline_inv_schema] db4_inv [THEN pipeline_inv_schema]

lemma demo_event_fields [simp]: "EventID demo_event = 100" "UserID demo_event = 7"
  by (simp_all add: demo_event_def intent_event_def)

section \<open>Accepting a request\<close>

lemma no_event_no_delivery:
  assumes "schema_ok s" "\<not> has_event i s" "d \<in> set (deliveries s)"
  shows "d_event d \<noteq> i"
  using schema_delivery(4) [OF assms(1,3)] assms(2) by (auto simp: has_event_def)

lemma AcceptRequest_new:
  assumes s: "schema_ok s" and new: "\<not> has_event (EventID event) s"
    and res: "AcceptRequest L oc fresh now event payload s = (Inr (), s')"
  shows "deliveries s' = deliveries s @
    map (\<lambda>c. new_delivery now (fresh (ch_id c)) event c) (user_channels (UserID event) s)"
proof -
  have "s' \<noteq> s" using AcceptRequest_Inr [OF res] new by auto
  then obtain s1 where s1: "insert_inbox L now event payload s = Inr (1, s1)"
    "insert_deliveries fresh now event s1 = Inr s'"
    using AcceptRequest_state [OF res] by auto
  have eq: "deliveries s1 = deliveries s" "channels s1 = channels s"
    using insert_inbox_Inr [OF s1(1)] by auto
  have uc: "user_channels (UserID event) s1 = user_channels (UserID event) s"
    by (simp add: user_channels_def eq)
  have flt: "filter (\<lambda>c. \<not> (\<exists>d \<in> set (deliveries s). d_event d = EventID event \<and> d_channel d = ch_id c)) cs = cs" for cs
    using no_event_no_delivery [OF s new] by (auto intro: filter_True)
  obtain rows where rows: "deliveries s' = deliveries s1 @ rows"
    "rows = map (\<lambda>c. new_delivery now (fresh (ch_id c)) event c)
       (filter (\<lambda>c. \<not> (\<exists>d \<in> set (deliveries s1). d_event d = EventID event \<and> d_channel d = ch_id c))
         (user_channels (UserID event) s1))"
    using insert_deliveries_Inr [OF s1(2)] by fastforce
  show ?thesis unfolding rows eq uc flt ..
qed

lemma AcceptRequest_new_row:
  assumes s: "schema_ok s" "\<not> has_event (EventID event) s"
    and res: "AcceptRequest L oc fresh now event payload s = (Inr (), s')"
    and c: "c \<in> set (channels s)" "ch_user c = UserID event" "ch_enabled c"
  shows "\<exists>!d. d \<in> set (deliveries s') \<and> d_event d = EventID event \<and> d_channel d = ch_id c"
proof (rule ex1I [of _ "new_delivery now (fresh (ch_id c)) event c"])
  show "new_delivery now (fresh (ch_id c)) event c \<in> set (deliveries s') \<and>
    d_event (new_delivery now (fresh (ch_id c)) event c) = EventID event \<and>
    d_channel (new_delivery now (fresh (ch_id c)) event c) = ch_id c"
    using c AcceptRequest_new [OF s res] by (auto simp: user_channels_def new_delivery_def)
next
  fix d assume "d \<in> set (deliveries s') \<and> d_event d = EventID event \<and> d_channel d = ch_id c"
  then show "d = new_delivery now (fresh (ch_id c)) event c"
    using no_event_no_delivery [OF s] AcceptRequest_new [OF s res] channel_by_id [OF s(1) _ c(1)]
    by (auto simp: user_channels_def new_delivery_def)
qed

text \<open>C3: a request the service has not seen yields exactly one delivery for every enabled channel of
  its user, waiting for its first attempt, none for another channel, and leaves the deliveries of
  other events alone.\<close>

theorem fan_out_exact:
  assumes "schema_ok s" "\<not> has_event (EventID event) s"
    and "AcceptRequest L oc fresh now event payload s = (Inr (), s')"
  shows "(\<forall>c \<in> set (channels s). ch_user c = UserID event \<and> ch_enabled c \<longrightarrow>
      (\<exists>!d. d \<in> set (deliveries s') \<and> d_event d = EventID event \<and> d_channel d = ch_id c)) \<and>
    (\<forall>d \<in> set (deliveries s'). d_event d = EventID event \<longrightarrow>
      d_status d = StPending \<and> d_attempts d = 0 \<and> d_user d = UserID event \<and>
      (\<exists>c \<in> set (channels s). ch_id c = d_channel d \<and> ch_user c = UserID event \<and> ch_enabled c)) \<and>
    filter (\<lambda>d. d_event d \<noteq> EventID event) (deliveries s') = deliveries s"
proof -
  note rows = AcceptRequest_new [OF assms]
  have old: "\<forall>d \<in> set (deliveries s). d_event d \<noteq> EventID event"
    using no_event_no_delivery [OF assms(1,2)] by blast
  show ?thesis
    using old rows AcceptRequest_new_row [OF assms] by (auto simp: user_channels_def new_delivery_def)
qed

theorem fan_out_exact_witness:
  "\<exists>!d. d \<in> set (deliveries db2) \<and> d_event d = 100 \<and> d_channel d = ch_id demo_channel"
  using fan_out_exact [OF demo_schema(1) _ demo_accept]
  by (simp add: db1_def has_event_def) (simp add: demo_channel_def)

text \<open>C19: Kafka may deliver a request again: a request whose identity is already in the inbox changes
  nothing, and it is only reported as accepted when user and payload are those of the first one.\<close>

theorem replay_harmless:
  assumes "schema_ok s" "i \<in> set (inbox s)" "in_event i = EventID event"
    and "AcceptRequest L oc fresh now event payload s = (res, s')"
  shows "s' = s \<and> (res = Inr () \<longrightarrow> in_user i = UserID event \<and> Some (in_payload i) = jsonb_in L payload)"
proof -
  have f: "find (\<lambda>r. in_event r = EventID event) (inbox s) = Some i"
    using find_unique [OF _ assms(2), of in_event] assms(1,3) by (simp add: schema_ok_def)
  have ins: "insert_inbox L now event payload s = Inr (n, s1) \<Longrightarrow> n = 0 \<and> s1 = s" for n s1
    using insert_inbox_Inr [of L now event payload s n s1] assms(2,3) by auto
  show ?thesis
    using assms(4) f
    by (auto simp: AcceptRequest_def compare_inbox_def commit_Inr split: sum.splits if_splits dest!: ins commit_stateD)
qed

theorem replay_harmless_witness:
  "snd (AcceptRequest demo_lib (\<lambda>_. Applied) (\<lambda>_. 1001) 11 demo_event demo_payload db2) = db2 \<and>
   snd (AcceptRequest demo_lib (\<lambda>_. Applied) (\<lambda>_. 1001) 11 demo_event (enc JNull) db2) = db2"
  using replay_harmless [OF demo_schema(2), of demo_inbox demo_event, OF _ _ surjective_pairing]
  by (simp add: db2_def demo_inbox_def inbox_entry_def)

section \<open>Claiming deliveries\<close>

lemma claim_stmt_state: "snd (claim_stmt now n lease locked tok types s) = claimed_state now n lease locked tok types s"
  by (simp add: claim_stmt_def claimed_state_def Let_def)

lemma broken_rows_error: "snd (broken_rows L brk e rows) \<noteq> None"
  by (auto simp: broken_rows_def scan_rows_def split: option.splits sum.splits)

lemma Claim_success:
  assumes "Claim L oc brk now locked tok limit lease types s = ((ts, None), s')"
  shows "s' = claimed_state now (nat limit) lease locked tok types s"
proof -
  obtain rows s1 where c: "claim_stmt now (nat limit) lease locked tok types s = (rows, s1)" by fastforce
  have "broken_rows L brk e rows \<noteq> (ts, None)" for e
    using broken_rows_error [of L brk e rows] by auto
  then have "s' = s1"
    using assms by (cases oc) (auto simp: Claim_def c split: if_splits)
  then show ?thesis using claim_stmt_state [of now "nat limit" lease locked tok types s] c by simp
qed

lemma selected_row:
  assumes "d \<in> set (selected now n locked types s)"
  shows "d \<in> set (deliveries s)" "claimable now types s d" "\<not> locked (d_id d)"
  using set_select_for_update [OF assms [unfolded selected_def]] by auto

lemma claimed_row:
  assumes "d \<in> set (selected now n locked types s)"
  shows "claim_row now lease tok d \<in> set (deliveries (claimed_state now n lease locked tok types s))"
  using selected_row(1) [OF assms] assms by (simp add: claimed_state_def upd_changed)

lemma Claim_holds:
  assumes "schema_ok s" "Claim L oc brk now locked tok limit lease types s = ((ts, None), s')" "t \<in> set ts"
  shows "\<exists>d \<in> set (deliveries s). d \<in> set (selected now (nat limit) locked types s) \<and> t_id t = d_id d \<and>
    claim_row now lease tok d \<in> set (deliveries s') \<and> holds_claim t (claim_row now lease tok d) \<and>
    t_attempts t = d_attempts d + 1 \<and>
    (\<exists>c \<in> set (channels s). ch_id c = d_channel d \<and> ch_user c = d_user d \<and> ch_enabled c \<and>
      ch_type c \<in> set types \<and> Recipient (t_message t) = ch_destination c)"
proof -
  obtain d where d: "task_for now (nat limit) lease locked tok types s t d"
    using Claim_tasks [OF assms(1,2)] assms(3) by auto
  then have sel: "d \<in> set (selected now (nat limit) locked types s)" by (simp add: task_for_def)
  then show ?thesis
    using d selected_row(1) [OF sel] claimed_row [OF sel, of lease tok]
    by (intro bexI [of _ d]) (auto simp: task_for_def Claim_success [OF assms(2)] holds_claim_def claim_row_def)
qed

text \<open>C18: a claim hands out at most the asked number of deliveries, each of them pending, due, not locked
  by another worker and on an enabled channel of a supported type; the row is then in processing under
  the task's token, with one attempt more, and the message goes to the channel's destination.\<close>

theorem claim_correct:
  assumes "schema_ok s" "Claim L oc brk now locked tok limit lease types s = ((ts, None), s')"
  shows "length ts \<le> nat limit \<and>
    (\<forall>t \<in> set ts. \<exists>d \<in> set (deliveries s). \<exists>d' \<in> set (deliveries s'). \<exists>c \<in> set (channels s).
       t_id t = d_id d \<and> d_status d = StPending \<and> d_available d \<le> now \<and> \<not> locked (d_id d) \<and>
       d_id d' = d_id d \<and> holds_claim t d' \<and> d_attempts d' = d_attempts d + 1 \<and> t_attempts t = d_attempts d' \<and>
       ch_id c = d_channel d \<and> ch_user c = d_user d \<and> ch_enabled c \<and> ch_type c \<in> set types \<and>
       Recipient (t_message t) = ch_destination c)"
proof (intro conjI ballI)
  show "length ts \<le> nat limit" using Claim_length [OF assms] by simp
  fix t assume "t \<in> set ts"
  from Claim_holds [OF assms this] obtain d where
    d: "d \<in> set (deliveries s)" "t_id t = d_id d" "claim_row now lease tok d \<in> set (deliveries s')"
      "holds_claim t (claim_row now lease tok d)" "t_attempts t = d_attempts d + 1" and
    sel: "d \<in> set (selected now (nat limit) locked types s)" and
    c: "\<exists>c \<in> set (channels s). ch_id c = d_channel d \<and> ch_user c = d_user d \<and> ch_enabled c \<and>
      ch_type c \<in> set types \<and> Recipient (t_message t) = ch_destination c"
    by blast
  have ok: "d_status d = StPending" "d_available d \<le> now" "\<not> locked (d_id d)"
    using selected_row(2,3) [OF sel] by (simp_all add: claimable_def)
  show "\<exists>d \<in> set (deliveries s). \<exists>d' \<in> set (deliveries s'). \<exists>c \<in> set (channels s).
       t_id t = d_id d \<and> d_status d = StPending \<and> d_available d \<le> now \<and> \<not> locked (d_id d) \<and>
       d_id d' = d_id d \<and> holds_claim t d' \<and> d_attempts d' = d_attempts d + 1 \<and> t_attempts t = d_attempts d' \<and>
       ch_id c = d_channel d \<and> ch_user c = d_user d \<and> ch_enabled c \<and> ch_type c \<in> set types \<and>
       Recipient (t_message t) = ch_destination c"
    using d ok c by (intro bexI [of _ d] bexI [of _ "claim_row now lease tok d"]) (auto simp: claim_row_def)
qed

theorem claim_correct_witness:
  "length [demo_task] \<le> nat 1 \<and> (\<exists>d' \<in> set (deliveries db3). holds_claim demo_task d' \<and> d_attempts d' = 1)"
  using claim_correct [OF demo_schema(2) demo_claim] by (auto simp: demo_task_def)



section \<open>Finishing an attempt\<close>

lemma MarkSent_lost:
  assumes "\<forall>d \<in> set (deliveries s). \<not> holds_claim t d"
  shows "snd (MarkSent oc now t s) = s" "fst (MarkSent oc now t s) \<noteq> Inr ()"
proof -
  have "affected (holds_claim t) (deliveries s) = 0" "upd (holds_claim t) f (deliveries s) = deliveries s" for f
    using assms by (simp_all add: affected_0 upd_id)
  then show "snd (MarkSent oc now t s) = s" "fst (MarkSent oc now t s) \<noteq> Inr ()"
    by (auto simp: MarkSent_def autocommit_def split: outcome.splits if_splits)
qed

text \<open>C17: a worker whose claim is gone (its lease ran out and the delivery was recovered, claimed again,
  finished or cancelled) changes nothing with its late result, and is told so.\<close>

theorem stale_claim_harmless:
  assumes "\<forall>d \<in> set (deliveries s). \<not> holds_claim t d"
  shows "snd (MarkSent oc1 now t s) = s \<and> fst (MarkSent oc1 now t s) \<noteq> Inr () \<and>
    snd (MarkFailed L oc now clock i t delay code s) = s \<and>
    fst (MarkFailed L oc now clock i t delay code s) \<noteq> Inr ()"
proof -
  have a: "affected (holds_claim t) (deliveries s) = 0" "upd (holds_claim t) f (deliveries s) = deliveries s" for f
    using assms by (simp_all add: affected_0 upd_id)
  show ?thesis
    using MarkSent_lost [OF assms]
    by (auto simp: MarkFailed_def a autocommit_def Let_def split: outcome.splits sum.splits prod.splits if_splits)
qed

theorem stale_claim_harmless_witness:
  "snd (MarkSent Applied 40 demo_task db4) = db4 \<and> fst (MarkSent Applied 40 demo_task db4) \<noteq> Inr ()"
  using stale_claim_harmless [of db4 demo_task Applied 40]
  by (simp add: db4_def demo_waiting_def release_row_def holds_claim_def)

lemma MarkSent_Inr:
  assumes "MarkSent oc now t s = (Inr (), s')"
  shows "affected (holds_claim t) (deliveries s) = 1"
    "s' = s\<lparr>deliveries := upd (holds_claim t) (sent_row now) (deliveries s)\<rparr>"
  using assms by (auto simp: MarkSent_def autocommit_def split: outcome.splits if_splits)

lemma upd_claim:
  assumes "schema_ok s" "d \<in> set (deliveries s)" "holds_claim t d"
  shows "upd (holds_claim t) f (deliveries s) = upd (\<lambda>x. x = d) f (deliveries s)"
  using holds_claim_row [OF assms] by (simp add: upd_def)

text \<open>A success is recorded for exactly the delivery the worker holds, once: the row becomes sent, with
  the time and without its lease, and no other row of the database changes.\<close>

theorem mark_sent_exact:
  assumes "schema_ok s" "MarkSent oc now t s = (Inr (), s')"
  shows "\<exists>d \<in> set (deliveries s). holds_claim t d \<and>
    s' = s\<lparr>deliveries := upd (\<lambda>x. x = d) (sent_row now) (deliveries s)\<rparr> \<and>
    fst (MarkSent oc2 now2 t s') \<noteq> Inr ()"
proof -
  note res = MarkSent_Inr [OF assms(2)]
  obtain d where d: "d \<in> set (deliveries s)" "holds_claim t d"
    using affected_1_obtain [OF res(1)] by metis
  have "\<forall>x \<in> set (deliveries s'). \<not> holds_claim t x"
    using res(2) by (auto simp: set_upd holds_claim_def sent_row_def)
  then have "fst (MarkSent oc2 now2 t s') \<noteq> Inr ()"
    by (rule MarkSent_lost)
  then show ?thesis using d res(2) upd_claim [OF assms(1) d] by auto
qed

theorem mark_sent_exact_witness:
  "\<exists>d \<in> set (deliveries db3). holds_claim demo_task d \<and>
    db5 = db3\<lparr>deliveries := upd (\<lambda>x. x = d) (sent_row 30) (deliveries db3)\<rparr>"
proof -
  have "MarkSent Applied 30 demo_task db3 = (Inr (), db5)"
    using demo_holds
    by (simp add: MarkSent_def autocommit_def db3_def db5_def affected_def upd_def demo_sent_def)
  from mark_sent_exact [OF demo_schema(3) this] show ?thesis by blast
qed

lemma MarkFailed_Inr:
  assumes "MarkFailed L oc now clock i t delay code s = (Inr (), s')"
  shows "affected (holds_claim t) (deliveries s) = 1"
    "\<not> channelActive (t_id t) s \<Longrightarrow>
      s' = s\<lparr>deliveries := upd (holds_claim t) (release_row now StCancelled ''channel_disabled'') (deliveries s)\<rparr>"
    "channelActive (t_id t) s \<Longrightarrow> \<exists>code'. insert_dispatch now i (t_id t) (t_user t) (t_attempts t)
      (if 0 < sint delay then ''retry'' else ''dlq'') (if 0 < sint delay then retryTopic delay else DLQTopicV1)
      (jsonb_in L (json_text L (dispatchPayload L (t_id t) (t_event t) (t_user t) (t_attempts t) code')))
      (micros (if 0 < sint delay then clock + sint delay else clock))
      (s\<lparr>deliveries := upd (holds_claim t)
         (release_row now (if 0 < sint delay then StRetryWait else StFailed) code') (deliveries s)\<rparr>) = Inr s'"
  using assms by (auto simp: MarkFailed_def commit_Inr Let_def split: sum.splits prod.splits if_splits)

text \<open>C5: a recorded failure releases exactly the delivery the worker holds. When the channel is gone or
  disabled the delivery is cancelled without a message; with a positive delay it waits for a retry,
  announced on the retry topic of the delay and not before the delay is over; otherwise it has failed
  and its dead letter is in the outbox at once.\<close>

theorem mark_failed_outcome:
  assumes inv: "pipeline_inv L M s" and agr: "agrees t s"
    and res: "MarkFailed L oc now clock i t delay code s = (Inr (), s')"
  shows "\<exists>d \<in> set (deliveries s). \<exists>st code'. holds_claim t d \<and>
    deliveries s' = upd (\<lambda>x. x = d) (release_row now st code') (deliveries s) \<and>
    (if \<not> active_in (channels s) d then st = StCancelled \<and> dispatch s' = dispatch s
     else if 0 < sint delay then st = StRetryWait \<and>
       (\<exists>r. dispatch s' = dispatch s @ [r] \<and> announces L d ''retry'' r \<and> o_topic r = retryTopic delay \<and>
         o_available r = micros (clock + sint delay))
     else st = StFailed \<and>
       (\<exists>r. dispatch s' = dispatch s @ [r] \<and> announces L d ''dlq'' r \<and> o_topic r = DLQTopicV1 \<and>
         o_available r = micros clock))"
proof -
  note s = pipeline_inv_schema [OF inv]
  obtain d where d: "d \<in> set (deliveries s)" "holds_claim t d"
    using affected_1_obtain [OF MarkFailed_Inr(1) [OF res]] by metis
  have t: "t_id t = d_id d" "t_user t = d_user d" "t_event t = d_event d" "t_attempts t = d_attempts d"
    using d agr by (auto simp: holds_claim_def agrees_def task_agrees_def)
  have act: "channelActive (t_id t) s \<longleftrightarrow> active_in (channels s) d"
    using channelActive_iff [OF s d(1)] t by simp
  have fresh: "\<forall>r \<in> set (dispatch s). o_delivery r = d_id d \<longrightarrow> o_attempt r \<noteq> d_attempts d"
    using pipeline_inv_delivery [OF inv d(1)] d(2) by (auto simp: delivery_ok_def holds_claim_def)
  show ?thesis
  proof (cases "active_in (channels s) d")
    case False
    then show ?thesis
      using MarkFailed_Inr(2) [OF res] act d upd_claim [OF s d] by (auto intro!: bexI [of _ d])
  next
    case True
    let ?st = "if 0 < sint delay then StRetryWait else StFailed"
    obtain code' where "insert_dispatch now i (d_id d) (d_user d) (d_attempts d)
        (if 0 < sint delay then ''retry'' else ''dlq'') (if 0 < sint delay then retryTopic delay else DLQTopicV1)
        (jsonb_in L (json_text L (dispatchPayload L (d_id d) (d_event d) (d_user d) (d_attempts d) code')))
        (micros (if 0 < sint delay then clock + sint delay else clock))
        (s\<lparr>deliveries := upd (holds_claim t) (release_row now ?st code') (deliveries s)\<rparr>) = Inr s'"
      using MarkFailed_Inr(3) [OF res] act True t by auto
    from insert_dispatch_Inr [OF this] fresh upd_claim [OF s d] d True show ?thesis
      by (intro bexI [of _ d] exI [of _ ?st] exI [of _ code']) (auto simp: announces_def)
  qed
qed

theorem mark_failed_outcome_witness:
  "\<exists>r. dispatch db4 = dispatch db3 @ [r] \<and> o_topic r = retryTopic demo_delay \<and>
    o_available r = micros (30000 + sint demo_delay)"
proof -
  have a: "agrees demo_task db3" using reachable_inv [OF demo_before_reachable]
    by (simp add: sys_inv_def demo_before_def)
  have act: "active_in (channels db3) demo_claimed"
    by (simp add: active_in_def db3_def demo_channel_def demo_claimed_def claim_row_def demo_pending_def new_delivery_def)
  show ?thesis
    using mark_failed_outcome [OF db3_inv a demo_mark_failed] act demo_delay_positive by (auto simp: db3_def)
qed

section \<open>Recovering expired leases\<close>

lemma recovered_not_processing: "recovered now x y \<Longrightarrow> d_status y \<noteq> StProcessing"
  by (auto simp: recovered_def recover_row_def release_row_def)

text \<open>C15: a crashed worker does not hold a delivery for ever: when a recovery succeeds, every delivery with
  an expired lease has left processing, unless another transaction has locked its row or the batch
  was full; it handles at most the asked number and touches no other delivery.\<close>

theorem recovery_frees:
  assumes s: "schema_ok s" and res: "RecoverExpired L oc now locked fresh limit m s = (Inr n, s')"
  shows "int n \<le> limit \<and>
    (\<forall>d \<in> set (deliveries s). \<not> expired now d \<or> locked (d_id d) \<longrightarrow> d \<in> set (deliveries s')) \<and>
    (int n < limit \<longrightarrow> (\<forall>d \<in> set (deliveries s'). expired now d \<longrightarrow> locked (d_id d)))"
proof -
  let ?all = "filter (\<lambda>d. \<not> locked (d_id d)) (sort_key (\<lambda>d. (the (d_lease d), d_id d)) (filter (expired now) (deliveries s)))"
  define ts where "ts = take (nat limit) ?all"
  obtain k where loop: "recover_loop L oc 2 fresh now m ts s = Inr (k, s')" and n: "n = length ts" and lim: "0 < limit"
    using res by (auto simp: RecoverExpired_def select_for_update_def ts_def [symmetric] commit_Inr
        split: if_splits sum.splits prod.splits)
  have "distinct (map d_id ts)"
    using distinct_map_select [OF schema_d_id [OF s]] unfolding select_for_update_def ts_def .
  from recover_loop_rows [OF loop this] obtain g where
    g: "deliveries s' = map g (deliveries s)" "\<And>x. d_id x \<notin> d_id ` set ts \<Longrightarrow> g x = x"
      "\<And>x. d_id x \<in> d_id ` set ts \<Longrightarrow> recovered now x (g x)" by metis
  have in_ts: "x \<in> set ts \<Longrightarrow> x \<in> set (deliveries s) \<and> expired now x \<and> \<not> locked (d_id x)" for x
    by (auto simp: ts_def dest!: in_set_takeD)
  have keep: "g d = d" if "d \<in> set (deliveries s)" "\<not> expired now d \<or> locked (d_id d)" for d
    using g(2) [of d] in_ts row_by_id [OF s that(1)] that(2) by blast
  have full: "locked (d_id d)" if lt: "int n < limit" and d: "d \<in> set (deliveries s')" and e: "expired now d" for d
  proof (rule ccontr)
    assume nl: "\<not> locked (d_id d)"
    obtain x where x: "x \<in> set (deliveries s)" "d = g x" using d g(1) by auto
    have "d_id x \<notin> d_id ` set ts"
      using recovered_not_processing [OF g(3) [of x]] e x(2) by (auto simp: expired_def)
    then have "d = x" using g(2) x(2) by simp
    have "length ts < nat limit" using lt n lim by linarith
    then have "ts = ?all" by (simp add: ts_def)
    then have "x \<in> set ts" using x(1) \<open>d = x\<close> e nl by simp
    then show False using \<open>d_id x \<notin> d_id ` set ts\<close> by simp
  qed
  have "length ts \<le> nat limit" by (simp add: ts_def)
  then show ?thesis using n lim keep g(1) full by (metis (no_types, lifting) image_eqI list.set_map of_nat_le_iff nat_0_le less_imp_le)
qed

definition db7 :: ndb where
  "db7 = db3\<lparr>deliveries := [recover_row 60000021 StPending ''lease_expired'' demo_claimed]\<rparr>"

lemma demo_recover:
  "RecoverExpired demo_lib (\<lambda>_. Applied) 60000021 (\<lambda>_. False) (\<lambda>_. 9) 10 8 db3 = (Inr 1, db7)"
proof -
  have m: "Milliseconds (int64 Minute) = 60000"
    by (simp add: Milliseconds_def dur_div_def sint_int64 in_int64_def time_unit_defs signed_take_bit_int_eq_self)
  have x: "expired 60000021 demo_claimed" by (simp add: expired_def demo_claimed_def claim_row_def m)
  have act: "channelActive (d_id demo_claimed) db3"
    by (simp add: channelActive_def db3_def demo_row_defs)
  have a: "d_attempts demo_claimed = 1" by (simp add: demo_row_defs)
  show ?thesis
    using x act a
    by (simp add: RecoverExpired_def select_for_update_def db3_def db7_def commit_def upd_def)
qed

theorem recovery_frees_witness:
  "filter (expired 60000021) (deliveries db7) = []"
  using recovery_frees [OF demo_schema(3) demo_recover] by (simp add: filter_empty_conv)

section \<open>The consumer over its restarts\<close>

text \<open>C14: at least once: whatever fails and however often the consumer is restarted, every request whose
  offset is committed is in the inbox or in the dead letter topic, and the database keeps its invariant.\<close>

theorem committed_handled:
  assumes "pipeline_inv L 8 (fst (fst (c_st c)))" "c_committed c = 0" "c_pos c = 0"
    and "c' = Consumer_runs L (pg_inbox L E) part pss c" "i < c_committed c'"
    and "k_topic (part ! i) = RequestsTopicV1"
  shows "pipeline_inv L 8 (fst (fst (c_st c'))) \<and> i < length part \<and>
    (rejected L (part ! i) (snd (c_st c')) \<or>
     (\<exists>event. is_request L (part ! i) event \<and> has_event (EventID event) (fst (fst (c_st c')))))"
proof -
  have "pgi.progress L part c" using assms(1-3) by (simp add: pgi.progress_def)
  from pgi.Consumer_runs_progress [OF this, of E pss] show ?thesis
    using assms(4-6) by (auto simp: pgi.progress_def pgi.handled_def)
qed

definition demo_record :: kafka_record where
  "demo_record = kafka_msg.extend (event_message demo_lib (intent_row demo_lib 1000000 demo_post 100 7))
     \<lparr>k_partition = 0, k_offset = 0\<rparr>"

lemma carries_extend: "carries (kafka_msg.extend m x) m"
  by (simp add: carries_def kafka_msg.defs)

lemma demo_acceptable: "intent_acceptable demo_lib 1000000 demo_post 100 7"
  by (simp add: intent_acceptable_def demo_post_def of_micros_def to_micros_def IsZero_def zero_time_def
      web_url_def demo_url_def HasPrefix_def time_unit_defs TrimSpace_empty_iff space_chunk_def rune_of_def
      bytes_of_def is_space_rune_def)

lemma demo_record_request: "is_request demo_lib demo_record demo_event"
  and demo_record_value: "k_value demo_record = demo_payload"
  using DecodeRequested_intent [OF demo_text_ok carries_extend, where e = demo_event] demo_acceptable
    intent_message [OF carries_extend, of demo_lib 1000000 demo_post 100 7]
  by (simp_all add: is_request_def demo_record_def demo_event_def demo_payload_def)

definition demo_consumer :: "(ndb \<times> nat) consumer_state" where
  "demo_consumer = \<lparr>c_st = ((db1, 0), []), c_pos = 0, c_committed = 0\<rparr>"

definition demo_inbox_env :: env where
  "demo_inbox_env = demo_env\<lparr>e_now := 10, e_fresh := (\<lambda>_. 1000)\<rparr>"

lemma demo_consume:
  "Consumer_runs demo_lib (pg_inbox demo_lib (\<lambda>_. demo_inbox_env)) [demo_record]
     [[NextRecord Acked 0 Committed], [NoRecord]] demo_consumer =
   \<lparr>c_st = ((db2, 1), []), c_pos = 1, c_committed = 1\<rparr>"
proof -
  have "Consumer_Process demo_lib (pg_inbox demo_lib (\<lambda>_. demo_inbox_env)) Acked 0 (Some demo_record) ((db1, 0), []) =
    (None, ((db2, 1), []))"
    using demo_record_request demo_record_value demo_accept
    by (simp add: Consumer_Process_def is_request_def pg_inbox_def demo_inbox_env_def demo_env_def)
  then show ?thesis by (simp add: Consumer_Run_def demo_consumer_def commit_record_def)
qed

theorem committed_handled_witness:
  "has_event 100 db2"
  using committed_handled [OF _ _ _ demo_consume [symmetric], of 0] db1_inv demo_record_request
  by (auto simp: demo_consumer_def is_request_def rejected_def)

text \<open>A record that decodes but whose text the database does not take as \<open>JSONB\<close>.\<close>

lemma poison_accept:
  assumes "jsonb_in L payload = None"
    and "\<And>n e. oc n \<in> {Refused e, Lost e} \<Longrightarrow> \<not> errors_is e ErrIdentityConflict"
  shows "\<exists>e. AcceptRequest L oc fresh now event payload s = (Inl e, s) \<and> \<not> errors_is e ErrIdentityConflict"
proof (cases "oc 0")
  case Applied
  have "insert_inbox L now event payload s = Inl invalid_json"
    using assms(1) by (simp add: insert_inbox_def)
  then show ?thesis
    using Applied assms(2) [of 1]
    by (cases "oc 1") (auto simp: AcceptRequest_def call_def errors_is_def invalid_json_def)
qed (use assms(2) [of 0] in \<open>auto simp: AcceptRequest_def call_def\<close>)

lemma poison_process:
  assumes "is_request L source event" "jsonb_in L (k_value source) = None"
    and "\<And>k n e. e_oc (E k) n \<in> {Refused e, Lost e} \<Longrightarrow> \<not> errors_is e ErrIdentityConflict"
  shows "fst (Consumer_Process L (pg_inbox L E) pc clock (Some source) st) \<noteq> None"
proof -
  obtain s k where st: "fst st = (s, k)" by fastforce
  obtain e where "AcceptRequest L (e_oc (E k)) (e_fresh (E k)) (e_now (E k)) event (k_value source) s = (Inl e, s)"
    "\<not> errors_is e ErrIdentityConflict"
    using poison_accept [OF assms(2), of "e_oc (E k)"] assms(3) by metis
  then show ?thesis
    using assms(1) st by (auto simp: Consumer_Process_def is_request_def pg_inbox_def Let_def)
qed

lemma poison_loop:
  assumes "i < length part" "\<And>pc clock st. fst (Consumer_Process L store pc clock (Some (part ! i)) st) \<noteq> None"
    and "c_committed c \<le> i" "c_pos c \<le> i"
  shows "c_committed (snd (Consumer_loop L store part ps c)) \<le> i"
  using assms(3,4)
proof (induction ps arbitrary: c)
  case (Cons p ps)
  show ?case
  proof (cases p)
    case (NextRecord pc clock cr)
    obtain e st where pr: "Consumer_Process L store pc clock (Some (part ! c_pos c)) (c_st c) = (e, st)"
      by (metis surj_pair)
    let ?c1 = "c\<lparr>c_st := st, c_pos := c_pos c + 1\<rparr>"
    obtain e2 c2 where cm: "commit_record cr ?c1 = (e2, c2)" by fastforce
    have "c_pos c < i" if "e = None"
      using assms(2) [of pc clock "c_st c"] pr that Cons.prems by (cases "c_pos c = i") auto
    moreover have "c2 = ?c1 \<or> c2 = ?c1\<lparr>c_committed := c_pos ?c1\<rparr>" by (rule pgi.commit_record_cases(1) [OF cm])
    ultimately show ?thesis
      using Cons.IH [of c2] Cons.prems pr cm NextRecord assms(1)
      by (cases e; cases e2) (auto simp: Let_def)
  qed (use Cons in auto)
qed simp

text \<open>C36: a request that decodes but that the database refuses as \<open>JSONB\<close> (a text with an escaped zero
  character, for instance) stops its partition for good: whatever happens and however often the
  consumer is restarted, no offset behind it is ever committed.\<close>

theorem poison_record_blocks:
  assumes "i < length part" "is_request L (part ! i) event" "jsonb_in L (k_value (part ! i)) = None"
    and "\<And>k n e. e_oc (E k) n \<in> {Refused e, Lost e} \<Longrightarrow> \<not> errors_is e ErrIdentityConflict"
    and "c_committed c \<le> i"
  shows "c_committed (Consumer_runs L (pg_inbox L E) part pss c) \<le> i"
  using assms(5)
proof (induction pss arbitrary: c)
  case (Cons ps pss)
  have "c_committed (snd (Consumer_loop L (pg_inbox L E) part ps (c\<lparr>c_pos := c_committed c\<rparr>))) \<le> i"
    by (rule poison_loop [OF assms(1) poison_process [OF assms(2,3)]])
      (use Cons.prems assms(4) in \<open>auto\<close>)
  then show ?case using Cons.IH by (simp add: Consumer_Run_def)
qed simp

definition strict_lib :: lib where
  "strict_lib = demo_lib\<lparr>jsonb_in := (\<lambda>_. None)\<rparr>"

lemma DecodeRequested_strict: "DecodeRequested (L\<lparr>jsonb_in := f\<rparr>) = DecodeRequested L"
proof (cases L)
  case (fields a b c d e g h i j k l)
  show ?thesis
    unfolding fields DecodeRequested_def requested_of_json_def requested_fields_def data_fields_def
      data_field_def uuid_field_def time_field_def lib.select_convs lib.update_convs ..
qed

theorem poison_record_blocks_witness:
  "\<forall>pss. c_committed (Consumer_runs strict_lib (pg_inbox strict_lib (\<lambda>_. demo_env)) [demo_record] pss demo_consumer) = 0"
proof
  fix pss
  have "is_request strict_lib demo_record demo_event"
    using demo_record_request
    by (simp add: is_request_def strict_lib_def DecodeRequested_strict)
  then show "c_committed (Consumer_runs strict_lib (pg_inbox strict_lib (\<lambda>_. demo_env)) [demo_record] pss demo_consumer) = 0"
    using poison_record_blocks [of 0 "[demo_record]" strict_lib demo_event "\<lambda>_. demo_env" demo_consumer pss]
    by (simp add: strict_lib_def demo_env_def demo_consumer_def)
qed

section \<open>The relay\<close>

text \<open>The relay of the monolith loses no request: whatever fails and however often it runs, an event
  marked as published in the outbox has its message in Kafka.\<close>

theorem requests_published_sent:
  assumes "mdb_ok s" "\<forall>e \<in> set (events s). ev_published e = None"
    and "Relay_Run L (requests_outbox L) rls (s, []) = (s', kl)"
    and "e \<in> set (events s')" "ev_published e \<noteq> None"
  shows "event_message L e \<in> set kl"
proof -
  have "rob.sent_all L (s, [])"
    using assms(1,2) by (auto simp: rob.sent_all_def event_published_def)
  then have all: "rob.sent_all L (s', kl)"
    using rob.Relay_Run_sent_all [of L "(s, [])" rls] assms(3) by simp
  then have d: "distinct (map ev_id (events s'))" by (simp add: rob.sent_all_def mdb_ok_def)
  have "event_message_of L (ev_id e) s' = Some (event_message L e)"
    using find_unique [OF d assms(4)] by (simp add: event_message_of_def)
  moreover have "event_published (ev_id e) s'" using assms(4,5) by (auto simp: event_published_def)
  ultimately show ?thesis using all by (auto simp: rob.sent_all_def)
qed

definition demo_intent :: event_row where
  "demo_intent = intent_row demo_lib 1000000 demo_post 100 7"

definition outbox1 :: mdb where
  "outbox1 = empty_mdb\<lparr>events := [demo_intent]\<rparr>"

definition demo_rounds :: "relay_round list" where
  "demo_rounds =
     [\<lparr>rl_oc = (\<lambda>_. Applied), rl_pc = NotSent (plain_err ''broker''), rl_now = 2000, rl_locked = (\<lambda>_. False), rl_done = False\<rparr>,
      \<lparr>rl_oc = (\<lambda>_. Applied), rl_pc = Acked, rl_now = 3000000, rl_locked = (\<lambda>_. False), rl_done = False\<rparr>]"

lemma outbox1_ok: "mdb_ok outbox1"
  by (simp add: mdb_ok_def outbox1_def empty_mdb_def demo_intent_def intent_row_def intent_key_def)

lemma relay_backoff_micros:
  assumes "0 \<le> attempts"
  shows "Milliseconds (relay_backoff attempts) * 1000 = 2 ^ nat (min attempts 6) * 1000000"
  using sint_dur_div [of "relay_backoff attempts" Millisecond] relay_backoff_value [OF assms]
  by (simp add: Milliseconds_def time_unit_defs)

text \<open>C22: a message that Kafka does not take is not lost: it stays in the outbox, unpublished, and the
  relay tries it again after a delay that doubles with every attempt, from one second to 64.\<close>

theorem failed_publish_postpones:
  assumes inv: "pipeline_inv L M s"
    and res: "PublishOne L (dispatch_outbox L) oc pc now locked (s, kl) = ((False, Some e), (s', kl'))"
    and changed: "s' \<noteq> s" and pc: "pc \<noteq> Acked"
  shows "\<exists>r \<in> set (dispatch s). dispatch_ready now r \<and>
    dispatch s' = upd (\<lambda>x. o_id x = o_id r)
      (\<lambda>x. x\<lparr>o_publish_attempts := o_publish_attempts x + 1,
        o_available := now + 2 ^ nat (min (o_publish_attempts r) 6) * 1000000\<rparr>) (dispatch s) \<and>
    1000000 \<le> (2 :: int) ^ nat (min (o_publish_attempts r) 6) * 1000000 \<and>
    (2 :: int) ^ nat (min (o_publish_attempts r) 6) * 1000000 \<le> 64 * 1000000"
  using res
proof (cases rule: PublishOne_cases)
  case (failed f pe)
  from dispatch_select [OF inv failed(1)] obtain r where
    r: "r \<in> set (dispatch s)" "dispatch_ready now r" "fe_id f = o_id r" "fe_attempts f = o_publish_attempts r" .
  have n: "0 \<le> o_publish_attempts r" using pipeline_inv_schema [OF inv] r(1) by (simp add: schema_ok_def)
  have p: "(2 :: int) ^ nat (min (o_publish_attempts r) 6) \<le> 2 ^ 6"
    by (rule power_increasing) auto
  show ?thesis
    using r failed(5) changed p relay_backoff_micros [OF n] by (auto simp: dispatch_outbox_def intro!: bexI [of _ r])
next
  case (marked f)
  then show ?thesis using pc by (simp add: Publish_def split: produce.splits)
next
  case (unmarked f)
  then show ?thesis using changed by simp
qed (use changed in auto)

theorem failed_publish_postpones_witness:
  "\<exists>s'. PublishOne demo_lib (dispatch_outbox demo_lib) (\<lambda>_. Applied) (NotSent demo_error) (o_available demo_dispatch)
      (\<lambda>_. False) (db4, []) = ((False, Some (wrap_err ''publish outbox record'' demo_error)), (s', [])) \<and>
    dispatch s' = [demo_dispatch\<lparr>o_publish_attempts := 1, o_available := o_available demo_dispatch + 1000000\<rparr>]"
proof -
  let ?now = "o_available demo_dispatch"
  let ?s = "ob_schedule (dispatch_outbox demo_lib) ?now (o_id demo_dispatch) (relay_backoff 0) db4"
  have v: "json_valid demo_lib (jsonb_text demo_lib (o_payload demo_dispatch))" by simp
  have eq: "PublishOne demo_lib (dispatch_outbox demo_lib) (\<lambda>_. Applied) (NotSent demo_error) ?now (\<lambda>_. False) (db4, []) =
      ((False, Some (wrap_err ''publish outbox record'' demo_error)), (?s, []))"
    using v by (simp add: PublishOne_def dispatch_outbox_def select_for_update_def db4_def dispatch_ready_def
        Publish_def commit_def) (simp add: demo_dispatch_def)
  have "?s \<noteq> db4"
    by (simp add: dispatch_outbox_def db4_def upd_def demo_dispatch_def ndb.splits)
  from failed_publish_postpones [OF db4_inv eq this] show ?thesis
    unfolding eq by (auto simp: db4_def upd_def) (simp_all add: demo_dispatch_def)
qed

theorem requests_published_sent_witness:
  "\<exists>s' kl. Relay_Run demo_lib (requests_outbox demo_lib) demo_rounds (outbox1, []) = (s', kl) \<and>
    (\<exists>e \<in> set (events s'). ev_published e = Some 3000000 \<and> event_message demo_lib e \<in> set kl)"
proof -
  obtain s' kl where run: "Relay_Run demo_lib (requests_outbox demo_lib) demo_rounds (outbox1, []) = (s', kl)"
    by fastforce
  have un: "\<forall>e \<in> set (events outbox1). ev_published e = None"
    by (simp add: outbox1_def demo_intent_def intent_row_def)
  have ev: "ev_topic demo_intent = Some RequestsTopicV1" "ev_key demo_intent = Some (Itoa 7)" "ev_version demo_intent = Some 1"
    "ev_published demo_intent = None" "ev_available demo_intent = 1000" "ev_attempts demo_intent = 0"
    "jsonb_text demo_lib (ev_payload demo_intent) = enc (intent_payload demo_lib 1000000 demo_post 100 7)"
    by (simp_all add: demo_intent_def intent_row_def RequestedSchemaV1_def to_micros_def)
  have b: "Milliseconds (relay_backoff 0) * 1000 = 1000000"
    using relay_backoff_micros [of 0] by simp
  have "\<exists>e \<in> set (events s'). ev_published e = Some 3000000"
    using run [symmetric] ev b
    by (simp add: demo_rounds_def outbox1_def PublishOne_def requests_outbox_def select_for_update_def
        request_ready_def Publish_def commit_def upd_def Let_def)
  with requests_published_sent [OF outbox1_ok un run] run show ?thesis by auto
qed

end
