(* ===== verification/Drain.thy ===== *)
theory Drain
  imports PipelineProps
begin

text \<open>
  Progress of the delivery worker (\<open>internal/notification/pipeline/worker.go\<close>): the loop of
  \<open>Run\<close> empties the queue. What it needs of a store, beside the contract
  \<open>delivery_store\<close>, is the locale \<open>draining_store\<close>: a delivery that
  waits is handed out or another one before it, and every success leaves one delivery less to do. The
  interpretation proves this of the PostgreSQL store when the database answers.
\<close>

section \<open>The contract of a store that can be drained\<close>

locale draining_store = delivery_store store inv held max_att
  for store :: "'s store" and inv :: "'s \<Rightarrow> bool" and held :: "task \<Rightarrow> 's \<Rightarrow> bool" and max_att :: int +
  fixes types :: "string list" and waits :: "'s \<Rightarrow> bool" and reached :: "'s \<Rightarrow> bool" and left :: "'s \<Rightarrow> nat"
  assumes waits_left: "waits s \<Longrightarrow> 0 < left s"
    and claim_waits: "inv s \<Longrightarrow> waits s \<Longrightarrow> st_Claim store 1 (int64 Minute) types s = (r, s1) \<Longrightarrow>
      \<exists>t. fst r = [t] \<and> t_channel_type t \<in> set types \<and>
        (\<forall>r2 s2. st_MarkSent store t s1 = (r2, s2) \<longrightarrow> reached s2 \<or> waits s2 \<and> left s2 < left s)"
    and recover_waits: "inv s \<Longrightarrow> waits s \<Longrightarrow> st_RecoverExpired store n max_att s = (r3, s1) \<Longrightarrow>
      waits s1 \<and> left s1 \<le> left s"
    and claim_reached: "inv s \<Longrightarrow> reached s \<Longrightarrow> st_Claim store n lease ty s = (r, s1) \<Longrightarrow> reached s1"
    and sent_reached: "inv s \<Longrightarrow> reached s \<Longrightarrow> st_MarkSent store t s = (r2, s1) \<Longrightarrow> reached s1"
    and failed_reached: "inv s \<Longrightarrow> reached s \<Longrightarrow> st_MarkFailed store t delay code s = (r2, s1) \<Longrightarrow> reached s1"
    and recover_reached: "inv s \<Longrightarrow> reached s \<Longrightarrow> st_RecoverExpired store n max_att s = (r3, s1) \<Longrightarrow> reached s1"

text \<open>What has been reached stays reached: it is an invariant of the store as any other.\<close>

sublocale draining_store \<subseteq> keep: delivery_store store "\<lambda>s. inv s \<and> reached s" held max_att
  by unfold_locales
    (auto dest: claim_inv claim_held claim_limit sent_inv sent_held failed_inv failed_held recover_inv
      claim_reached sent_reached failed_reached recover_reached)

text \<open>A round in which the worker is not cancelled and its senders deliver every message.\<close>

definition delivering :: "string list \<Rightarrow> round \<Rightarrow> bool" where
  "delivering types rd \<longleftrightarrow>
     (\<forall>k. rd_ctx rd k = None) \<and> (\<forall>t. t_channel_type t \<in> set types \<longrightarrow> send_task (rd_senders rd) t = None)"

context draining_store begin

lemma recover_step:
  assumes "inv s" "waits s" "max_att = 8"
  shows "inv (recover store s) \<and> waits (recover store s) \<and> left (recover store s) \<le> left s"
  using recover_keeps [OF assms(1,3)] recover_waits [OF assms(1,2), of 100] assms(3)
  by (cases "st_RecoverExpired store 100 8 s") (auto simp: recover_def)

lemma round_step:
  assumes i: "inv s" "waits s" and good: "delivering types rd"
    and cl: "st_Claim store 1 (int64 Minute) types s = ((tasks, err), s2)"
    and s3: "s3 = run_tasks store pol rd 0 tasks s2"
  shows "length tasks = 1 \<and> inv s3 \<and> (reached s3 \<or> waits s3 \<and> left s3 < left s)"
proof -
  from claim_waits [OF i cl] obtain t where t: "tasks = [t]" "t_channel_type t \<in> set types"
    "\<And>r2 s2'. st_MarkSent store t s2 = (r2, s2') \<Longrightarrow> reached s2' \<or> waits s2' \<and> left s2' < left s" by auto
  obtain r2 s2' where m: "st_MarkSent store t s2 = (r2, s2')" by fastforce
  have "s3 = s2'"
    using good t(2) m by (simp add: s3 t(1) delivering_def Process_def)
  then show ?thesis
    using t(1) t(3) [OF m] sent_inv [OF claim_inv [OF i(1) cl] m] by simp
qed

lemma Run_loop_drains:
  assumes p: "maxAttempts p \<le> max_att" "max_att = 8"
  shows "inv s \<Longrightarrow> reached s \<or> waits s \<and> left s \<le> length rds \<Longrightarrow> \<forall>rd \<in> set rds. delivering types rd \<Longrightarrow>
    reached (Run_loop store (Some p) types rds s)"
proof (induction rds arbitrary: s)
  case Nil
  then show ?case using waits_left by fastforce
next
  case (Cons rd rds)
  show ?case
  proof (cases "reached s")
    case True
    then show ?thesis using keep.Run_loop_inv [OF _ p, of s] Cons.prems(1) by blast
  next
    case False
    define s1 where "s1 = (if rd_recover rd then recover store s else s)"
    have s1: "inv s1" "waits s1" "left s1 \<le> left s"
      using recover_step [OF Cons.prems(1) _ p(2)] Cons.prems(1,2) False by (auto simp: s1_def)
    obtain tasks err s2 where cl: "st_Claim store 1 (int64 Minute) types s1 = ((tasks, err), s2)"
      by (metis prod.exhaust)
    define s3 where "s3 = run_tasks store (Some p) rd 0 tasks s2"
    have r: "length tasks = 1" "inv s3" "reached s3 \<or> waits s3 \<and> left s3 < left s1"
      using round_step [OF s1(1,2) _ cl s3_def] Cons.prems(3) by auto
    have "reached (Run_loop store (Some p) types rds s3)"
      using Cons.IH [OF r(2)] r(3) s1(3) Cons.prems(2,3) False by auto
    then show ?thesis
      using r(1) cl by (simp add: s1_def [symmetric] s3_def [symmetric])
  qed
qed

lemma Worker_Run_drains:
  assumes "inv s" "waits s" "left s \<le> length rds" "\<forall>rd \<in> set rds. delivering types rd"
    and "maxAttempts p \<le> max_att" "max_att = 8"
    and "w_Store w = Some store" "w_Policy w = Some p" "w_Senders w = Some senders"
  shows "reached (snd (Worker_Run w types rds s))"
  using assms Run_loop_drains [OF assms(5,6), of "recover store s" rds] recover_step [OF assms(1,2,6)]
  by (simp add: Worker_Run_def)

end

section \<open>The frame of the store's operations\<close>

definition same_frame :: "ndb \<Rightarrow> ndb \<Rightarrow> bool" where
  "same_frame s s' \<longleftrightarrow> channels s' = channels s \<and> inbox s' = inbox s"

lemma insert_dispatch_frame:
  "insert_dispatch now i dl user att kind topic p av s = Inr s' \<Longrightarrow> same_frame s s'"
  by (auto dest!: insert_dispatch_Inr simp: same_frame_def)

lemma recover_loop_frame:
  "recover_loop L oc k fresh now m ds s = Inr (k', s') \<Longrightarrow> same_frame s s'"
proof (induction L oc k fresh now m ds s rule: recover_loop.induct)
  case (2 L oc k fresh now m d ds s)
  then show ?case
    by (fastforce simp: Let_def same_frame_def split: sum.splits if_splits dest: insert_dispatch_frame)
qed (simp add: same_frame_def)

text \<open>A recovery touches rows in processing only.\<close>

lemma RecoverExpired_rows:
  assumes s: "schema_ok s" and res: "RecoverExpired L oc now locked fresh limit m s = (r, s')"
  shows "same_frame s s' \<and> (\<exists>g. deliveries s' = map g (deliveries s) \<and>
    (\<forall>d \<in> set (deliveries s). g d = d \<or> d_status d = StProcessing))"
proof -
  let ?ds = "select_for_update (\<lambda>d. (the (d_lease d), d_id d)) (nat limit)
       (\<lambda>d. locked (d_id d)) (expired now) (deliveries s)"
  have proc: "d_status d = StProcessing" if d: "d \<in> set (deliveries s)" "d_id d \<in> d_id ` set ?ds" for d
  proof -
    from d(2) obtain x where x: "x \<in> set ?ds" "d_id d = d_id x" by blast
    from set_select_for_update [OF x(1)] have "x \<in> set (deliveries s)" "d_status x = StProcessing"
      by (simp_all add: expired_def)
    then show ?thesis using row_by_id [OF s d(1) _ x(2)] by simp
  qed
  from RecoverExpired_state [OF res] show ?thesis
  proof
    assume "s' = s"
    then show ?thesis by (auto simp: same_frame_def intro: exI [of _ id])
  next
    assume "\<exists>k ds. recover_loop L oc 2 fresh now m ds s = Inr (k, s') \<and> ds = ?ds"
    then obtain k where l: "recover_loop L oc 2 fresh now m ?ds s = Inr (k, s')" by blast
    obtain g where "deliveries s' = map g (deliveries s)" "\<forall>x. d_id x \<notin> d_id ` set ?ds \<longrightarrow> g x = x"
      using recover_loop_rows [OF l distinct_map_select [OF schema_d_id [OF s]]] by blast
    then show ?thesis using recover_loop_frame [OF l] proc by blast
  qed
qed

section \<open>The deliveries a worker has left\<close>

definition unfinished :: "delivery_row \<Rightarrow> bool" where
  "unfinished d \<longleftrightarrow> d_status d = StPending \<or> d_status d = StProcessing"

definition work :: "ndb \<Rightarrow> nat" where
  "work s = length (filter unfinished (deliveries s))"

lemma work_le:
  assumes "deliveries s' = map g (deliveries s)"
    and "\<And>d. d \<in> set (deliveries s) \<Longrightarrow> unfinished (g d) \<Longrightarrow> unfinished d"
  shows "work s' \<le> work s"
  using length_filter_map_le [of "deliveries s" unfinished g] assms by (simp add: work_def)

lemma work_less:
  assumes "deliveries s' = map g (deliveries s)"
    and "\<And>d. d \<in> set (deliveries s) \<Longrightarrow> unfinished (g d) \<Longrightarrow> unfinished d"
    and "d \<in> set (deliveries s)" "unfinished d" "\<not> unfinished (g d)"
  shows "work s' < work s"
  using length_filter_map_less [of "deliveries s" unfinished g d] assms by (simp add: work_def)

definition sent_once :: "delivery_row \<Rightarrow> ndb \<Rightarrow> bool" where
  "sent_once d s \<longleftrightarrow> (\<exists>d' \<in> set (deliveries s). d_id d' = d_id d \<and> d_status d' = StSent \<and>
     d_attempts d' = d_attempts d + 1)"

text \<open>A sent delivery is finished: no operation of the store takes it back.\<close>

lemma sent_once_evolves:
  assumes "sent_once d s" "table_evolves (deliveries s) (deliveries s')"
  shows "sent_once d s'"
proof -
  obtain x where x: "x \<in> set (deliveries s)" "d_id x = d_id d" "d_status x = StSent"
    "d_attempts x = d_attempts d + 1"
    using assms(1) by (auto simp: sent_once_def)
  obtain old new where "deliveries s' = old @ new" "list_all2 evolves (deliveries s) old"
    using assms(2) by (auto simp: table_evolves_def)
  moreover obtain i where "i < length (deliveries s)" "deliveries s ! i = x"
    using x(1) by (auto simp: in_set_conv_nth)
  ultimately have "evolves x (old ! i)" "old ! i \<in> set (deliveries s')"
    by (auto simp: list_all2_conv_all_nth)
  then have "x \<in> set (deliveries s')"
    using x(3) life_finished [of "d_status x"] by (auto simp: evolves_def abs_of_def finished_def)
  then show ?thesis using x unfolding sent_once_def by blast
qed

section \<open>A claim that finds work\<close>

definition decodes :: "lib \<Rightarrow> inbox_row \<Rightarrow> bool" where
  \<comment> \<open>the payload PostgreSQL prints is decoded to a request again\<close>
  "decodes L i \<longleftrightarrow> Option.bind (json_unmarshal L (jsonb_text L (in_payload i))) (requested_of_json L) \<noteq> None"

lemma claim_stmt_row:
  assumes s: "schema_ok s" and d: "d \<in> set (selected now n locked types s)"
  shows "\<exists>c i. (claim_row now lease tok d, c, i) \<in> set (fst (claim_stmt now n lease locked tok types s)) \<and>
    i \<in> set (inbox s)"
proof -
  have row: "d \<in> set (deliveries s)" "claimable now types s d"
    using selected_row [OF d] by auto
  then obtain c where c: "c \<in> set (channels s)" "ch_id c = d_channel d"
    by (auto simp: claimable_def)
  obtain i where i: "i \<in> set (inbox s)" "in_event i = d_event d"
    using schema_delivery(4) [OF s row(1)] by blast
  have "claim_row now lease tok d \<in>
      set (upd (\<lambda>d. d_id d \<in> set (map d_id (selected now n locked types s))) (claim_row now lease tok) (deliveries s))"
    using row(1) d by (auto simp: set_upd)
  then have "(claim_row now lease tok d, c, i) \<in> set (fst (claim_stmt now n lease locked tok types s))"
    using c i d by (auto simp: claim_stmt_def Let_def claim_row_def intro!: bexI [of _ d])
  then show ?thesis using i(1) by blast
qed

lemma claim_stmt_inbox:
  "(d, c, i) \<in> set (fst (claim_stmt now n lease locked tok types s)) \<Longrightarrow> i \<in> set (inbox s)"
  by (auto simp: claim_stmt_def Let_def)

lemma Claim_one:
  assumes s: "schema_ok s" and dec: "\<forall>i \<in> set (inbox s). decodes L i"
    and free: "\<And>i. \<not> locked i" and lease: "0 < sint lease"
    and d: "d \<in> set (deliveries s)" "claimable now types s d"
    and cl: "Claim L Applied brk now locked tok 1 lease types s = (r, s')"
  shows "\<exists>t d0. fst r = [t] \<and> selected now 1 locked types s = [d0] \<and> task_for now 1 lease locked tok types s t d0 \<and>
    s' = claimed_state now 1 lease locked tok types s"
proof -
  let ?sel = "selected now 1 locked types s"
  have "?sel \<noteq> []"
    using d free by (auto simp: selected_def select_for_update_empty)
  moreover have "length ?sel \<le> 1" by (simp add: selected_def length_select_for_update)
  ultimately obtain d0 where d0: "?sel = [d0]"
    by (cases ?sel) auto
  let ?rows = "fst (claim_stmt now 1 lease locked tok types s)"
  obtain c i where row: "(claim_row now lease tok d0, c, i) \<in> set ?rows" "i \<in> set (inbox s)"
    using claim_stmt_row [OF s, of d0 now 1 locked types lease tok] d0 by auto
  have "length ?rows \<le> 1" by (rule claim_rows_length [OF s])
  then have rows: "?rows = [(claim_row now lease tok d0, c, i)]"
    using row(1) by (cases ?rows) auto
  obtain t where t: "task_of_row L (claim_row now lease tok d0, c, i) = Inr t"
    using dec row(2) by (auto simp: task_of_row_def decodes_def)
  have r: "r = ([t], None)" "s' = snd (claim_stmt now 1 lease locked tok types s)"
    using cl lease rows t by (auto simp: Claim_def scan_rows_def split: prod.splits)
  obtain d1 where "task_for now (nat 1) lease locked tok types s t d1"
    using Claim_tasks [OF s cl, of t] r(1) by auto
  then have "task_for now 1 lease locked tok types s t d0"
    using d0 by (auto simp: task_for_def)
  then show ?thesis using r d0 claim_stmt_state by auto
qed

text \<open>One round of the worker on the database: the delivery it claims is sent.\<close>

lemma claim_send_round:
  assumes s: "schema_ok s" and dec: "\<forall>i \<in> set (inbox s). decodes L i" and free: "\<And>i. \<not> locked i"
    and lease: "0 < sint lease" and d: "d \<in> set (deliveries s)" "claimable now types s d"
    and cl: "Claim L Applied brk now locked tok 1 lease types s = (r, s1)"
  shows "\<exists>t d0. fst r = [t] \<and> t_channel_type t \<in> set types \<and> d0 \<in> set (deliveries s) \<and> d_status d0 = StPending \<and>
    snd (MarkSent Applied now2 t s1) = s\<lparr>deliveries :=
      map (\<lambda>x. if x = d0 then sent_row now2 (claim_row now lease tok d0) else x) (deliveries s)\<rparr>"
proof -
  obtain t d0 where t: "fst r = [t]" and sel: "selected now 1 locked types s = [d0]"
    and tf: "task_for now 1 lease locked tok types s t d0"
    and s1: "s1 = claimed_state now 1 lease locked tok types s"
    using Claim_one [OF assms(1-7)] by blast
  have d0: "d0 \<in> set (deliveries s)" "d_status d0 = StPending"
    using selected_row [of d0 now 1 locked types s] sel by (auto simp: claimable_def)
  have eq: "d_id x = d_id d0 \<longleftrightarrow> x = d0" if "x \<in> set (deliveries s)" for x
    using row_by_id [OF s that d0(1)] by blast
  have h: "holds_claim t (claim_row now lease tok d0)"
    using tf by (simp add: task_for_def holds_claim_def claim_row_def)
  have nh: "\<not> holds_claim t x" if "x \<in> set (deliveries s)" "x \<noteq> d0" for x
    using tf eq [OF that(1)] that(2) by (simp add: task_for_def holds_claim_def)
  have "deliveries (snd (MarkSent Applied now2 t s1)) = upd (holds_claim t) (sent_row now2) (deliveries s1)"
    and f: "snd (MarkSent Applied now2 t s1) = s1\<lparr>deliveries := deliveries (snd (MarkSent Applied now2 t s1))\<rparr>"
    by (simp_all add: MarkSent_def autocommit_def)
  moreover have "upd (holds_claim t) (sent_row now2) (deliveries s1) =
      map (\<lambda>x. if x = d0 then sent_row now2 (claim_row now lease tok d0) else x) (deliveries s)"
    using h nh eq unfolding s1 claimed_state_def sel by (auto simp: upd_def)
  ultimately have "snd (MarkSent Applied now2 t s1) = s\<lparr>deliveries :=
      map (\<lambda>x. if x = d0 then sent_row now2 (claim_row now lease tok d0) else x) (deliveries s)\<rparr>"
    by (simp add: s1 claimed_state_def)
  then show ?thesis using t tf d0 by (auto simp: task_for_def)
qed

section \<open>The PostgreSQL store can be drained\<close>

text \<open>The database answers every call, no row is locked by another worker, and its clock is past \<open>t0\<close>.\<close>

definition answering :: "(nat \<Rightarrow> env) \<Rightarrow> instant \<Rightarrow> bool" where
  "answering E t0 \<longleftrightarrow> (\<forall>k. (\<forall>n. e_oc (E k) n = Applied) \<and> (\<forall>i. \<not> e_locked (E k) i) \<and> t0 \<le> e_now (E k))"

definition waiting :: "lib \<Rightarrow> (nat \<Rightarrow> env) \<Rightarrow> instant \<Rightarrow> string list \<Rightarrow> delivery_row \<Rightarrow> ndb \<Rightarrow> bool" where
  "waiting L E t0 types d s \<longleftrightarrow> answering E t0 \<and> (\<forall>i \<in> set (inbox s). decodes L i) \<and>
     d \<in> set (deliveries s) \<and> claimable t0 types s d"

lemma claimable_later: "claimable t0 types s d \<Longrightarrow> t0 \<le> now \<Longrightarrow> claimable now types s d"
  by (auto simp: claimable_def)

lemma waiting_frame:
  assumes "waiting L E t0 types d s" "same_frame s s'" "d \<in> set (deliveries s')"
  shows "waiting L E t0 types d s'"
  using assms by (simp add: waiting_def same_frame_def claimable_def)

lemma waiting_work: "waiting L E t0 types d s \<Longrightarrow> 0 < work s"
  by (auto simp: waiting_def claimable_def work_def unfinished_def filter_empty_conv)

lemma waiting_round:
  assumes s: "schema_ok s" and w: "waiting L E t0 types d s"
    and cl: "st_Claim (pg_store L E) 1 (int64 Minute) types (s, k) = (r, (s1, k1))"
  shows "\<exists>t. fst r = [t] \<and> t_channel_type t \<in> set types \<and>
    (\<forall>r2 s2 k2. st_MarkSent (pg_store L E) t (s1, k1) = (r2, (s2, k2)) \<longrightarrow>
       sent_once d s2 \<or> waiting L E t0 types d s2 \<and> work s2 < work s)"
proof -
  have E: "e_oc (E k) 0 = Applied" "\<And>i. \<not> e_locked (E k) i" "t0 \<le> e_now (E k)" "e_oc (E k1) 0 = Applied"
    using w by (simp_all add: waiting_def answering_def)
  have d: "d \<in> set (deliveries s)" "claimable (e_now (E k)) types s d" "\<forall>i \<in> set (inbox s). decodes L i"
    using w E(3) claimable_later by (auto simp: waiting_def)
  have m: "0 < sint (int64 Minute)"
    by (simp add: sint_int64 in_int64_def time_unit_defs)
  have c: "Claim L Applied (e_brk (E k)) (e_now (E k)) (e_locked (E k)) (e_tok (E k)) 1 (int64 Minute) types s = (r, s1)"
    using cl E(1) by (simp add: pg_store_def split: prod.splits)
  obtain t d0 where t: "fst r = [t]" "t_channel_type t \<in> set types"
    and d0: "d0 \<in> set (deliveries s)" "d_status d0 = StPending"
    and res: "snd (MarkSent Applied (e_now (E k1)) t s1) = s\<lparr>deliveries := map (\<lambda>x. if x = d0
      then sent_row (e_now (E k1)) (claim_row (e_now (E k)) (int64 Minute) (e_tok (E k)) d0) else x) (deliveries s)\<rparr>"
    using claim_send_round [OF s d(3) E(2) m d(1,2) c] by blast
  have "sent_once d s2 \<or> waiting L E t0 types d s2 \<and> work s2 < work s"
    if "st_MarkSent (pg_store L E) t (s1, k1) = (r2, (s2, k2))" for r2 s2 k2
  proof -
    let ?g = "\<lambda>x. if x = d0
      then sent_row (e_now (E k1)) (claim_row (e_now (E k)) (int64 Minute) (e_tok (E k)) d0) else x"
    have s2: "s2 = s\<lparr>deliveries := map ?g (deliveries s)\<rparr>"
      using that E(4) res by (auto simp: pg_store_def split: prod.splits)
    show ?thesis
    proof (cases "d = d0")
      case True
      then show ?thesis
        using d0(1) by (auto simp: sent_once_def s2 sent_row_def claim_row_def)
    next
      case False
      have "work s2 < work s"
        by (rule work_less [of s2 ?g s d0]) (use d0 in \<open>auto simp: s2 unfinished_def sent_row_def claim_row_def split: if_splits\<close>)
      moreover have "waiting L E t0 types d s2"
        by (rule waiting_frame [OF w]) (use d(1) False in \<open>auto simp: s2 same_frame_def image_iff\<close>)
      ultimately show ?thesis by blast
    qed
  qed
  then show ?thesis using t by blast
qed

interpretation drain: draining_store "pg_store L E" "\<lambda>s. pipeline_inv L 8 (fst s)" "\<lambda>t s. agrees t (fst s)" 8
  types "\<lambda>s. waiting L E t0 types d (fst s)" "\<lambda>s. sent_once d (fst s)" "\<lambda>s. work (fst s)"
proof unfold_locales
  fix s s1 :: "ndb \<times> nat" and r
  assume i: "pipeline_inv L 8 (fst s)" "waiting L E t0 types d (fst s)"
    and c: "st_Claim (pg_store L E) 1 (int64 Minute) types s = (r, s1)"
  show "\<exists>t. fst r = [t] \<and> t_channel_type t \<in> set types \<and>
      (\<forall>r2 s2. st_MarkSent (pg_store L E) t s1 = (r2, s2) \<longrightarrow>
        sent_once d (fst s2) \<or> waiting L E t0 types d (fst s2) \<and> work (fst s2) < work (fst s))"
    using waiting_round [OF pipeline_inv_schema [OF i(1)] i(2), of "snd s" r "fst s1" "snd s1"] c by auto
next
  fix s s1 :: "ndb \<times> nat" and n r3
  assume i: "pipeline_inv L 8 (fst s)" and rec: "st_RecoverExpired (pg_store L E) n 8 s = (r3, s1)"
  obtain oc now locked fresh where r: "RecoverExpired L oc now locked fresh n 8 (fst s) = (r3, fst s1)"
    using rec by (auto simp: pg_store_def split: prod.splits)
  note s = pipeline_inv_schema [OF i]
  show "sent_once d (fst s1)" if "sent_once d (fst s)"
    by (rule sent_once_evolves [OF that RecoverExpired_evolves [OF s r]])
  show "waiting L E t0 types d (fst s1) \<and> work (fst s1) \<le> work (fst s)" if w: "waiting L E t0 types d (fst s)"
  proof -
    obtain g where f: "same_frame (fst s) (fst s1)" and g: "deliveries (fst s1) = map g (deliveries (fst s))"
      "\<forall>x \<in> set (deliveries (fst s)). g x = x \<or> d_status x = StProcessing"
      using RecoverExpired_rows [OF s r] by blast
    have "d \<in> set (deliveries (fst s1))"
      using w g by (force simp: waiting_def claimable_def image_iff)
    then show ?thesis
      using waiting_frame [OF w f] work_le [OF g(1)] g(2) by (metis unfinished_def)
  qed
qed (auto simp: pg_store_def waiting_work split: prod.splits dest!: pipeline_inv_schema
    intro: sent_once_evolves [OF _ Claim_evolves] sent_once_evolves [OF _ MarkSent_evolves]
      sent_once_evolves [OF _ MarkFailed_evolves])

section \<open>The queue is emptied\<close>

text \<open>C7: the worker empties its queue: while the database answers and the senders deliver, as many
  rounds as there are unfinished deliveries are enough for every delivery that is due to be sent, in one
  attempt more, whatever recoveries come between and whatever other deliveries become due meanwhile.\<close>

theorem worker_drains:
  assumes "pipeline_inv L 8 s" "answering E t0" "\<forall>i \<in> set (inbox s). decodes L i"
    and "w_Store w = Some (pg_store L E)" "w_Policy w = Some default_policy" "w_Senders w = Some senders"
    and "\<forall>rd \<in> set rds. delivering types rd" "length (filter unfinished (deliveries s)) \<le> length rds"
  shows "\<forall>d \<in> set (deliveries s). claimable t0 types s d \<longrightarrow>
    (\<exists>d' \<in> set (deliveries (fst (snd (Worker_Run w types rds (s, k))))).
       d_id d' = d_id d \<and> d_status d' = StSent \<and> d_attempts d' = d_attempts d + 1)"
proof (intro ballI impI)
  fix d assume "d \<in> set (deliveries s)" "claimable t0 types s d"
  then have w: "waiting L E t0 types d (fst (s, k))" using assms(2,3) by (simp add: waiting_def)
  have "sent_once d (fst (snd (Worker_Run w types rds (s, k))))"
    by (rule drain.Worker_Run_drains [OF _ w _ assms(7) _ _ assms(4-6)])
      (use assms(1,8) in \<open>simp_all add: default_policy_def work_def\<close>)
  then show "\<exists>d' \<in> set (deliveries (fst (snd (Worker_Run w types rds (s, k))))).
      d_id d' = d_id d \<and> d_status d' = StSent \<and> d_attempts d' = d_attempts d + 1"
    by (simp add: sent_once_def)
qed

definition demo_round :: round where
  "demo_round = \<lparr>rd_recover = False, rd_senders = demo_ok_senders, rd_ctx = (\<lambda>_. None),
     rd_chance = (\<lambda>_. demo_chance), rd_wake = PollTick\<rparr>"

theorem worker_drains_witness:
  "\<exists>d' \<in> set (deliveries (fst (snd (Worker_Run
     \<lparr>w_Store = Some (pg_store demo_lib (\<lambda>_. demo_env)), w_Senders = Some demo_ok_senders, w_Policy = Some default_policy\<rparr>
     [''telegram''] [demo_round] (db2, 0))))). d_id d' = 1000 \<and> d_status d' = StSent \<and> d_attempts d' = 1"
proof -
  have a: "answering (\<lambda>_. demo_env) 30" by (simp add: answering_def demo_env_def)
  have i: "\<forall>i \<in> set (inbox db2). decodes demo_lib i"
    by (simp add: db2_def demo_inbox_def inbox_entry_def decodes_def demo_decode)
  have r: "\<forall>rd \<in> set [demo_round]. delivering [''telegram''] rd"
    by (simp add: delivering_def demo_round_def send_task_def Registry_Get_def demo_ok_senders_def)
  have d: "demo_pending \<in> set (deliveries db2)" "claimable 30 [''telegram''] db2 demo_pending"
    "d_id demo_pending = 1000" "d_attempts demo_pending = 0"
    by (simp_all add: db2_def claimable_def demo_pending_def new_delivery_def demo_channel_def
        demo_event_def intent_event_def)
  let ?w = "\<lparr>w_Store = Some (pg_store demo_lib (\<lambda>_. demo_env)), w_Senders = Some demo_ok_senders,
    w_Policy = Some default_policy\<rparr>"
  have n: "length (filter unfinished (deliveries db2)) \<le> length [demo_round]" by (simp add: db2_def)
  have "\<exists>d' \<in> set (deliveries (fst (snd (Worker_Run ?w [''telegram''] [demo_round] (db2, 0))))).
      d_id d' = d_id demo_pending \<and> d_status d' = StSent \<and> d_attempts d' = d_attempts demo_pending + 1"
    using worker_drains [OF db2_inv a i _ _ _ r n, of ?w demo_ok_senders 0] d(1,2) by simp
  then show ?thesis by (simp add: d(3,4))
qed

end
