(* ===== verification/RelayDrain.thy ===== *)
theory RelayDrain
  imports PipelineProps
begin

text \<open>
  Progress of the outbox relay (\<open>internal/notification/relay/relay.go\<close>): when the database and
  Kafka answer again, \<open>Run\<close> publishes what has gathered in an outbox. The locale
  \<open>drainable_outbox\<close> extends \<open>outbox_table\<close> by what this needs of the statements,
  and both outboxes interpret it.
\<close>

section \<open>The contract of an outbox that can be drained\<close>

locale drainable_outbox = outbox_table L ob inv published message_of
  for L :: lib and ob :: "'s outbox" and inv :: "'s \<Rightarrow> bool"
    and published :: "uuid \<Rightarrow> 's \<Rightarrow> bool" and message_of :: "uuid \<Rightarrow> 's \<Rightarrow> kafka_msg option" +
  fixes ready :: "instant \<Rightarrow> uuid \<Rightarrow> 's \<Rightarrow> bool" and backlog :: "'s \<Rightarrow> nat"
  assumes ready_backlog: "ready t0 i s \<Longrightarrow> 0 < backlog s"
    and select_ready: "inv s \<Longrightarrow> ready t0 i s \<Longrightarrow> t0 \<le> now \<Longrightarrow> (\<And>j. \<not> locked j) \<Longrightarrow>
      \<exists>f. ob_select ob now locked s = Inr f \<and> json_valid L (fe_payload f)"
    and mark_done: "inv s \<Longrightarrow> ob_select ob now locked s = Inr f \<Longrightarrow> published (fe_id f) (ob_mark ob now (fe_id f) s)"
    and mark_ready: "inv s \<Longrightarrow> ob_select ob now locked s = Inr f \<Longrightarrow> ready t0 i s \<Longrightarrow> i \<noteq> fe_id f \<Longrightarrow>
      ready t0 i (ob_mark ob now (fe_id f) s)"
    and mark_backlog: "inv s \<Longrightarrow> ob_select ob now locked s = Inr f \<Longrightarrow>
      backlog (ob_mark ob now (fe_id f) s) < backlog s"

text \<open>A round in which the database and Kafka answer, nobody locks a row, and the clock is past \<open>t0\<close>.\<close>

definition calm :: "instant \<Rightarrow> relay_round \<Rightarrow> bool" where
  "calm t0 rl \<longleftrightarrow> (\<forall>n. rl_oc rl n = Applied) \<and> rl_pc rl = Acked \<and> (\<forall>i. \<not> rl_locked rl i) \<and> t0 \<le> rl_now rl"

context outbox_table begin

lemma PublishOne_message:
  assumes "PublishOne L ob oc pc now locked (s, kl) = (r, (s', kl'))"
  shows "message_of j s' = message_of j s"
  using assms by (cases rule: PublishOne_cases) (auto simp: schedule_message mark_message)

text \<open>What every call keeps, the relay keeps.\<close>

lemma Relay_Run_keeps:
  assumes step: "\<And>s kl oc pc now locked r s' kl'. P s \<Longrightarrow>
      PublishOne L ob oc pc now locked (s, kl) = (r, (s', kl')) \<Longrightarrow> P s'"
  shows "P (fst st) \<Longrightarrow> P (fst (Relay_Run L ob rls st))"
proof (induction rls arbitrary: st)
  case (Cons rl rls)
  obtain p e st1 where one: "PublishOne L ob (rl_oc rl) (rl_pc rl) (rl_now rl) (rl_locked rl) st = ((p, e), st1)"
    by (metis surj_pair)
  have "P (fst st1)"
    using step [OF Cons.prems, of _ _ _ _ "snd st" _ _ "snd st1"] one by (metis prod.collapse)
  then show ?case using Cons.IH one by simp
qed simp

lemma Relay_Run_inv: "inv (fst st) \<Longrightarrow> inv (fst (Relay_Run L ob rls st))"
  by (rule Relay_Run_keeps) (rule PublishOne_inv)

lemma Relay_Run_published: "published j (fst st) \<Longrightarrow> published j (fst (Relay_Run L ob rls st))"
  by (rule Relay_Run_keeps) (rule PublishOne_published)

lemma Relay_Run_message: "message_of j (fst (Relay_Run L ob rls st)) = message_of j (fst st)"
  by (rule Relay_Run_keeps [where P = "\<lambda>s. message_of j s = message_of j (fst st)"])
    (metis PublishOne_message, rule refl)

end

context drainable_outbox begin

lemma calm_round:
  assumes i: "inv s" "ready t0 i s" and c: "calm t0 rl"
  shows "\<exists>s'. PublishOne L ob (rl_oc rl) (rl_pc rl) (rl_now rl) (rl_locked rl) (s, kl) = ((True, None), s') \<and>
    inv (fst s') \<and> (published i (fst s') \<or> ready t0 i (fst s') \<and> backlog (fst s') < backlog s)"
proof -
  obtain f where f: "ob_select ob (rl_now rl) (rl_locked rl) s = Inr f" "json_valid L (fe_payload f)"
    using select_ready [OF i] c unfolding calm_def by blast
  have "PublishOne L ob (rl_oc rl) (rl_pc rl) (rl_now rl) (rl_locked rl) (s, kl) =
      ((True, None), (ob_mark ob (rl_now rl) (fe_id f) s, kl @ [kafka_of (relay_record_of L f)]))"
    using c f by (simp add: PublishOne_def calm_def Publish_def commit_def)
  then show ?thesis
    using mark_inv [OF i(1)] mark_done [OF i(1) f(1)] mark_ready [OF i(1) f(1) i(2)] mark_backlog [OF i(1) f(1)]
    by (cases "i = fe_id f") auto
qed

lemma Relay_Run_drains:
  "inv (fst st) \<Longrightarrow> \<forall>rl \<in> set rls. calm t0 rl \<Longrightarrow>
   published i (fst st) \<or> ready t0 i (fst st) \<and> backlog (fst st) \<le> length rls \<Longrightarrow>
   published i (fst (Relay_Run L ob rls st))"
proof (induction rls arbitrary: st)
  case Nil
  then show ?case using ready_backlog by fastforce
next
  case (Cons rl rls)
  show ?case
  proof (cases "published i (fst st)")
    case True
    then show ?thesis by (rule Relay_Run_published)
  next
    case False
    then have "ready t0 i (fst st)" "calm t0 rl" using Cons.prems by auto
    from calm_round [OF Cons.prems(1) this, of "snd st"] obtain s' where
      one: "PublishOne L ob (rl_oc rl) (rl_pc rl) (rl_now rl) (rl_locked rl) st = ((True, None), s')"
      and s': "inv (fst s')" "published i (fst s') \<or> ready t0 i (fst s') \<and> backlog (fst s') < backlog (fst st)"
      by auto
    have "published i (fst (Relay_Run L ob rls s'))"
      by (rule Cons.IH [OF s'(1)]) (use s'(2) Cons.prems False in auto)
    then show ?thesis using one by simp
  qed
qed

end

section \<open>The two outboxes\<close>

definition unsent :: "event_row \<Rightarrow> bool" where
  "unsent e \<longleftrightarrow> ev_topic e \<noteq> None \<and> ev_published e = None"

definition readable :: "lib \<Rightarrow> event_row \<Rightarrow> bool" where
  \<comment> \<open>a record for Kafka has a key and a version, and PostgreSQL prints its payload as JSON\<close>
  "readable L e \<longleftrightarrow> (ev_topic e \<noteq> None \<longrightarrow> ev_key e \<noteq> None \<and> ev_version e \<noteq> None) \<and>
     json_valid L (jsonb_text L (ev_payload e))"

definition request_waits :: "lib \<Rightarrow> instant \<Rightarrow> uuid \<Rightarrow> mdb \<Rightarrow> bool" where
  "request_waits L t0 i s \<longleftrightarrow> (\<forall>e \<in> set (events s). readable L e) \<and>
     (\<exists>e \<in> set (events s). ev_id e = i \<and> request_ready t0 e)"

lemma requests_select_ready:
  assumes w: "request_waits L t0 i s" and t: "t0 \<le> now" and free: "\<And>j. \<not> locked j"
  shows "\<exists>f. ob_select (requests_outbox L) now locked s = Inr f \<and> json_valid L (fe_payload f)"
proof -
  let ?sel = "select_for_update (\<lambda>e. (ev_created e, ev_id e)) 1 (\<lambda>e. locked (ev_id e)) (request_ready now) (events s)"
  have "\<exists>e \<in> set (events s). request_ready now e"
    using w t by (force simp: request_waits_def request_ready_def)
  then have "?sel \<noteq> []" using free by (auto simp: select_for_update_empty)
  then obtain e es where sel: "?sel = e # es" by (cases ?sel) auto
  then have "e \<in> set ?sel" by simp
  from set_select_for_update [OF this] have e: "e \<in> set (events s)" "request_ready now e" by blast+
  then have "readable L e" using w by (simp add: request_waits_def)
  then show ?thesis
    using sel e(2) by (auto simp: requests_outbox_def readable_def request_ready_def)
qed

lemma mark_event_rows:
  "events (ob_mark (requests_outbox L) now i s) = map (\<lambda>e. if ev_id e = i
     then e\<lparr>ev_published := Some now, ev_processed := Some now, ev_attempts := ev_attempts e + 1\<rparr> else e) (events s)"
  by (simp add: requests_outbox_def upd_def)

interpretation rdrain: drainable_outbox L "requests_outbox L" mdb_ok event_published "event_message_of L"
  "request_waits L" "\<lambda>s. length (filter unsent (events s))"
proof unfold_locales
  show "0 < length (filter unsent (events s))" if "request_waits L t0 i s" for t0 i s
    using that by (force simp: request_waits_def request_ready_def unsent_def filter_empty_conv)
  show "\<exists>f. ob_select (requests_outbox L) now locked s = Inr f \<and> json_valid L (fe_payload f)"
    if "request_waits L t0 i s" "t0 \<le> now" "\<And>j. \<not> locked j" for s t0 i now locked
    by (rule requests_select_ready [OF that])
  fix s :: mdb and now locked f
  assume "ob_select (requests_outbox L) now locked s = Inr f"
  then obtain e where e: "e \<in> set (events s)" "request_ready now e" "fe_id f = ev_id e"
    by (rule event_select)
  show "event_published (fe_id f) (ob_mark (requests_outbox L) now (fe_id f) s)"
    using e by (auto simp: event_published_def requests_outbox_def bex_upd)
  show "length (filter unsent (events (ob_mark (requests_outbox L) now (fe_id f) s))) < length (filter unsent (events s))"
    unfolding mark_event_rows
    by (rule length_filter_map_less [of _ _ _ e]) (use e in \<open>auto simp: unsent_def request_ready_def split: if_splits\<close>)
  show "request_waits L t0 i (ob_mark (requests_outbox L) now (fe_id f) s)"
    if "request_waits L t0 i s" "i \<noteq> fe_id f" for t0 i
    using that by (auto simp: request_waits_def mark_event_rows readable_def)
qed

definition dispatch_waits :: "lib \<Rightarrow> instant \<Rightarrow> uuid \<Rightarrow> ndb \<Rightarrow> bool" where
  "dispatch_waits L t0 i s \<longleftrightarrow> (\<forall>r \<in> set (dispatch s). json_valid L (jsonb_text L (o_payload r))) \<and>
     (\<exists>r \<in> set (dispatch s). o_id r = i \<and> dispatch_ready t0 r)"

lemma dispatch_select_ready:
  assumes w: "dispatch_waits L t0 i s" and t: "t0 \<le> now" and free: "\<And>j. \<not> locked j"
  shows "\<exists>f. ob_select (dispatch_outbox L) now locked s = Inr f \<and> json_valid L (fe_payload f)"
proof -
  let ?sel = "select_for_update (\<lambda>r. (o_available r, o_created r, o_id r)) 1 (\<lambda>r. locked (o_id r))
    (dispatch_ready now) (dispatch s)"
  have "\<exists>r \<in> set (dispatch s). dispatch_ready now r"
    using w t by (force simp: dispatch_waits_def dispatch_ready_def)
  then have "?sel \<noteq> []" using free by (auto simp: select_for_update_empty)
  then obtain r rs where sel: "?sel = r # rs" by (cases ?sel) auto
  then have "r \<in> set ?sel" by simp
  from set_select_for_update [OF this] have "r \<in> set (dispatch s)" by blast
  then show ?thesis
    using sel w by (auto simp: dispatch_outbox_def dispatch_waits_def)
qed

lemma mark_dispatch_rows:
  "dispatch (ob_mark (dispatch_outbox L) now i s) = map (\<lambda>r. if o_id r = i
     then r\<lparr>o_published := Some now, o_publish_attempts := o_publish_attempts r + 1\<rparr> else r) (dispatch s)"
  by (simp add: dispatch_outbox_def upd_def)

interpretation ddrain: drainable_outbox L "dispatch_outbox L" "pipeline_inv L M" dispatch_published
  "dispatch_message_of L" "dispatch_waits L" "\<lambda>s. length (filter (\<lambda>r. o_published r = None) (dispatch s))"
proof unfold_locales
  show "0 < length (filter (\<lambda>r. o_published r = None) (dispatch s))" if "dispatch_waits L t0 i s" for t0 i s
    using that by (force simp: dispatch_waits_def dispatch_ready_def filter_empty_conv)
  show "\<exists>f. ob_select (dispatch_outbox L) now locked s = Inr f \<and> json_valid L (fe_payload f)"
    if "dispatch_waits L t0 i s" "t0 \<le> now" "\<And>j. \<not> locked j" for s t0 i now locked
    by (rule dispatch_select_ready [OF that])
  fix s :: ndb and now locked f
  assume "pipeline_inv L M s" "ob_select (dispatch_outbox L) now locked s = Inr f"
  then obtain r where r: "r \<in> set (dispatch s)" "dispatch_ready now r" "fe_id f = o_id r"
    by (rule dispatch_select)
  show "dispatch_published (fe_id f) (ob_mark (dispatch_outbox L) now (fe_id f) s)"
    using r by (auto simp: dispatch_published_def dispatch_outbox_def bex_upd)
  show "length (filter (\<lambda>r. o_published r = None) (dispatch (ob_mark (dispatch_outbox L) now (fe_id f) s))) <
      length (filter (\<lambda>r. o_published r = None) (dispatch s))"
    unfolding mark_dispatch_rows
    by (rule length_filter_map_less [of _ _ _ r]) (use r in \<open>auto simp: dispatch_ready_def split: if_splits\<close>)
  show "dispatch_waits L t0 i (ob_mark (dispatch_outbox L) now (fe_id f) s)"
    if "dispatch_waits L t0 i s" "i \<noteq> fe_id f" for t0 i
    using that by (auto simp: dispatch_waits_def mark_dispatch_rows)
qed

section \<open>The requests reach Kafka\<close>

text \<open>C21: the relay of the monolith loses no request: whatever has failed before and however often it
  ran, an event marked as published has its message in Kafka; and once the database and Kafka answer
  again, a round per unpublished event is enough for every event that is due to get there, with the
  message it had from the start.\<close>

theorem requests_reach_kafka:
  assumes s: "mdb_ok s" "\<forall>e \<in> set (events s). ev_published e = None"
    and before: "Relay_Run L (requests_outbox L) rls (s, []) = (s1, kl1)"
    and later: "Relay_Run L (requests_outbox L) rls' (s1, kl1) = (s2, kl2)"
    and calm: "\<forall>rl \<in> set rls'. calm t0 rl" "length (filter unsent (events s1)) \<le> length rls'"
    and rows: "\<forall>e \<in> set (events s1). readable L e"
  shows "(\<forall>e \<in> set (events s2). ev_published e \<noteq> None \<longrightarrow> event_message L e \<in> set kl2) \<and>
    (\<forall>e \<in> set (events s1). request_ready t0 e \<longrightarrow>
      (\<exists>e' \<in> set (events s2). ev_id e' = ev_id e \<and> ev_published e' \<noteq> None) \<and> event_message L e \<in> set kl2)"
proof -
  have "rob.sent_all L (s, [])" using s by (auto simp: rob.sent_all_def event_published_def)
  then have s1: "rob.sent_all L (s1, kl1)"
    using rob.Relay_Run_sent_all [of L "(s, [])" rls] before by simp
  then have s2: "rob.sent_all L (s2, kl2)"
    using rob.Relay_Run_sent_all [of L "(s1, kl1)" rls'] later by simp
  have sent: "event_message L e \<in> set kl2" if "e \<in> set (events x)" "x = s1 \<or> x = s2" "event_published (ev_id e) s2"
    for e x
  proof -
    have "distinct (map ev_id (events x))" using s1 s2 that(2) by (auto simp: rob.sent_all_def mdb_ok_def)
    then have "event_message_of L (ev_id e) x = Some (event_message L e)"
      using find_unique [OF _ that(1), of ev_id "ev_id e"] by (simp add: event_message_of_def)
    moreover have "event_message_of L (ev_id e) x = event_message_of L (ev_id e) s2"
      using rob.Relay_Run_message [of L "ev_id e" rls' "(s1, kl1)"] later that(2) by auto
    ultimately show ?thesis using s2 that(3) by (auto simp: rob.sent_all_def)
  qed
  have "event_published (ev_id e) s2" if "e \<in> set (events s1)" "request_ready t0 e" for e
  proof -
    have "request_waits L t0 (ev_id e) s1" using that rows by (auto simp: request_waits_def)
    then show ?thesis
      using rdrain.Relay_Run_drains [of "(s1, kl1)" rls' t0 "ev_id e" L] s1 calm later
      by (simp add: rob.sent_all_def)
  qed
  moreover have "event_published (ev_id e) s2" if "e \<in> set (events s2)" "ev_published e \<noteq> None" for e
    using that by (auto simp: event_published_def)
  ultimately show ?thesis using sent by (simp add: event_published_def)
qed

theorem requests_reach_kafka_witness:
  "\<exists>s2 kl2. Relay_Run demo_lib (requests_outbox demo_lib) [demo_rounds ! 1]
      (Relay_Run demo_lib (requests_outbox demo_lib) [demo_rounds ! 0] (outbox1, [])) = (s2, kl2) \<and>
    (\<exists>e \<in> set (events s2). ev_id e = 100 \<and> ev_published e \<noteq> None) \<and> event_message demo_lib demo_intent \<in> set kl2"
proof -
  let ?ob = "requests_outbox demo_lib"
  let ?e = "demo_intent\<lparr>ev_attempts := 1, ev_available := 1002000\<rparr>"
  let ?s1 = "outbox1\<lparr>events := [?e]\<rparr>"
  have ev: "ev_id demo_intent = 100" "ev_topic demo_intent = Some RequestsTopicV1" "ev_key demo_intent = Some (Itoa 7)"
    "ev_version demo_intent = Some 1" "ev_published demo_intent = None" "ev_available demo_intent = 1000"
    "ev_attempts demo_intent = 0"
    "jsonb_text demo_lib (ev_payload demo_intent) = enc (intent_payload demo_lib 1000000 demo_post 100 7)"
    by (simp_all add: demo_intent_def intent_row_def RequestedSchemaV1_def to_micros_def)
  have b: "Milliseconds (relay_backoff 0) * 1000 = 1000000"
    using relay_backoff_micros [of 0] by simp
  have before: "Relay_Run demo_lib ?ob [demo_rounds ! 0] (outbox1, []) = (?s1, [])"
    using ev b
    by (simp add: demo_rounds_def outbox1_def PublishOne_def requests_outbox_def select_for_update_def
        request_ready_def Publish_def commit_def upd_def Let_def)
  obtain s2 kl2 where later: "Relay_Run demo_lib ?ob [demo_rounds ! 1] (?s1, []) = (s2, kl2)"
    by (metis surj_pair)
  have un: "\<forall>e \<in> set (events outbox1). ev_published e = None" by (simp add: outbox1_def ev)
  have calm: "\<forall>rl \<in> set [demo_rounds ! 1]. calm 3000000 rl" by (simp add: calm_def demo_rounds_def)
  have n: "length (filter unsent (events ?s1)) \<le> length [demo_rounds ! 1]" by simp
  have rows: "\<forall>e \<in> set (events ?s1). readable demo_lib e" by (simp add: readable_def ev)
  have m: "event_message demo_lib ?e = event_message demo_lib demo_intent" by (simp add: event_message_def)
  have r: "request_ready 3000000 ?e" by (simp add: request_ready_def ev)
  have "\<exists>e \<in> set (events s2). ev_id e = 100 \<and> ev_published e \<noteq> None" "event_message demo_lib demo_intent \<in> set kl2"
    using requests_reach_kafka [OF outbox1_ok un before later calm n rows] r m by (simp_all add: ev)
  then show ?thesis using before later by simp
qed

end
