(* ===== verification/EndToEnd.thy ===== *)
theory EndToEnd
  imports PipelineProps "HOL-Library.Multiset"
begin

text \<open>
  Properties that span the programs: a post saved by the monolith becomes a delivery for every
  enabled channel of every follower, a retry comes back through Kafka, and what the two storages
  promise to their callers.
\<close>

section \<open>Saving a post\<close>

lemma length_filter_self: "distinct xs \<Longrightarrow> x \<in> set xs \<Longrightarrow> length (filter (\<lambda>y. y = x) xs) = 1"
  by (induction xs) (auto simp: filter_empty_conv)

text \<open>C20: a new post is announced exactly once to every follower of its feed: each of them gets one
  intent in the outbox, of one statement with the post; a post whose URL is known changes nothing, so
  a feed that is read again announces nothing twice.\<close>

theorem post_announced_once:
  assumes "mdb_ok s" "SavePost L oc fresh now post s = (Inr inserted, s')"
  shows "if inserted then
      (\<forall>u. (\<exists>ff \<in> set (follows s). fo_user ff = u \<and> fo_feed ff = p_feed post) \<longrightarrow>
         length (filter (\<lambda>e. e = intent_row L now post (fresh u) u) (events s')) = 1) \<and>
      length (events s') = length (events s) + length (filter (\<lambda>ff. fo_feed ff = p_feed post) (follows s)) \<and>
      (\<exists>p \<in> set (posts s'). p_url p = p_url post \<and> p_id p = p_id post)
    else s' = s \<and> (\<exists>p \<in> set (posts s). p_url p = p_url post)"
proof -
  have ins: "insert_post L fresh now post s = Inr (inserted, s')"
    using assms(2) by (auto simp: SavePost_def autocommit_def split: outcome.splits sum.splits)
  show ?thesis
  proof (cases inserted)
    case True
    with ins have "insert_post L fresh now post s = Inr (True, s')" by simp
    then obtain row new where s': "s' = s\<lparr>posts := posts s @ [row], events := events s @ new\<rparr>" and
      new: "new = map (\<lambda>ff. intent_row L now post (fresh (fo_user ff)) (fo_user ff)) (followers (p_feed post) s)" and
      row: "p_id row = p_id post" "p_url row = p_url post" and
      ids: "distinct (map ev_id (events s @ new))"
      by (rule insert_post_True)
    have d: "distinct (events s @ new)" using ids by (simp only: distinct_map)
    have "length (filter (\<lambda>e. e = intent_row L now post (fresh u) u) (events s')) = 1"
      if "\<exists>ff \<in> set (follows s). fo_user ff = u \<and> fo_feed ff = p_feed post" for u
    proof -
      have "intent_row L now post (fresh u) u \<in> set (events s @ new)"
        using that by (auto simp: new followers_def)
      then have "length (filter (\<lambda>e. e = intent_row L now post (fresh u) u) (events s @ new)) = 1"
        by (rule length_filter_self [OF d])
      then show ?thesis by (simp add: s')
    qed
    then show ?thesis using True row by (auto simp: s' new followers_def)
  next
    case False
    then show ?thesis using insert_post_False ins by simp
  qed
qed

definition demo_user :: user where
  "demo_user = \<lparr>u_id = 7, u_created = 0, u_updated = 0, u_name = ''Ann'', u_api_key = ''k''\<rparr>"

definition demo_feed :: feed where
  "demo_feed = \<lparr>f_id = 12, f_created = 0, f_updated = 0, f_name = ''News'', f_url = ''https://f'', f_fetched = None\<rparr>"

definition mono1 :: mdb where
  "mono1 = \<lparr>users = [demo_user], feeds = [demo_feed],
     follows = [\<lparr>fo_id = 1, fo_created = 0, fo_updated = 0, fo_user = 7, fo_feed = 12\<rparr>], posts = [], events = []\<rparr>"

definition mono2 :: mdb where
  "mono2 = mono1\<lparr>posts := [post.extend (demo_post\<lparr>p_published := 2000\<rparr>) \<lparr>p_created = 1000, p_updated = 1000\<rparr>],
     events := [demo_intent]\<rparr>"

lemma mono1_ok: "mdb_ok mono1"
  by (simp add: mdb_ok_def mono1_def demo_user_def demo_feed_def)

lemma demo_save: "SavePost demo_lib Applied (\<lambda>_. 100) 1000000 demo_post mono1 = (Inr True, mono2)"
proof -
  have t: "pg_text (p_title demo_post)" "pg_text (p_url demo_post)" "p_description demo_post = None"
    by (simp_all add: demo_post_def pg_text_ascii)
  show ?thesis
    using t
    by (simp add: SavePost_def autocommit_def insert_post_def mono1_def mono2_def demo_feed_def demo_intent_def
        to_micros_def intent_row_def) (simp add: demo_post_def)
qed

theorem post_announced_once_witness:
  "length (filter (\<lambda>e. e = demo_intent) (events mono2)) = 1 \<and> length (events mono2) = 1"
  using post_announced_once [OF mono1_ok demo_save]
  by (simp add: mono1_def demo_intent_def) (simp add: demo_post_def)

text \<open>C31: paging through the feeds ends and shows every feed exactly once, in order: for every page
  size the API allows, a client that follows the cursors reads the whole table after at most one page
  per feed.\<close>

theorem feeds_paging_complete:
  assumes "mdb_ok s" "1 \<le> limit" "limit \<le> 100"
  shows "\<exists>fs. all_pages (Suc (length (feeds s))) limit None s = Some (Inr fs) \<and>
    mset fs = mset (feeds s) \<and> sorted (map f_id fs) \<and> distinct (map f_id fs)"
proof -
  have d: "distinct (map f_id (feeds s))" using assms(1) by (simp add: mdb_ok_def)
  have all: "filter (\<lambda>f. None < Some (f_id f)) (feeds s) = feeds s" by simp
  have "all_pages (Suc (length (feeds s))) limit None s = Some (Inr (sort_key f_id (feeds s)))"
    using all_pages_rows [OF assms(2,3) d, of None "Suc (length (feeds s))"] by (simp only: all)
  moreover have "distinct (map f_id (sort_key f_id (feeds s)))"
    using d by (metis distinct_map distinct_sort set_sort)
  ultimately show ?thesis by simp
qed

theorem feeds_paging_complete_witness:
  "\<exists>fs. all_pages 2 1 None mono1 = Some (Inr fs) \<and> mset fs = {#demo_feed#}"
  using feeds_paging_complete [OF mono1_ok, of 1] by (auto simp: mono1_def numeral_2_eq_2)

section \<open>From the post to the deliveries\<close>

lemma intent_event_fields [simp]:
  "EventID (intent_event now post i u) = i" "UserID (intent_event now post i u) = u"
  "EventType (intent_event now post i u) = NotificationRequested" "SchemaVersion (intent_event now post i u) = 1"
  "Template (intent_event now post i u) = TemplateNewPost"
  by (simp_all add: intent_event_def RequestedSchemaV1_def)

lemma is_request_intent:
  assumes "intent_text_ok L now post i u" "carries rec (event_message L (intent_row L now post i u))"
  shows "is_request L rec event \<longleftrightarrow> event = intent_event now post i u \<and> intent_acceptable L now post i u"
  using DecodeRequested_intent [OF assms] intent_message [OF assms(2)] by (simp add: is_request_def)

text \<open>C13: the request of a saved post survives the outbox, the relay and Kafka: the record that carries its
  message is decoded to the event with the post, the follower and the identifier of the outbox row,
  unless the post cannot be announced (blank title, zero date or a URL that is not http or https), and
  then to nothing else.\<close>

theorem request_round_trip:
  assumes "intent_text_ok L now post i u"
    and "carries rec (event_message L (intent_row L now post i u))"
  shows "k_topic rec = RequestsTopicV1 \<and> k_key rec = uuid_text L u \<and>
    (\<forall>event. is_request L rec event \<longleftrightarrow> event = intent_event now post i u \<and> intent_acceptable L now post i u)"
  using is_request_intent [OF assms] intent_message [OF assms(2)] by simp

lemma demo_record_carries:
  "carries demo_record (event_message demo_lib (intent_row demo_lib 1000000 demo_post 100 7))"
  unfolding demo_record_def by (rule carries_extend)

theorem request_round_trip_witness:
  "\<forall>event. is_request demo_lib demo_record event \<longleftrightarrow> event = demo_event"
  using request_round_trip [OF demo_text_ok demo_record_carries] demo_acceptable by (simp add: demo_event_def)

lemma insert_deliveries_fresh:
  assumes "schema_ok s" "distinct (map d_id (deliveries s) @ map (\<lambda>c. fresh (ch_id c)) (channels s))"
    and "channels s1 = channels s" "deliveries s1 = deliveries s"
  shows "\<exists>s'. insert_deliveries fresh now event s1 = Inr s'"
proof -
  let ?cs = "filter (\<lambda>c. \<not> (\<exists>d \<in> set (deliveries s). d_event d = EventID event \<and> d_channel d = ch_id c))
    (user_channels (UserID event) s)"
  have "distinct (map d_id (deliveries s) @ map (\<lambda>c. fresh (ch_id c)) ?cs)"
    using assms(2) by (auto simp: user_channels_def intro: distinct_map_filter)
  moreover have "map d_id (map (\<lambda>c. new_delivery now (fresh (ch_id c)) event c) ?cs) = map (\<lambda>c. fresh (ch_id c)) ?cs"
    by (simp add: new_delivery_def)
  ultimately show ?thesis
    using assms(3,4) by (simp add: insert_deliveries_def user_channels_def image_image new_delivery_def del: map_map)
qed

text \<open>C11: from a post to its deliveries: when the consumer processes the record of a follower's request and
  the database answers, the follower has exactly one delivery of the post for each enabled channel,
  and the record is done. (PostgreSQL takes the text it printed itself, and the identifiers it
  draws are new.)\<close>

theorem new_post_delivers:
  assumes texts: "intent_text_ok L now post i u" "intent_acceptable L now post i u"
    and rec: "carries rec (event_message L (intent_row L now post i u))"
    and pg: "jsonb_in L (jsonb_text L (intent_payload L now post i u)) = Some (intent_payload L now post i u)"
    and s: "schema_ok s" "\<not> has_event i s"
    and env: "\<And>n. e_oc (E k) n = Applied"
      "distinct (map d_id (deliveries s) @ map (\<lambda>c. e_fresh (E k) (ch_id c)) (channels s))"
  shows "\<exists>s'. Consumer_Process L (pg_inbox L E) pc clock (Some rec) ((s, k), kl) = (None, ((s', k + 1), kl)) \<and>
    (\<forall>c \<in> set (channels s). ch_user c = u \<and> ch_enabled c \<longrightarrow>
      (\<exists>!d. d \<in> set (deliveries s') \<and> d_event d = i \<and> d_channel d = ch_id c))"
proof -
  let ?event = "intent_event now post i u" and ?p = "intent_payload L now post i u"
  have req: "is_request L rec ?event"
    using is_request_intent [OF texts(1) rec] texts(2) by simp
  have val: "k_value rec = jsonb_text L ?p" using intent_message [OF rec] by simp
  have obj: "is_json_object ?p" by (simp add: intent_payload_members is_json_object_def)
  let ?s1 = "s\<lparr>inbox := inbox s @ [inbox_entry (e_now (E k)) ?event ?p]\<rparr>"
  have ins: "insert_inbox L (e_now (E k)) ?event (k_value rec) s = Inr (1, ?s1)"
    using s(2) pg val obj by (auto simp: insert_inbox_def has_event_def inbox_entry_def)
  obtain s' where "insert_deliveries (e_fresh (E k)) (e_now (E k)) ?event ?s1 = Inr s'"
    using insert_deliveries_fresh [OF s(1) env(2), of ?s1] by auto
  then have acc: "AcceptRequest L (e_oc (E k)) (e_fresh (E k)) (e_now (E k)) ?event (k_value rec) s = (Inr (), s')"
    using ins env(1) by (simp add: AcceptRequest_def commit_def)
  have "Consumer_Process L (pg_inbox L E) pc clock (Some rec) ((s, k), kl) = (None, ((s', k + 1), kl))"
    using req acc by (simp add: Consumer_Process_def is_request_def pg_inbox_def)
  then show ?thesis
    using AcceptRequest_new_row [OF s(1) _ acc] s(2) by auto
qed

theorem new_post_delivers_witness:
  "\<exists>s'. Consumer_Process demo_lib (pg_inbox demo_lib (\<lambda>_. demo_env)) Acked 0 (Some demo_record) ((db1, 0), []) =
      (None, ((s', 1), [])) \<and>
    (\<exists>!d. d \<in> set (deliveries s') \<and> d_event d = 100 \<and> d_channel d = 1)"
  using new_post_delivers [OF demo_text_ok demo_acceptable demo_record_carries, where s = db1 and E = "\<lambda>_. demo_env" and
      k = 0 and kl = "[]" and pc = Acked and clock = 0] demo_schema(1)
  by (simp add: demo_canon demo_env_def db1_def has_event_def demo_channel_def)

section \<open>From the failure to the retry\<close>



lemma demo_waiting_fields [simp]:
  "d_id demo_waiting = 1000" "d_event demo_waiting = 100" "d_user demo_waiting = 7" "d_attempts demo_waiting = 1"
  "d_status demo_waiting = StRetryWait" "d_channel demo_waiting = 1"
  by (simp_all add: demo_waiting_def release_row_def demo_row_defs)


section \<open>Channels that go away\<close>






lemma AcceptRequest_channels:
  assumes "AcceptRequest L oc fresh now event payload s = (r, s')"
  shows "channels s' = channels s"
proof (cases "s' = s")
  case False
  then obtain s1 where s1: "insert_inbox L now event payload s = Inr (1, s1)" "insert_deliveries fresh now event s1 = Inr s'"
    using AcceptRequest_state [OF assms] by auto
  have "channels s1 = channels s" using insert_inbox_Inr [OF s1(1)] by auto
  moreover have "channels s' = channels s1"
    using s1(2) by (simp add: insert_deliveries_def Let_def split: if_splits) auto
  ultimately show ?thesis by simp
qed simp

text \<open>C37: deleting a channel does not lock it before its waiting deliveries are cancelled: a request that
  is accepted between the two statements leaves a delivery that is pending, whose channel is gone and
  that no worker will ever claim.\<close>

theorem delete_race_orphans:
  assumes s: "pipeline_inv L M s" "\<not> has_event (EventID event) s"
    and c: "c \<in> set (channels s)" "ch_id c = i" "ch_user c = UserID event" "ch_enabled c"
    and acc: "AcceptRequest L oc fresh now event payload (cancel_stmt now0 (UserID event) i s) = (Inr (), s1)"
    and del: "s2 = snd (delete_stmt (UserID event) i s1)"
  shows "\<exists>d \<in> set (deliveries s2). d_event d = EventID event \<and> d_status d = StPending \<and>
    (\<forall>c \<in> set (channels s2). ch_id c \<noteq> d_channel d) \<and> (\<forall>now types. \<not> claimable now types s2 d)"
proof -
  let ?s0 = "cancel_stmt now0 (UserID event) i s"
  have s0: "schema_ok ?s0" "\<not> has_event (EventID event) ?s0"
    using pipeline_inv_schema [OF cancel_stmt_inv [OF s(1)]] s(2) by (simp_all add: cancel_stmt_def has_event_def)
  have rows: "deliveries s1 = deliveries ?s0 @
      map (\<lambda>c. new_delivery now (fresh (ch_id c)) event c) (user_channels (UserID event) ?s0)"
    by (rule AcceptRequest_new [OF s0 acc])
  let ?d = "new_delivery now (fresh i) event c"
  have "?d \<in> set (deliveries s2)"
    using rows c by (auto simp: del delete_stmt_def user_channels_def)
  moreover have "\<forall>c' \<in> set (channels s2). ch_id c' \<noteq> i"
  proof
    fix c' assume "c' \<in> set (channels s2)"
    then have c': "c' \<in> set (channels s)" "\<not> channel_row_of (UserID event) i c'"
      using AcceptRequest_channels [OF acc] by (simp_all add: del delete_stmt_def set_del)
    show "ch_id c' \<noteq> i"
    proof
      assume "ch_id c' = i"
      then have "c' = c" using channel_by_id [OF pipeline_inv_schema [OF s(1)] c'(1) c(1)] c(2) by simp
      then show False using c'(2) c(2,3) by (simp add: channel_row_of_def)
    qed
  qed
  ultimately show ?thesis
    using c by (intro bexI [of _ ?d]) (auto simp: new_delivery_def claimable_def)
qed

theorem delete_race_orphans_witness:
  "\<exists>d \<in> set (deliveries (snd (delete_stmt 7 1 db2))). d_status d = StPending \<and>
    (\<forall>now types. \<not> claimable now types (snd (delete_stmt 7 1 db2)) d)"
proof -
  have "cancel_stmt 9 7 1 db1 = db1" by (simp add: cancel_stmt_def db1_def)
  then have acc: "AcceptRequest demo_lib (\<lambda>_. Applied) (\<lambda>_. 1000) 10 demo_event demo_payload
      (cancel_stmt 9 (UserID demo_event) 1 db1) = (Inr (), db2)"
    using demo_accept by simp
  have c: "demo_channel \<in> set (channels db1)" "ch_id demo_channel = 1" "ch_user demo_channel = UserID demo_event"
    "ch_enabled demo_channel" "\<not> has_event (EventID demo_event) db1"
    by (simp_all add: db1_def demo_channel_def has_event_def)
  show ?thesis using delete_race_orphans [OF db1_inv c(5,1-4) acc refl] by auto
qed

text \<open>C16: the worker keeps the invariant of the database: over any number of rounds, batches, send
  results, clock readings, database failures and recoveries, until its context ends.\<close>

theorem worker_keeps_invariant:
  assumes "pipeline_inv L 8 s" "w_Store w = Some (pg_store L E)" "w_Policy w = Some default_policy"
    and "Worker_Run w types rds (s, k) = (err, (s', k'))"
  shows "pipeline_inv L 8 s'"
proof -
  have "pipeline_inv L 8 (fst (snd (Worker_Run w types rds (s, k))))"
    by (rule pg.Worker_Run_inv [OF _ _ _ assms(2,3)]) (use assms(1) in \<open>simp_all add: default_policy_def\<close>)
  then show ?thesis using assms(4) by simp
qed

theorem worker_keeps_invariant_witness:
  "\<forall>rds. pipeline_inv demo_lib 8 (fst (snd (Worker_Run
     \<lparr>w_Store = Some (pg_store demo_lib (\<lambda>_. demo_env)), w_Senders = Some demo_senders, w_Policy = Some default_policy\<rparr>
     [''telegram''] rds (db3, 0))))"
proof
  fix rds
  obtain err s' k' where "Worker_Run \<lparr>w_Store = Some (pg_store demo_lib (\<lambda>_. demo_env)),
      w_Senders = Some demo_senders, w_Policy = Some default_policy\<rparr> [''telegram''] rds (db3, 0) = (err, (s', k'))"
    by (metis surj_pair)
  from worker_keeps_invariant [OF db3_inv _ _ this] this
  show "pipeline_inv demo_lib 8 (fst (snd (Worker_Run
     \<lparr>w_Store = Some (pg_store demo_lib (\<lambda>_. demo_env)), w_Senders = Some demo_senders, w_Policy = Some default_policy\<rparr>
     [''telegram''] rds (db3, 0))))" by simp
qed

end
