(* ===== verification/HttpApi.thy ===== *)
theory HttpApi
  imports Json
begin

text \<open>
  \<open>internal/httpapi/response.go\<close>: the HTTP contract of the APIs, over a model of
  \<open>http.ResponseWriter\<close> and of the parts of \<open>http.Request\<close> the handlers read. Headers
  set after the status line and a second status line are ignored, as \<open>net/http\<close> does; a write
  that fails is only logged and is left out, and so is the \<open>Connection\<close> header that
  \<open>MaxBytesReader\<close> adds.
\<close>

section \<open>Requests and responses\<close>

record writer =
  w_header :: "string \<rightharpoonup> string"
  w_status :: "int option"
  w_body :: string

definition new_writer :: writer where
  "new_writer = \<lparr>w_header = Map.empty, w_status = None, w_body = ''''\<rparr>"

definition Header_Set :: "string \<Rightarrow> string \<Rightarrow> writer \<Rightarrow> writer" where
  "Header_Set k v w = (if w_status w = None then w\<lparr>w_header := (w_header w)(k \<mapsto> v)\<rparr> else w)"

definition WriteHeader :: "int \<Rightarrow> writer \<Rightarrow> writer" where
  "WriteHeader status w = (if w_status w = None then w\<lparr>w_status := Some status\<rparr> else w)"

definition Write :: "string \<Rightarrow> writer \<Rightarrow> writer" where
  "Write msg w = (let w' = WriteHeader 200 w in w'\<lparr>w_body := w_body w' @ msg\<rparr>)"

text \<open>
  \<open>rq_user\<close> is the value the authentication middleware leaves in the context, and
  \<open>rq_body\<close> what can be read of the body with the error that then ends the reading, if any.
\<close>

record request =
  rq_method :: string
  rq_path :: string
  rq_authorization :: "string list"
  rq_path_value :: string
  rq_query :: "string \<Rightarrow> string"
  rq_user :: "uuid option"
  rq_body :: "string \<times> goerr option"

text \<open>What an HTTP client gets: the status and the body, with the error that ends its reading.\<close>

record http_response =
  StatusCode :: int
  Resp_Body :: "string \<times> goerr option"

text \<open>\<open>io.ReadAll(io.LimitReader(body, n))\<close>: the error is met only where the limit is not.\<close>

definition read_limited :: "nat \<Rightarrow> string \<times> goerr option \<Rightarrow> goerr + string" where
  "read_limited n body =
     (if n \<le> length (fst body) then Inr (take n (fst body))
      else (case snd body of Some e \<Rightarrow> Inl e | None \<Rightarrow> Inr (fst body)))"

section \<open>Writing\<close>

definition write_value :: "lib \<Rightarrow> int \<Rightarrow> json \<Rightarrow> writer \<Rightarrow> writer" where
  "write_value L status v w =
     Write (json_text L v @ [CHR 0x0A])
       (WriteHeader status
         (Header_Set ''X-Content-Type-Options'' ''nosniff''
           (Header_Set ''Content-Type'' ''application/json'' w)))"

definition error_response :: "string \<Rightarrow> string \<Rightarrow> json" where
  "error_response code msg =
     JObj [(''error'', JObj [(''code'', JStr code), (''message'', JStr msg)])]"

text \<open>An \<open>ErrorResponse\<close> always marshals.\<close>

definition WriteError :: "lib \<Rightarrow> int \<Rightarrow> string \<Rightarrow> string \<Rightarrow> writer \<Rightarrow> writer" where
  "WriteError L status code msg w =
     write_value L status (error_response code msg) (Header_Set ''Cache-Control'' ''no-store'' w)"

definition WriteJSON :: "lib \<Rightarrow> int \<Rightarrow> json option \<Rightarrow> writer \<Rightarrow> writer" where
  \<comment> \<open>\<open>None\<close> is a value that \<open>json.Marshal\<close> rejects\<close>
  "WriteJSON L status v w =
     (case v of
        None \<Rightarrow> WriteError L 500 ''internal_error'' ''internal server error'' w
      | Some x \<Rightarrow> write_value L status x w)"

section \<open>Reading\<close>

definition MaxJSONBodyBytes :: nat where "MaxJSONBodyBytes = 16 * 2 ^ 10"

definition max_bytes_error :: goerr where "max_bytes_error = GoErr MaxBytesError []"

definition read_max :: "nat \<Rightarrow> string \<times> goerr option \<Rightarrow> goerr + string" where
  \<comment> \<open>\<open>io.ReadAll(http.MaxBytesReader(w, body, n))\<close>\<close>
  "read_max n body =
     (if n < length (fst body) then Inl max_bytes_error
      else (case snd body of Some e \<Rightarrow> Inl e | None \<Rightarrow> Inr (fst body)))"

definition DecodeJSON :: "lib \<Rightarrow> (string \<times> 's setter) list \<Rightarrow> 's \<Rightarrow> string \<times> goerr option \<Rightarrow> goerr + 's" where
  "DecodeJSON L flds zero body =
     (case read_max MaxJSONBodyBytes body of
        Inl e \<Rightarrow> Inl e
      | Inr raw \<Rightarrow>
          let txt = TrimSpace raw in
          if txt = [] \<or> hd txt \<noteq> CHR ''{'' then Inl (plain_err ''request must contain a JSON object'')
          else
            (case json_next L txt of
               None \<Rightarrow> Inl (plain_err ''json'')
             | Some (v, rest) \<Rightarrow>
                 (case decode_struct flds True v zero of
                    None \<Rightarrow> Inl (plain_err ''json'')
                  | Some result \<Rightarrow>
                      if \<not> json_eof rest then Inl (plain_err ''request must contain one JSON object'')
                      else Inr result)))"

definition is_max_bytes :: "goerr \<Rightarrow> bool" where
  "is_max_bytes e \<longleftrightarrow> err_kind e = MaxBytesError"

definition WriteDecodeError :: "lib \<Rightarrow> goerr \<Rightarrow> writer \<Rightarrow> writer" where
  "WriteDecodeError L err w =
     (if errors_as is_max_bytes err \<noteq> None then
        WriteError L 413 ''request_too_large'' ''request body is too large'' w
      else WriteError L 400 ''invalid_request'' ''invalid request payload'' w)"

section \<open>Facts\<close>

lemma writer_simps [simp]:
  "w_status (Header_Set k v w) = w_status w"
  "w_body (Header_Set k v w) = w_body w"
  "w_body (WriteHeader st w) = w_body w"
  "w_status (WriteHeader st w) = Some (case w_status w of None \<Rightarrow> st | Some s \<Rightarrow> s)"
  "w_status (Write m w) = Some (case w_status w of None \<Rightarrow> 200 | Some s \<Rightarrow> s)"
  "w_body (Write m w) = w_body w @ m"
  "w_status new_writer = None" "w_body new_writer = ''''"
  by (auto simp: Header_Set_def WriteHeader_def Write_def new_writer_def Let_def split: option.splits)

lemma write_value_simps [simp]:
  "w_status (write_value L st v w) = Some (case w_status w of None \<Rightarrow> st | Some s \<Rightarrow> s)"
  "w_body (write_value L st v w) = w_body w @ json_text L v @ [CHR 0x0A]"
  by (auto simp: write_value_def split: option.splits)

lemma WriteError_simps [simp]:
  "w_status (WriteError L st c m w) = Some (case w_status w of None \<Rightarrow> st | Some s \<Rightarrow> s)"
  "w_body (WriteError L st c m w) = w_body w @ json_text L (error_response c m) @ [CHR 0x0A]"
  by (simp_all add: WriteError_def)

lemma WriteJSON_simps [simp]:
  "w_status (WriteJSON L st (Some v) w) = Some (case w_status w of None \<Rightarrow> st | Some s \<Rightarrow> s)"
  "w_body (WriteJSON L st (Some v) w) = w_body w @ json_text L v @ [CHR 0x0A]"
  by (simp_all add: WriteJSON_def)

lemma WriteDecodeError_status:
  "w_status w = None \<Longrightarrow> w_status (WriteDecodeError L e w) \<in> {Some 400, Some 413}"
  by (simp add: WriteDecodeError_def)

lemma DecodeJSON_Inr:
  "DecodeJSON L flds zero body = Inr x \<longleftrightarrow>
     snd body = None \<and> length (fst body) \<le> MaxJSONBodyBytes \<and>
     (\<exists>t v rest. TrimSpace (fst body) = CHR ''{'' # t \<and> json_next L (CHR ''{'' # t) = Some (v, rest) \<and>
        json_eof rest \<and> decode_struct flds True v zero = Some x)"
  by (cases "TrimSpace (fst body)")
    (auto simp: DecodeJSON_def read_max_def Let_def not_less split: option.splits if_splits)

end
