(* ===== verification/Telegram.thy ===== *)
theory Telegram
  imports NotifModel HttpApi
begin

text \<open>
  \<open>internal/notification/telegram/sender.go\<close>: the Telegram sender. The HTTP client is an
  argument, a function from the one request \<open>Send\<close> makes to what \<open>Do\<close> returns; the
  body of a response is what can be read of it and the error that then ends the reading, if any.
  The methods of \<open>APIError\<close> are in \<open>GoErrors\<close>.
\<close>

section \<open>The sender\<close>

record http_request =
  Req_URL :: string
  Req_ContentType :: string
  Req_Body :: string

type_synonym http_client = "http_request \<Rightarrow> goerr + http_response option"

record tg_sender =
  token :: string
  client :: "http_client option"
  apiBaseURL :: string

definition defaultAPIBaseURL :: string where
  "defaultAPIBaseURL = ''https://api.telegram.org''"

definition maxMessageRunes :: nat where "maxMessageRunes = 4096"

definition maxResponseBytes :: nat where "maxResponseBytes = 2 ^ 20"

text \<open>
  A nil client stands for \<open>http.Client\<close> with the default timeout, which is the argument
  \<open>default_client\<close>.
\<close>

definition NewTelegram :: "http_client \<Rightarrow> string \<Rightarrow> http_client option \<Rightarrow> goerr + tg_sender" where
  "NewTelegram default_client token0 client0 =
     (let tok = TrimSpace token0 in
      if tok = '''' then Inl (plain_err ''telegram bot token must not be empty'')
      else if ContainsAny tok [CHR ''/'', CHR 0x0D, CHR 0x0A, CHR 0x09, CHR '' ''] then
        Inl (plain_err ''telegram bot token contains invalid characters'')
      else Inr \<lparr>token = tok,
                client = Some (case client0 of None \<Rightarrow> default_client | Some c \<Rightarrow> c),
                apiBaseURL = defaultAPIBaseURL\<rparr>)"

definition formatMessage :: "message \<Rightarrow> goerr + string" where
  "formatMessage m =
     (let parts = filter (\<lambda>p. p \<noteq> '''') (map TrimSpace [Title m, Body m, URL m]) in
      if parts = [] then Inl (plain_err ''telegram message must not be empty'')
      else
        let txt = Join parts [CHR 0x0A, CHR 0x0A]; rs = runes txt in
        if maxMessageRunes < length rs then Inr (string_of_runes (take maxMessageRunes rs))
        else Inr txt)"

text \<open>\<open>sendMessageRequest\<close> as \<open>json.Marshal\<close> sees it.\<close>

definition sendMessageRequest :: "string \<Rightarrow> string \<Rightarrow> json" where
  "sendMessageRequest chat_id txt = JObj [(''chat_id'', JStr chat_id), (''text'', JStr txt)]"

record sendMessageResponse =
  OK :: bool
  ErrorCode :: int
  Description :: string
  RetryAfter :: int

definition zero_response :: sendMessageResponse where
  "zero_response = \<lparr>OK = False, ErrorCode = 0, Description = '''', RetryAfter = 0\<rparr>"

definition bool_field :: "(bool \<Rightarrow> 's \<Rightarrow> 's) \<Rightarrow> 's setter" where
  "bool_field put v s = (case v of JBool b \<Rightarrow> Some (put b s) | JNull \<Rightarrow> Some s | _ \<Rightarrow> None)"

definition parameters_fields :: "(string \<times> sendMessageResponse setter) list" where
  "parameters_fields = [(''retry_after'', int_field (\<lambda>n. RetryAfter_update (\<lambda>_. n)))]"

definition response_fields :: "(string \<times> sendMessageResponse setter) list" where
  "response_fields =
     [(''ok'', bool_field (\<lambda>b. OK_update (\<lambda>_. b))),
      (''error_code'', int_field (\<lambda>n. ErrorCode_update (\<lambda>_. n))),
      (''description'', string_field (\<lambda>s. Description_update (\<lambda>_. s))),
      (''parameters'', decode_struct parameters_fields False)]"

definition telegram_result :: "lib \<Rightarrow> http_response \<Rightarrow> goerr option" where
  \<comment> \<open>\<open>Send\<close> from the response on\<close>
  "telegram_result L resp =
     (case read_limited (maxResponseBytes + 1) (Resp_Body resp) of
        Inl e \<Rightarrow> Some (wrap_err ''read telegram response'' e)
      | Inr body \<Rightarrow>
          if maxResponseBytes < length body then Some (plain_err ''telegram response exceeds bytes'')
          else
            (case Option.bind (json_unmarshal L body)
                    (\<lambda>v. decode_struct response_fields False v zero_response) of
               None \<Rightarrow> Some (wrap_err ''decode telegram response'' (plain_err ''json''))
             | Some result \<Rightarrow>
                 if StatusCode resp < 200 \<or> 300 \<le> StatusCode resp \<or> \<not> OK result then
                   Some (GoErr (ApiError (StatusCode resp)
                     (if ErrorCode result = 0 then StatusCode resp else ErrorCode result)
                     (Description result) (int64 (RetryAfter result) * int64 Second)) [])
                 else None))"

text \<open>
  \<open>http.NewRequestWithContext\<close> fails where the URL does not parse; the context is not nil and
  the method is a constant.
\<close>

definition telegram_request :: "lib \<Rightarrow> tg_sender \<Rightarrow> message \<Rightarrow> goerr + http_request" where
  \<comment> \<open>\<open>Send\<close> up to the request\<close>
  "telegram_request L s m =
     (let recipient = TrimSpace (Recipient m) in
      if recipient = '''' then Inl (plain_err ''telegram recipient must not be empty'')
      else
        (case formatMessage m of
           Inl e \<Rightarrow> Inl e
         | Inr txt \<Rightarrow>
             let payload = json_text L (sendMessageRequest recipient txt);
                 endpoint = TrimRight (apiBaseURL s) ''/'' @ ''/bot'' @ token s @ ''/sendMessage'' in
             if url_parse L endpoint = None then
               Inl (wrap_err ''create telegram sendMessage request'' (plain_err ''url''))
             else Inr \<lparr>Req_URL = endpoint, Req_ContentType = ''application/json'', Req_Body = payload\<rparr>))"

definition Telegram_Send :: "lib \<Rightarrow> tg_sender option \<Rightarrow> message \<Rightarrow> goerr option" where
  "Telegram_Send L s0 m =
     (case s0 of
        None \<Rightarrow> Some (plain_err ''telegram sender is nil'')
      | Some s \<Rightarrow>
          (case client s of
             None \<Rightarrow> Some (plain_err ''telegram HTTP client is nil'')
           | Some do_request \<Rightarrow>
               (case telegram_request L s m of
                  Inl e \<Rightarrow> Some e
                | Inr req \<Rightarrow>
                    (case do_request req of
                       Inl e \<Rightarrow> Some (GoErr TransportError [e])
                     | Inr None \<Rightarrow> Some (plain_err ''telegram returned a nil HTTP response'')
                     | Inr (Some resp) \<Rightarrow> telegram_result L resp))))"

section \<open>The text\<close>

lemma Join_nonempty: "p \<in> set ps \<Longrightarrow> p \<noteq> [] \<Longrightarrow> Join ps sep \<noteq> []"
  by (induction ps sep rule: Join.induct) auto

lemma runes_nonempty: "s \<noteq> [] \<Longrightarrow> runes s \<noteq> []"
  by (simp add: runes_def)

lemma formatMessage_Inr:
  assumes "formatMessage m = Inr txt"
  shows "txt \<noteq> []" "length (runes txt) \<le> maxMessageRunes"
proof -
  let ?parts = "filter (\<lambda>p. p \<noteq> '''') (map TrimSpace [Title m, Body m, URL m])"
  let ?t = "Join ?parts [CHR 0x0A, CHR 0x0A]"
  have ne: "?parts \<noteq> []"
    and eq: "txt = (if maxMessageRunes < length (runes ?t)
      then string_of_runes (take maxMessageRunes (runes ?t)) else ?t)"
    using assms unfolding formatMessage_def Let_def by (metis Inl_Inr_False Inr_inject)+
  have "hd ?parts \<in> set ?parts" using ne by (rule hd_in_set)
  then have "?t \<noteq> []" by (intro Join_nonempty [of "hd ?parts"]) auto
  moreover have "runes txt = take maxMessageRunes (runes ?t)"
    unfolding eq by (simp add: runes_take)
  ultimately show "txt \<noteq> []" "length (runes txt) \<le> maxMessageRunes"
    using runes_nonempty [of ?t] by (auto simp: maxMessageRunes_def)
qed

lemma formatMessage_whole:
  assumes "filter (\<lambda>p. p \<noteq> '''') (map TrimSpace [Title m, Body m, URL m]) = parts" "parts \<noteq> []"
    "length (runes (Join parts [CHR 0x0A, CHR 0x0A])) \<le> maxMessageRunes"
  shows "formatMessage m = Inr (Join parts [CHR 0x0A, CHR 0x0A])"
  using assms unfolding formatMessage_def Let_def by simp

lemma formatMessage_error_iff:
  "(\<exists>e. formatMessage m = Inl e) \<longleftrightarrow> TrimSpace (Title m) = '''' \<and> TrimSpace (Body m) = '''' \<and> TrimSpace (URL m) = ''''"
  by (auto simp: formatMessage_def Let_def)

section \<open>The answer\<close>

lemma telegram_result_None:
  "telegram_result L resp = None \<longleftrightarrow>
     length (fst (Resp_Body resp)) \<le> maxResponseBytes \<and> snd (Resp_Body resp) = None \<and>
     200 \<le> StatusCode resp \<and> StatusCode resp < 300 \<and>
     (\<exists>v r. json_unmarshal L (fst (Resp_Body resp)) = Some v \<and>
       decode_struct response_fields False v zero_response = Some r \<and> OK r)"
  by (auto simp: telegram_result_def read_limited_def bind_eq_Some_conv not_le not_less
      split: option.splits if_splits bind_splits)

end
