(* ===== verification/Email.thy ===== *)
theory Email
  imports NotifModel
begin

text \<open>
  \<open>internal/notification/email/sender.go\<close>: the email sender and its SMTP client. The text
  formats of \<open>net/mail\<close>, \<open>mime\<close>, \<open>quotedprintable\<close> and \<open>time\<close> are the fields
  of \<open>mail_lib\<close>; an SMTP session is the sequence of commands the client issues, and the
  network with the server is a function that answers a command from the commands before it, so
  that the order of the commands can be stated. The methods of \<open>SMTPError\<close> are in
  \<open>GoErrors\<close>.
\<close>

section \<open>Configuration\<close>

record address =
  Name :: string
  Address :: string

record mail_lib =
  ParseAddress :: "string \<Rightarrow> address option"      \<comment> \<open>\<open>mail.ParseAddress\<close>\<close>
  Address_String :: "address \<Rightarrow> string"           \<comment> \<open>\<open>mail.Address.String\<close>\<close>
  QEncode :: "string \<Rightarrow> string"                   \<comment> \<open>\<open>mime.QEncoding.Encode("UTF-8", s)\<close>\<close>
  QuotedPrintable :: "string \<Rightarrow> string"           \<comment> \<open>what the writer leaves in the buffer\<close>
  RFC1123Z :: "instant \<Rightarrow> string"                 \<comment> \<open>\<open>Format(time.RFC1123Z)\<close> in UTC\<close>

definition TLSModeSTARTTLS :: string where "TLSModeSTARTTLS = ''starttls''"
definition TLSModeImplicit :: string where "TLSModeImplicit = ''implicit''"
definition TLSModeNone :: string where "TLSModeNone = ''none''"

record email_config =
  cfg_Host :: string
  cfg_Port :: int
  cfg_Username :: string
  cfg_Password :: string
  cfg_FromAddress :: string
  cfg_FromName :: string
  cfg_TLSMode :: string
  cfg_Timeout :: duration

record smtp_mailer =
  smtp_host :: string
  smtp_port :: int
  smtp_username :: string
  smtp_password :: string
  smtp_tlsMode :: string
  smtp_timeout :: duration

definition defaultTimeout :: duration where
  "defaultTimeout = int64 (10 * Second)"

definition NewSMTPMailer :: "email_config \<Rightarrow> goerr + smtp_mailer" where
  "NewSMTPMailer config =
     (let host = TrimSpace (cfg_Host config);
          tlsMode = (if cfg_TLSMode config = '''' then TLSModeSTARTTLS else cfg_TLSMode config);
          timeout = (if cfg_Timeout config = 0 then defaultTimeout else cfg_Timeout config)
      in if host = '''' then Inl (plain_err ''SMTP host must not be empty'')
      else if ContainsAny host [CHR 0x0D, CHR 0x0A, CHR 0x09, CHR '' ''] then
        Inl (plain_err ''SMTP host contains invalid characters'')
      else if cfg_Port config \<le> 0 \<or> 65535 < cfg_Port config then
        Inl (plain_err ''SMTP port must be between 1 and 65535'')
      else if (cfg_Username config = '''') \<noteq> (cfg_Password config = '''') then
        Inl (plain_err ''SMTP username and password must be configured together'')
      else if tlsMode \<notin> {TLSModeSTARTTLS, TLSModeImplicit, TLSModeNone} then
        Inl (plain_err ''unsupported SMTP TLS mode'')
      else if sint timeout < 0 then Inl (plain_err ''SMTP timeout must not be negative'')
      else Inr \<lparr>smtp_host = host, smtp_port = cfg_Port config, smtp_username = cfg_Username config,
                smtp_password = cfg_Password config, smtp_tlsMode = tlsMode, smtp_timeout = timeout\<rparr>)"

section \<open>The SMTP session\<close>

datatype smtp_cmd =
    Dial string            \<comment> \<open>\<open>DialContext\<close>, the address\<close>
  | SetDeadline
  | Handshake              \<comment> \<open>TLS from the start\<close>
  | Greeting               \<comment> \<open>\<open>smtp.NewClient\<close>\<close>
  | Extension              \<comment> \<open>the answer is an error when STARTTLS is not advertised\<close>
  | StartTLS
  | Auth string string
  | MailFrom string
  | Rcpt string
  | DataStart
  | WriteBody string
  | CloseBody
  | Quit

type_synonym smtp_server = "smtp_cmd list \<Rightarrow> smtp_cmd \<Rightarrow> goerr option"

type_synonym session = "smtp_cmd list \<times> goerr option"

definition smtp_do ::
  "smtp_server \<Rightarrow> string \<Rightarrow> smtp_cmd \<Rightarrow> (smtp_cmd list \<Rightarrow> session) \<Rightarrow> smtp_cmd list \<Rightarrow> session" where
  \<comment> \<open>one command; its error ends the session\<close>
  "smtp_do srv operation cmd k tr =
     (case srv tr cmd of
        Some e \<Rightarrow> (tr @ [cmd], Some (GoErr (SMTPError operation) [e]))
      | None \<Rightarrow> k (tr @ [cmd]))"

definition smtp_extension :: "smtp_server \<Rightarrow> (smtp_cmd list \<Rightarrow> session) \<Rightarrow> smtp_cmd list \<Rightarrow> session" where
  "smtp_extension srv k tr =
     (case srv tr Extension of
        Some _ \<Rightarrow> (tr @ [Extension],
          Some (GoErr (SMTPError ''STARTTLS'') [plain_err ''server does not advertise STARTTLS'']))
      | None \<Rightarrow> k (tr @ [Extension]))"

fun rcpt_loop :: "smtp_server \<Rightarrow> string list \<Rightarrow> (smtp_cmd list \<Rightarrow> session) \<Rightarrow> smtp_cmd list \<Rightarrow> session" where
  "rcpt_loop srv [] k = k"
| "rcpt_loop srv (r # rs) k = smtp_do srv ''set recipient'' (Rcpt r) (rcpt_loop srv rs k)"

definition send_data :: "smtp_server \<Rightarrow> string \<Rightarrow> smtp_cmd list \<Rightarrow> session" where
  "send_data srv msg =
     smtp_do srv ''start message body'' DataStart
       (\<lambda>tr. case srv tr (WriteBody msg) of
          Some e \<Rightarrow> (tr @ [WriteBody msg, CloseBody], Some (GoErr (SMTPError ''write message body'') [e]))
        | None \<Rightarrow> smtp_do srv ''finish message body'' CloseBody (\<lambda>tr. (tr @ [Quit], None))
            (tr @ [WriteBody msg]))"

definition send_mail :: "smtp_server \<Rightarrow> smtp_mailer \<Rightarrow> string \<Rightarrow> string list \<Rightarrow> string \<Rightarrow> smtp_cmd list \<Rightarrow> session" where
  \<comment> \<open>authentication, envelope and message\<close>
  "send_mail srv m sender_address recipients msg =
     (let envelope = smtp_do srv ''set sender'' (MailFrom sender_address)
            (rcpt_loop srv recipients (send_data srv msg))
      in if smtp_username m = '''' then envelope
         else smtp_do srv ''authenticate'' (Auth (smtp_username m) (smtp_password m)) envelope)"

definition JoinHostPort :: "string \<Rightarrow> string \<Rightarrow> string" where
  \<comment> \<open>\<open>net.JoinHostPort\<close>\<close>
  "JoinHostPort host port =
     (if CHR '':'' \<in> set host then ''['' @ host @ '']:'' @ port else host @ '':'' @ port)"

definition SMTPMailer_Send ::
  "smtp_server \<Rightarrow> goerr option \<Rightarrow> smtp_mailer \<Rightarrow> string \<Rightarrow> string list \<Rightarrow> string \<Rightarrow> session" where
  "SMTPMailer_Send srv ctx_err m sender_address recipients msg =
     (case ctx_err of
        Some e \<Rightarrow> ([], Some e)
      | None \<Rightarrow>
          if recipients = [] then ([], Some (plain_err ''email recipients must not be empty''))
          else
            let body = send_mail srv m sender_address recipients msg;
                starttls =
                  (if smtp_tlsMode m = TLSModeSTARTTLS then
                     smtp_extension srv (smtp_do srv ''STARTTLS'' StartTLS body)
                   else body);
                greeting = smtp_do srv ''create client'' Greeting starttls;
                tls = (if smtp_tlsMode m = TLSModeImplicit then
                         smtp_do srv ''TLS handshake'' Handshake greeting
                       else greeting)
            in smtp_do srv ''connect'' (Dial (JoinHostPort (smtp_host m) (Itoa (smtp_port m))))
                 (smtp_do srv ''set deadline'' SetDeadline tls) [])"

section \<open>The message\<close>

definition containsNewline :: "string \<Rightarrow> bool" where
  "containsNewline v = ContainsAny v [CHR 0x0D, CHR 0x0A]"

definition parseSingleAddress :: "mail_lib \<Rightarrow> string \<Rightarrow> goerr + address" where
  "parseSingleAddress M value =
     (let v = TrimSpace value in
      if v = '''' then Inl (plain_err ''address must not be empty'')
      else if containsNewline v then Inl (plain_err ''address contains a newline'')
      else (case ParseAddress M v of None \<Rightarrow> Inl (plain_err ''mail'') | Some a \<Rightarrow> Inr a))"

definition buildBody :: "message \<Rightarrow> string" where
  "buildBody m =
     Join (filter (\<lambda>p. p \<noteq> '''') (map TrimSpace [Title m, Body m, URL m])) [CHR 0x0A, CHR 0x0A]"

definition crlf :: string where "crlf = [CHR 0x0D, CHR 0x0A]"

definition mail_headers :: "mail_lib \<Rightarrow> address \<Rightarrow> address \<Rightarrow> string \<Rightarrow> instant \<Rightarrow> string list" where
  "mail_headers M sender_addr to subject createdAt =
     [''From: '' @ Address_String M sender_addr,
      ''To: '' @ Address_String M to,
      ''Subject: '' @ QEncode M subject,
      ''Date: '' @ RFC1123Z M createdAt,
      ''MIME-Version: 1.0'',
      ''Content-Type: text/plain; charset=UTF-8'',
      ''Content-Transfer-Encoding: quoted-printable'']"

text \<open>Writing to a \<open>bytes.Buffer\<close> does not fail, so there is no error to return.\<close>

definition buildMIMEMessage :: "mail_lib \<Rightarrow> address \<Rightarrow> address \<Rightarrow> string \<Rightarrow> string \<Rightarrow> instant \<Rightarrow> string" where
  "buildMIMEMessage M sender_addr to subject body createdAt =
     concat (map (\<lambda>h. h @ crlf) (mail_headers M sender_addr to subject createdAt)) @ crlf @
     QuotedPrintable M body"

section \<open>The sender\<close>

type_synonym mailer = "string \<Rightarrow> string list \<Rightarrow> string \<Rightarrow> goerr option"

record email_sender =
  from_address :: address
  the_mailer :: "mailer option"

definition NewSenderWithMailer :: "mail_lib \<Rightarrow> string \<Rightarrow> string \<Rightarrow> mailer option \<Rightarrow> goerr + email_sender" where
  "NewSenderWithMailer M fromAddress fromName mailer0 =
     (if mailer0 = None then Inl (plain_err ''email mailer must not be nil'')
      else if containsNewline fromName then Inl (plain_err ''email sender name contains a newline'')
      else
        (case parseSingleAddress M fromAddress of
           Inl e \<Rightarrow> Inl (wrap_err ''invalid email sender address'' e)
         | Inr a \<Rightarrow> Inr \<lparr>from_address = a\<lparr>Name := TrimSpace fromName\<rparr>, the_mailer = mailer0\<rparr>))"

definition NewEmail :: "mail_lib \<Rightarrow> smtp_server \<Rightarrow> goerr option \<Rightarrow> email_config \<Rightarrow> goerr + email_sender" where
  \<comment> \<open>\<open>NewSender\<close>; the network and the context of the later calls are arguments\<close>
  "NewEmail M srv ctx_err config =
     (case NewSMTPMailer config of
        Inl e \<Rightarrow> Inl e
      | Inr m \<Rightarrow> NewSenderWithMailer M (cfg_FromAddress config) (cfg_FromName config)
          (Some (\<lambda>a rs msg. snd (SMTPMailer_Send srv ctx_err m a rs msg))))"

definition email_subject :: "message \<Rightarrow> string" where
  "email_subject m = (let s = TrimSpace (Title m) in if s = '''' then ''New publication'' else s)"

definition email_data :: "mail_lib \<Rightarrow> email_sender \<Rightarrow> instant \<Rightarrow> message \<Rightarrow> goerr + address \<times> string" where
  \<comment> \<open>\<open>Send\<close> up to the call of the mailer\<close>
  "email_data M s createdAt m =
     (case parseSingleAddress M (Recipient m) of
        Inl e \<Rightarrow> Inl (wrap_err ''invalid email recipient'' e)
      | Inr recipient \<Rightarrow>
          if containsNewline (email_subject m) then Inl (plain_err ''email subject contains a newline'')
          else if buildBody m = '''' then Inl (plain_err ''email message must not be empty'')
          else Inr (recipient,
            buildMIMEMessage M (from_address s) recipient (email_subject m) (buildBody m) createdAt))"

definition Email_Send :: "mail_lib \<Rightarrow> email_sender option \<Rightarrow> instant \<Rightarrow> message \<Rightarrow> goerr option" where
  "Email_Send M s0 createdAt m =
     (case s0 of
        None \<Rightarrow> Some (plain_err ''email sender is nil'')
      | Some s \<Rightarrow>
          (case the_mailer s of
             None \<Rightarrow> Some (plain_err ''email mailer is nil'')
           | Some send \<Rightarrow>
               (case email_data M s createdAt m of
                  Inl e \<Rightarrow> Some e
                | Inr (recipient, msg) \<Rightarrow> send (Address (from_address s)) [Address recipient] msg)))"

section \<open>Sessions\<close>

text \<open>
  Rules for the sequence of commands: from a state of the session where \<open>I\<close> holds, the rest
  \<open>k\<close> ends with \<open>Q\<close>.
\<close>

definition session_rule :: "(smtp_cmd list \<Rightarrow> bool) \<Rightarrow> (smtp_cmd list \<Rightarrow> session) \<Rightarrow> (session \<Rightarrow> bool) \<Rightarrow> bool" where
  "session_rule I k Q \<longleftrightarrow> (\<forall>tr. I tr \<longrightarrow> Q (k tr))"

lemma session_do:
  assumes "session_rule J k Q"
    "\<And>tr. I tr \<Longrightarrow> srv tr cmd = None \<Longrightarrow> J (tr @ [cmd])"
    "\<And>tr e. I tr \<Longrightarrow> srv tr cmd = Some e \<Longrightarrow> Q (tr @ [cmd], Some (GoErr (SMTPError operation) [e]))"
  shows "session_rule I (smtp_do srv operation cmd k) Q"
  using assms by (auto simp: session_rule_def smtp_do_def split: option.splits)

lemma session_extension:
  assumes "session_rule J k Q"
    "\<And>tr. I tr \<Longrightarrow> srv tr Extension = None \<Longrightarrow> J (tr @ [Extension])"
    "\<And>tr e. I tr \<Longrightarrow> Q (tr @ [Extension], Some (GoErr (SMTPError ''STARTTLS'') [e]))"
  shows "session_rule I (smtp_extension srv k) Q"
  using assms by (auto simp: session_rule_def smtp_extension_def split: option.splits)

lemma session_rcpts:
  assumes "session_rule I k Q"
    "\<And>tr r. I tr \<Longrightarrow> srv tr (Rcpt r) = None \<Longrightarrow> I (tr @ [Rcpt r])"
    "\<And>tr r e. I tr \<Longrightarrow> Q (tr @ [Rcpt r], Some (GoErr (SMTPError ''set recipient'') [e]))"
  shows "session_rule I (rcpt_loop srv rs k) Q"
proof (induction rs)
  case Nil
  then show ?case using assms(1) by simp
next
  case (Cons r rs)
  then show ?case using assms(2,3) by (auto intro: session_do)
qed

lemma session_send_data:
  assumes I: "\<And>tr c. I tr \<Longrightarrow> I (tr @ [c])"
    and fail: "\<And>tr c op e. I tr \<Longrightarrow> c \<in> {DataStart, CloseBody} \<Longrightarrow>
      Q (tr @ [c], Some (GoErr (SMTPError op) [e]))"
    and body: "\<And>tr op e. I tr \<Longrightarrow> Q (tr @ [WriteBody msg, CloseBody], Some (GoErr (SMTPError op) [e]))"
    and ok: "\<And>tr. I tr \<Longrightarrow> srv tr (WriteBody msg) = None \<Longrightarrow> srv (tr @ [WriteBody msg]) CloseBody = None \<Longrightarrow>
      Q (tr @ [WriteBody msg, CloseBody, Quit], None)"
  shows "session_rule I (send_data srv msg) Q"
proof -
  have "Q (smtp_do srv ''finish message body'' CloseBody (\<lambda>tr. (tr @ [Quit], None)) (tr @ [WriteBody msg]))"
    if "I tr" "srv tr (WriteBody msg) = None" for tr
    using that ok [of tr] fail [of "tr @ [WriteBody msg]" CloseBody] I
    by (auto simp: smtp_do_def split: option.splits)
  then show ?thesis
    unfolding send_data_def using I fail body
    by (intro session_do [of I]) (auto simp: session_rule_def split: option.splits)
qed

subsection \<open>Nothing confidential before TLS\<close>

fun confidential :: "smtp_cmd \<Rightarrow> bool" where
  "confidential (Auth _ _) = True"
| "confidential (MailFrom _) = True"
| "confidential (Rcpt _) = True"
| "confidential DataStart = True"
| "confidential (WriteBody _) = True"
| "confidential _ = False"

definition secured :: "smtp_server \<Rightarrow> smtp_cmd list \<Rightarrow> bool" where
  \<comment> \<open>the server has accepted a switch to TLS\<close>
  "secured srv tr \<longleftrightarrow> (\<exists>p r c. tr = p @ c # r \<and> c \<in> {StartTLS, Handshake} \<and> srv p c = None)"

definition confidential_secured :: "smtp_server \<Rightarrow> smtp_cmd list \<Rightarrow> bool" where
  "confidential_secured srv tr \<longleftrightarrow> (\<forall>p c r. tr = p @ c # r \<and> confidential c \<longrightarrow> secured srv p)"

lemma secured_snoc: "secured srv tr \<Longrightarrow> secured srv (tr @ cs)"
  unfolding secured_def by (metis append.assoc append_Cons)

lemma secured_tls: "c \<in> {StartTLS, Handshake} \<Longrightarrow> srv tr c = None \<Longrightarrow> secured srv (tr @ [c])"
  unfolding secured_def by blast

lemma confidential_Nil [simp]: "confidential_secured srv []"
  by (simp add: confidential_secured_def)

lemma confidential_snoc:
  "confidential_secured srv (tr @ [c]) \<longleftrightarrow> confidential_secured srv tr \<and> (confidential c \<longrightarrow> secured srv tr)"
proof
  assume l: "confidential_secured srv (tr @ [c])"
  have "\<And>p d r. tr = p @ d # r \<Longrightarrow> tr @ [c] = p @ d # r @ [c]" by simp
  then show "confidential_secured srv tr \<and> (confidential c \<longrightarrow> secured srv tr)"
    using l unfolding confidential_secured_def by blast
next
  assume r: "confidential_secured srv tr \<and> (confidential c \<longrightarrow> secured srv tr)"
  have "tr @ [c] = p @ d # q \<Longrightarrow> (q = [] \<and> p = tr \<and> d = c) \<or> (\<exists>q'. q = q' @ [c] \<and> tr = p @ d # q')" for p d q
    by (cases q rule: rev_cases) auto
  then show "confidential_secured srv (tr @ [c])"
    using r unfolding confidential_secured_def by blast
qed

lemma confidential_app:
  "confidential_secured srv tr \<Longrightarrow> secured srv tr \<Longrightarrow> confidential_secured srv (tr @ cs)"
proof (induction cs rule: rev_induct)
  case (snoc c cs)
  then show ?case
    using confidential_snoc [of srv "tr @ cs" c] secured_snoc [of srv tr cs] by simp
qed simp

lemma send_mail_secured:
  "session_rule (\<lambda>tr. confidential_secured srv tr \<and> secured srv tr) (send_mail srv m a rs msg)
     (\<lambda>s. confidential_secured srv (fst s))"
proof -
  let ?I = "\<lambda>tr. confidential_secured srv tr \<and> secured srv tr" and ?Q = "\<lambda>s. confidential_secured srv (fst s)"
  have I: "\<And>tr cs. ?I tr \<Longrightarrow> ?I (tr @ cs)" by (simp add: secured_snoc confidential_app)
  have sd: "session_rule ?I (send_data srv msg) ?Q"
    by (rule session_send_data) (simp_all add: I)
  have env: "session_rule ?I (smtp_do srv ''set sender'' (MailFrom a) (rcpt_loop srv rs (send_data srv msg))) ?Q"
    by (intro session_do [of ?I] session_rcpts sd) (simp_all add: I)
  have "session_rule ?I (smtp_do srv ''authenticate'' c
      (smtp_do srv ''set sender'' (MailFrom a) (rcpt_loop srv rs (send_data srv msg)))) ?Q" for c
    by (rule session_do [OF env]) (simp_all add: I)
  then show ?thesis using env by (simp add: send_mail_def Let_def)
qed

text \<open>The set-up of the session around an arbitrary rest, by its TLS mode.\<close>

lemma SMTPMailer_Send_setup:
  assumes body: "session_rule J (send_mail srv m a rs msg) Q"
    and step: "\<And>tr c. I tr \<Longrightarrow> \<not> confidential c \<Longrightarrow> I (tr @ [c])"
    and step': "\<And>tr c. J tr \<Longrightarrow> \<not> confidential c \<Longrightarrow> J (tr @ [c])"
    and tls: "\<And>tr c. I tr \<Longrightarrow> c \<in> {StartTLS, Handshake} \<Longrightarrow> srv tr c = None \<Longrightarrow> J (tr @ [c])"
    and plain: "\<And>tr. I tr \<Longrightarrow> smtp_tlsMode m \<notin> {TLSModeSTARTTLS, TLSModeImplicit} \<Longrightarrow> J tr"
    and fail: "\<And>tr c op e. I tr \<or> J tr \<Longrightarrow> \<not> confidential c \<Longrightarrow> Q (tr @ [c], Some (GoErr (SMTPError op) [e]))"
    and "I []" "rs \<noteq> []"
  shows "Q (SMTPMailer_Send srv None m a rs msg)"
proof -
  let ?body = "send_mail srv m a rs msg"
  let ?st = "smtp_extension srv (smtp_do srv ''STARTTLS'' StartTLS ?body)"
  have st: "session_rule I ?st Q"
    by (intro session_extension [of I] session_do [OF body]) (simp_all add: step tls fail)
  define ss where "ss = (if smtp_tlsMode m = TLSModeSTARTTLS then ?st else ?body)"
  define gr where "gr = smtp_do srv ''create client'' Greeting ss"
  define ts where "ts = (if smtp_tlsMode m = TLSModeImplicit
    then smtp_do srv ''TLS handshake'' Handshake gr else gr)"
  have grI: "session_rule I gr Q" if "session_rule I ss Q"
    unfolding gr_def using that by (rule session_do) (simp_all add: step fail)
  have grJ: "session_rule J gr Q" if "session_rule J ss Q"
    unfolding gr_def using that by (rule session_do) (simp_all add: step' fail)
  have ne: "TLSModeSTARTTLS \<noteq> TLSModeImplicit"
    by (simp add: TLSModeSTARTTLS_def TLSModeImplicit_def)
  have "session_rule I ts Q"
  proof (cases "smtp_tlsMode m = TLSModeSTARTTLS")
    case True
    then show ?thesis using st grI ne by (simp add: ts_def ss_def)
  next
    case False
    then have ss: "ss = ?body" by (simp add: ss_def)
    show ?thesis
    proof (cases "smtp_tlsMode m = TLSModeImplicit")
      case True
      have "session_rule I (smtp_do srv ''TLS handshake'' Handshake gr) Q"
        using grJ body ss by (intro session_do [of J]) (simp_all add: tls fail)
      then show ?thesis using True by (simp add: ts_def)
    next
      case no: False
      then have "session_rule I ?body Q" using body plain False by (simp add: session_rule_def)
      then show ?thesis using grI ss no by (simp add: ts_def)
    qed
  qed
  then have "session_rule I (smtp_do srv ''connect'' (Dial (JoinHostPort (smtp_host m) (Itoa (smtp_port m))))
    (smtp_do srv ''set deadline'' SetDeadline ts)) Q"
    by (intro session_do [of I]) (simp_all add: step fail)
  moreover have "SMTPMailer_Send srv None m a rs msg =
    smtp_do srv ''connect'' (Dial (JoinHostPort (smtp_host m) (Itoa (smtp_port m))))
      (smtp_do srv ''set deadline'' SetDeadline ts) []"
    unfolding SMTPMailer_Send_def Let_def ts_def gr_def ss_def using \<open>rs \<noteq> []\<close> by simp
  ultimately show ?thesis
    using \<open>I []\<close> by (simp add: session_rule_def)
qed

lemma SMTPMailer_Send_secured:
  assumes "smtp_tlsMode m \<in> {TLSModeSTARTTLS, TLSModeImplicit}"
  shows "confidential_secured srv (fst (SMTPMailer_Send srv ctx_err m a rs msg))"
proof (cases "ctx_err = None \<and> rs \<noteq> []")
  case True
  then show ?thesis
    using assms secured_tls
    by (auto intro!: SMTPMailer_Send_setup [OF send_mail_secured, of "confidential_secured srv"]
        simp: confidential_snoc secured_snoc)
qed (auto simp: SMTPMailer_Send_def split: option.splits)

subsection \<open>What the end of a session means\<close>

definition accepted :: "smtp_server \<Rightarrow> smtp_cmd \<Rightarrow> smtp_cmd list \<Rightarrow> bool" where
  "accepted srv c tr \<longleftrightarrow> (\<exists>p q. tr = p @ c # q \<and> srv p c = None)"

lemma accepted_app: "accepted srv c tr \<Longrightarrow> accepted srv c (tr @ cs)"
  unfolding accepted_def by (metis append.assoc append_Cons)

lemma accepted_snoc: "srv tr c = None \<Longrightarrow> accepted srv c (tr @ [c])"
  unfolding accepted_def by blast

lemma rcpts_accepted:
  assumes "session_rule (\<lambda>tr. \<forall>r \<in> A \<union> set rs. accepted srv (Rcpt r) tr) k Q"
    "\<And>tr r e. Q (tr @ [Rcpt r], Some (GoErr (SMTPError ''set recipient'') [e]))"
  shows "session_rule (\<lambda>tr. \<forall>r \<in> A. accepted srv (Rcpt r) tr) (rcpt_loop srv rs k) Q"
  using assms(1)
proof (induction rs arbitrary: A)
  case Nil
  then show ?case by simp
next
  case (Cons r rs)
  have "session_rule (\<lambda>tr. \<forall>x \<in> insert r A. accepted srv (Rcpt x) tr) (rcpt_loop srv rs k) Q"
    using Cons.IH [of "insert r A"] Cons.prems by simp
  then have "session_rule (\<lambda>tr. \<forall>x \<in> A. accepted srv (Rcpt x) tr)
    (smtp_do srv ''set recipient'' (Rcpt r) (rcpt_loop srv rs k)) Q"
    by (rule session_do) (auto simp: accepted_app accepted_snoc assms(2))
  then show ?case by simp
qed

definition delivered :: "smtp_server \<Rightarrow> string list \<Rightarrow> string \<Rightarrow> smtp_cmd list \<Rightarrow> bool" where
  \<comment> \<open>the server took every recipient, then the whole message and its end\<close>
  "delivered srv rs msg tr \<longleftrightarrow>
     (\<exists>p. tr = p @ [WriteBody msg, CloseBody, Quit] \<and> (\<forall>r \<in> set rs. accepted srv (Rcpt r) p) \<and>
       srv p (WriteBody msg) = None \<and> srv (p @ [WriteBody msg]) CloseBody = None)"

definition session_outcome :: "smtp_server \<Rightarrow> string list \<Rightarrow> string \<Rightarrow> session \<Rightarrow> bool" where
  "session_outcome srv rs msg s \<longleftrightarrow>
     (case snd s of None \<Rightarrow> delivered srv rs msg (fst s)
      | Some e \<Rightarrow> \<exists>operation e'. e = GoErr (SMTPError operation) [e'])"

lemma send_mail_outcome:
  "session_rule (\<lambda>_. True) (send_mail srv m a rs msg) (session_outcome srv rs msg)"
proof -
  let ?Q = "session_outcome srv rs msg" and ?J = "\<lambda>tr. \<forall>r \<in> {} \<union> set rs. accepted srv (Rcpt r) tr"
  have sd: "session_rule ?J (send_data srv msg) ?Q"
    by (rule session_send_data)
      (auto simp: accepted_app session_outcome_def delivered_def intro!: exI [of _ "_ :: smtp_cmd list"])
  have rc: "session_rule (\<lambda>tr. \<forall>r \<in> {}. accepted srv (Rcpt r) tr) (rcpt_loop srv rs (send_data srv msg)) ?Q"
    by (rule rcpts_accepted [OF sd]) (simp add: session_outcome_def)
  have env: "session_rule (\<lambda>_. True) (smtp_do srv ''set sender'' (MailFrom a) (rcpt_loop srv rs (send_data srv msg))) ?Q"
    by (rule session_do [OF rc]) (simp_all add: session_outcome_def)
  have "session_rule (\<lambda>_. True) (smtp_do srv ''authenticate'' c
      (smtp_do srv ''set sender'' (MailFrom a) (rcpt_loop srv rs (send_data srv msg)))) ?Q" for c
    by (rule session_do [OF env]) (simp_all add: session_outcome_def)
  then show ?thesis using env by (simp add: send_mail_def Let_def)
qed

lemma SMTPMailer_Send_outcome:
  "rs \<noteq> [] \<Longrightarrow> session_outcome srv rs msg (SMTPMailer_Send srv None m a rs msg)"
  by (rule SMTPMailer_Send_setup [OF send_mail_outcome, of "\<lambda>_. True"])
    (simp_all add: session_outcome_def)

section \<open>The message\<close>

lemma parseSingleAddress_Inr: "parseSingleAddress M v = Inr a \<Longrightarrow> ParseAddress M (TrimSpace v) = Some a"
  by (auto simp: parseSingleAddress_def Let_def split: if_splits option.splits)

lemma containsNewline_app [simp]: "containsNewline (a @ b) \<longleftrightarrow> containsNewline a \<or> containsNewline b"
  by (auto simp: containsNewline_def ContainsAny_def)

lemma containsNewline_Cons: "containsNewline (c # s) \<longleftrightarrow> c \<in> {CHR 0x0D, CHR 0x0A} \<or> containsNewline s"
  by (auto simp: containsNewline_def ContainsAny_def)

lemma containsNewline_Nil [simp]: "\<not> containsNewline []"
  by (simp add: containsNewline_def ContainsAny_def)

text \<open>
  What the text formats promise: a printed address, an encoded word and a date are one line when
  what they print is (\<open>net/mail\<close> encodes or quotes the name; an address that parsed has none).
\<close>

definition mail_lines :: "mail_lib \<Rightarrow> bool" where
  "mail_lines M \<longleftrightarrow>
     (\<forall>v a. ParseAddress M v = Some a \<and> \<not> containsNewline v \<longrightarrow>
        (\<forall>n. \<not> containsNewline n \<longrightarrow> \<not> containsNewline (Address_String M (a\<lparr>Name := n\<rparr>))) \<and>
        \<not> containsNewline (Name a)) \<and>
     (\<forall>s. \<not> containsNewline s \<longrightarrow> \<not> containsNewline (QEncode M s)) \<and>
     (\<forall>t. \<not> containsNewline (RFC1123Z M t))"

end
