(* ===== verification/Auth.thy ===== *)
theory Auth
  imports HttpApi
begin

text \<open>
  \<open>internal/auth\<close>: access tokens (\<open>jwt.go\<close>) and the middleware that turns a bearer token
  into the user of a request (\<open>middleware.go\<close>). The JWT library is the record
  \<open>jwt_lib\<close>: signing a token and parsing one under options; what the library documents about
  the two is the predicate \<open>jwt_laws\<close>. Keys are byte strings and times nanoseconds.
\<close>

section \<open>The JWT library\<close>

record jwt_header =
  jh_alg :: string
  jh_typ :: string
  jh_kid :: string

record jwt_claims =
  jc_issuer :: string
  jc_subject :: string
  jc_audience :: "string list"
  jc_id :: string
  jc_issuedAt :: "instant option"
  jc_notBefore :: "instant option"
  jc_expiresAt :: "instant option"

record jwt_options =
  jo_methods :: "string list"
  jo_issuer :: string
  jo_audience :: string
  jo_exp_required :: bool
  jo_nbf_required :: bool
  jo_issued_at :: bool

record jwt_lib =
  jwt_sign :: "string \<Rightarrow> jwt_header \<Rightarrow> jwt_claims \<Rightarrow> goerr + string"
  jwt_signed :: "string \<Rightarrow> string \<Rightarrow> (jwt_header \<times> jwt_claims) option"
    \<comment> \<open>the contents of a token whose signature the public key verifies\<close>
  jwt_header_of :: "string \<Rightarrow> jwt_header option"
  jwt_parse :: "jwt_options \<Rightarrow> instant \<Rightarrow> (jwt_header \<Rightarrow> string option) \<Rightarrow> string \<Rightarrow> jwt_claims option"
    \<comment> \<open>\<open>jwt.ParseWithClaims\<close>: options, clock, key function, token\<close>
  public_of :: "string \<Rightarrow> string"

text \<open>Which claims the options accept, at a time.\<close>

definition claims_valid :: "jwt_options \<Rightarrow> instant \<Rightarrow> jwt_claims \<Rightarrow> bool" where
  "claims_valid opts now c \<longleftrightarrow>
     jc_issuer c = jo_issuer opts \<and> jo_audience opts \<in> set (jc_audience c) \<and>
     (case jc_expiresAt c of None \<Rightarrow> \<not> jo_exp_required opts | Some t \<Rightarrow> now < t) \<and>
     (case jc_notBefore c of None \<Rightarrow> \<not> jo_nbf_required opts | Some t \<Rightarrow> t \<le> now) \<and>
     (jo_issued_at opts \<longrightarrow> (case jc_issuedAt c of None \<Rightarrow> True | Some t \<Rightarrow> t \<le> now))"

definition jwt_laws :: "jwt_lib \<Rightarrow> bool" where
  "jwt_laws J \<longleftrightarrow>
     (\<forall>opts now kf v c. jwt_parse J opts now kf v = Some c \<longleftrightarrow>
        (\<exists>h key. jwt_header_of J v = Some h \<and> kf h = Some key \<and> jwt_signed J key v = Some (h, c) \<and>
           jh_alg h \<in> set (jo_methods opts) \<and> claims_valid opts now c)) \<and>
     (\<forall>key h c v. jwt_sign J key h c = Inr v \<longrightarrow>
        jwt_header_of J v = Some h \<and> jwt_signed J (public_of J key) v = Some (h, c))"

section \<open>Issuing and verifying\<close>

definition AudienceAPI :: string where "AudienceAPI = ''feedflow-api''"
definition AudienceNotifications :: string where "AudienceNotifications = ''feedflow-notifications''"
definition MaxAccessTokenTTL :: duration where "MaxAccessTokenTTL = int64 Hour"
definition accessTokenType :: string where "accessTokenType = ''at+jwt''"
definition EdDSA :: string where "EdDSA = ''EdDSA''"

record access_token =
  AccessToken :: string
  TokenType :: string
  ExpiresIn :: int

record issuer =
  is_key :: string
  is_keyID :: string
  is_issuer :: string
  is_audiences :: "string list"
  is_ttl :: duration

record verifier =
  vf_key :: string
  vf_keyID :: string
  vf_issuer :: string
  vf_audience :: string

definition valid_ttl :: "duration \<Rightarrow> bool" where
  "valid_ttl ttl \<longleftrightarrow> \<not> (sint ttl < Second \<or> sint MaxAccessTokenTTL < sint ttl \<or> sint ttl mod Second \<noteq> 0)"

definition NewIssuer :: "string \<Rightarrow> string \<Rightarrow> string \<Rightarrow> string list \<Rightarrow> duration \<Rightarrow> goerr + issuer" where
  "NewIssuer key keyID iss audiences ttl =
     (if length key \<noteq> 64 \<or> TrimSpace keyID = '''' \<or> TrimSpace iss = '''' then
        Inl (plain_err ''JWT issuer requires an Ed25519 private key, key ID and issuer'')
      else if \<not> valid_ttl ttl then
        Inl (plain_err ''JWT TTL must be whole seconds between 1s and 1h'')
      else if audiences = [] then Inl (plain_err ''JWT issuer requires audiences'')
      else if list_ex (\<lambda>a. TrimSpace a = '''') audiences then
        Inl (plain_err ''JWT audience must not be empty'')
      else Inr \<lparr>is_key = key, is_keyID = keyID, is_issuer = iss, is_audiences = audiences, is_ttl = ttl\<rparr>)"

definition NewVerifier :: "string \<Rightarrow> string \<Rightarrow> string \<Rightarrow> string \<Rightarrow> goerr + verifier" where
  "NewVerifier key keyID iss audience =
     (if length key \<noteq> 32 \<or> TrimSpace keyID = '''' \<or> TrimSpace iss = '''' \<or> TrimSpace audience = '''' then
        Inl (plain_err ''JWT verifier requires an Ed25519 public key, key ID, issuer and audience'')
      else Inr \<lparr>vf_key = key, vf_keyID = keyID, vf_issuer = iss, vf_audience = audience\<rparr>)"

definition Truncate :: "instant \<Rightarrow> int \<Rightarrow> instant" where
  \<comment> \<open>\<open>Time.Truncate\<close> for a duration that divides a minute\<close>
  "Truncate t d = t - t mod d"

definition Issue ::
  "jwt_lib \<Rightarrow> lib \<Rightarrow> issuer \<Rightarrow> goerr + uuid \<Rightarrow> instant \<Rightarrow> uuid \<Rightarrow> goerr + access_token" where
  \<comment> \<open>the outcome of \<open>uuid.NewRandom\<close> and the clock are arguments\<close>
  "Issue J L i new_id clock userID =
     (if userID = nil_uuid then Inl (plain_err ''JWT subject must be a non-zero user UUID'')
      else
        (case new_id of
           Inl e \<Rightarrow> Inl (wrap_err ''generate JWT ID'' e)
         | Inr tid \<Rightarrow>
             let now = Truncate clock Second;
                 claims = \<lparr>jc_issuer = is_issuer i, jc_subject = uuid_text L userID,
                   jc_audience = is_audiences i, jc_id = uuid_text L tid,
                   jc_issuedAt = Some now, jc_notBefore = Some now,
                   jc_expiresAt = Some (now + sint (is_ttl i))\<rparr>;
                 hdr = \<lparr>jh_alg = EdDSA, jh_typ = accessTokenType, jh_kid = is_keyID i\<rparr>
             in (case jwt_sign J (is_key i) hdr claims of
                   Inl e \<Rightarrow> Inl (wrap_err ''sign access token'' e)
                 | Inr v \<Rightarrow> Inr \<lparr>AccessToken = v, TokenType = ''Bearer'',
                     ExpiresIn = sint (dur_div (is_ttl i) Second)\<rparr>)))"

definition verify_options :: "verifier \<Rightarrow> jwt_options" where
  "verify_options v =
     \<lparr>jo_methods = [EdDSA], jo_issuer = vf_issuer v, jo_audience = vf_audience v,
      jo_exp_required = True, jo_nbf_required = True, jo_issued_at = True\<rparr>"

definition key_function :: "verifier \<Rightarrow> jwt_header \<Rightarrow> string option" where
  "key_function v h =
     (if jh_kid h \<noteq> vf_keyID v \<or> jh_typ h \<noteq> accessTokenType then None else Some (vf_key v))"

definition invalid_token :: goerr where
  "invalid_token = sentinel_err ErrInvalidToken"

definition Verify :: "jwt_lib \<Rightarrow> lib \<Rightarrow> verifier \<Rightarrow> instant \<Rightarrow> string \<Rightarrow> goerr + uuid" where
  "Verify J L v now tok =
     (if length tok = 0 \<or> 8192 < length tok then Inl invalid_token
      else
        (case jwt_parse J (verify_options v) now (key_function v) tok of
           None \<Rightarrow> Inl invalid_token
         | Some c \<Rightarrow>
             (case (jc_issuedAt c, jc_expiresAt c, jc_notBefore c) of
                (Some iat, Some expiry, Some nbf) \<Rightarrow>
                  let lifetime = expiry - iat in
                  if lifetime \<le> 0 \<or> sint MaxAccessTokenTTL < lifetime \<or> expiry < nbf then Inl invalid_token
                  else
                    (case uuid_parse L (jc_subject c) of
                       None \<Rightarrow> Inl invalid_token
                     | Some userID \<Rightarrow>
                         if userID = nil_uuid then Inl invalid_token
                         else
                           (case uuid_parse L (jc_id c) of
                              None \<Rightarrow> Inl invalid_token
                            | Some tid \<Rightarrow> if tid = nil_uuid then Inl invalid_token else Inr userID))
              | _ \<Rightarrow> Inl invalid_token)))"

section \<open>The middleware\<close>

definition UserIDFromContext :: "request \<Rightarrow> uuid option" where
  \<comment> \<open>\<open>None\<close> is \<open>false\<close>\<close>
  "UserIDFromContext r =
     (case rq_user r of None \<Rightarrow> None | Some u \<Rightarrow> if u = nil_uuid then None else Some u)"

definition AuthorizationCredential :: "request \<Rightarrow> string \<Rightarrow> string option" where
  "AuthorizationCredential r scheme =
     (case rq_authorization r of
        [v] \<Rightarrow>
          (case Fields v of
             [given, credential] \<Rightarrow>
               if \<not> EqualFold given scheme \<or> 8192 < length credential then None else Some credential
           | _ \<Rightarrow> None)
      | _ \<Rightarrow> None)"

type_synonym 's handler = "request \<Rightarrow> writer \<Rightarrow> 's \<Rightarrow> writer \<times> 's"

definition bearer :: string where "bearer = ''Bearer realm=\"feedflow\"''"

definition invalid_bearer :: string where
  "invalid_bearer = ''Bearer realm=\"feedflow\", error=\"invalid_token\"''"

definition Middleware :: "lib \<Rightarrow> (string \<Rightarrow> goerr + uuid) option \<Rightarrow> 's handler \<Rightarrow> 's handler" where
  "Middleware L vrf inner r w s =
     (case AuthorizationCredential r ''Bearer'' of
        None \<Rightarrow>
          (WriteError L 401 ''unauthorized'' ''Bearer access token is required''
             (Header_Set ''WWW-Authenticate'' bearer w), s)
      | Some credential \<Rightarrow>
          (case vrf of
             None \<Rightarrow>
               (WriteError L 503 ''authentication_unavailable'' ''authentication unavailable'' w, s)
           | Some verify \<Rightarrow>
               (case verify credential of
                  Inr userID \<Rightarrow>
                    if userID = nil_uuid then
                      (WriteError L 401 ''invalid_token'' ''invalid access token''
                         (Header_Set ''WWW-Authenticate'' invalid_bearer w), s)
                    else inner (r\<lparr>rq_user := Some userID\<rparr>) w s
                | Inl _ \<Rightarrow>
                    (WriteError L 401 ''invalid_token'' ''invalid access token''
                       (Header_Set ''WWW-Authenticate'' invalid_bearer w), s))))"

section \<open>Routes\<close>

text \<open>
  Routes are the patterns of \<open>http.ServeMux\<close> with one wildcard segment; paths are taken as
  cleaned already.
\<close>

datatype segment = Lit string | Wild

fun matches :: "segment list \<Rightarrow> string list \<Rightarrow> string option" where
  \<comment> \<open>the value of the wildcard, empty without one\<close>
  "matches [] [] = Some ''''"
| "matches (Lit l # ps) (x # xs) = (if l = x then matches ps xs else None)"
| "matches (Wild # ps) (x # xs) = (if x = '''' then None else map_option (\<lambda>_. x) (matches ps xs))"
| "matches _ _ = None"

type_synonym 's route = "string \<times> segment list \<times> 's handler"

definition path_segments :: "string \<Rightarrow> string list" where
  "path_segments path = tl (Split CHR ''/'' path)"

definition method_ok :: "string \<Rightarrow> string \<Rightarrow> bool" where
  "method_ok pattern_method m \<longleftrightarrow> pattern_method = m \<or> pattern_method = ''GET'' \<and> m = ''HEAD''"

definition serve_mux :: "'s route list \<Rightarrow> 's handler" where
  "serve_mux routes r w s =
     (let segs = path_segments (rq_path r);
          here = filter (\<lambda>(m, p, h). matches p segs \<noteq> None) routes
      in case filter (\<lambda>(m, p, h). method_ok m (rq_method r)) here of
           (m, p, h) # _ \<Rightarrow> h (r\<lparr>rq_path_value := the (matches p segs)\<rparr>) w s
         | [] \<Rightarrow>
             if here \<noteq> [] then (Write (''Method Not Allowed'' @ [CHR 0x0A]) (WriteHeader 405 w), s)
             else (Write (''404 page not found'' @ [CHR 0x0A]) (WriteHeader 404 w), s))"

lemma serve_mux_cases:
  obtains (none) "snd (serve_mux routes r w s) = s"
      "w_status w = None \<Longrightarrow> w_status (fst (serve_mux routes r w s)) \<in> {Some 404, Some 405}"
  | (route) m p h v where "(m, p, h) \<in> set routes" "serve_mux routes r w s = h (r\<lparr>rq_path_value := v\<rparr>) w s"
      "method_ok m (rq_method r)" "matches p (path_segments (rq_path r)) = Some v"
proof -
  let ?segs = "path_segments (rq_path r)"
  let ?l = "filter (\<lambda>(m, p, h). method_ok m (rq_method r)) (filter (\<lambda>(m, p, h). matches p ?segs \<noteq> None) routes)"
  show thesis
  proof (cases ?l)
    case Nil
    then show thesis by (intro none) (simp_all add: serve_mux_def Let_def)
  next
    case (Cons x xs)
    then have "x \<in> set ?l" by simp
    moreover obtain m p h where x: "x = (m, p, h)" by (cases x)
    ultimately have "(m, p, h) \<in> set routes" "matches p ?segs \<noteq> None" "method_ok m (rq_method r)" by auto
    then show thesis using Cons x
      by (intro route [of m p h "the (matches p ?segs)"]) (simp_all add: serve_mux_def Let_def)
  qed
qed

section \<open>Keys from files\<close>

datatype parsed_key = Ed25519Key string | OtherKey

record key_lib =
  ReadFile :: "string \<Rightarrow> goerr + string"
  pem_decode :: "string \<Rightarrow> (string \<times> string) option \<times> string"
    \<comment> \<open>type and bytes of the first PEM block, and what follows it\<close>
  ParsePKCS8PrivateKey :: "string \<Rightarrow> goerr + parsed_key"
  ParsePKIXPublicKey :: "string \<Rightarrow> goerr + parsed_key"

definition load_key ::
  "key_lib \<Rightarrow> string \<Rightarrow> (string \<Rightarrow> goerr + parsed_key) \<Rightarrow> string \<Rightarrow> goerr + string" where
  \<comment> \<open>the text the two functions share: the block type and the parser differ\<close>
  "load_key K block_type parse path =
     (case ReadFile K path of
        Inl e \<Rightarrow> Inl (wrap_err ''read JWT key'' e)
      | Inr contents \<Rightarrow>
          (case pem_decode K contents of
             (None, rest) \<Rightarrow> Inl (plain_err ''JWT key must be a single PEM block'')
           | (Some (type, bytes), rest) \<Rightarrow>
               if type \<noteq> block_type \<or> TrimSpace rest \<noteq> '''' then
                 Inl (plain_err ''JWT key must be a single PEM block'')
               else
                 (case parse bytes of
                    Inl e \<Rightarrow> Inl (wrap_err ''parse JWT key'' e)
                  | Inr OtherKey \<Rightarrow> Inl (plain_err ''JWT key must use Ed25519'')
                  | Inr (Ed25519Key key) \<Rightarrow> Inr key)))"

definition LoadPrivateKey :: "key_lib \<Rightarrow> string \<Rightarrow> goerr + string" where
  "LoadPrivateKey K path = load_key K ''PRIVATE KEY'' (ParsePKCS8PrivateKey K) path"

definition LoadPublicKey :: "key_lib \<Rightarrow> string \<Rightarrow> goerr + string" where
  "LoadPublicKey K path = load_key K ''PUBLIC KEY'' (ParsePKIXPublicKey K) path"

section \<open>Facts\<close>

lemma valid_ttl_bounds: "valid_ttl t \<longleftrightarrow> Second \<le> sint t \<and> sint t \<le> Hour \<and> sint t mod Second = 0"
proof -
  have "sint MaxAccessTokenTTL = Hour"
    by (simp add: MaxAccessTokenTTL_def sint_int64 in_int64_def time_unit_defs)
  then show ?thesis by (auto simp: valid_ttl_def)
qed

lemma NewIssuer_Inr:
  "NewIssuer key keyID iss audiences ttl = Inr i \<Longrightarrow>
   i = \<lparr>is_key = key, is_keyID = keyID, is_issuer = iss, is_audiences = audiences, is_ttl = ttl\<rparr> \<and>
   valid_ttl ttl \<and> audiences \<noteq> [] \<and> TrimSpace keyID \<noteq> '''' \<and> TrimSpace iss \<noteq> ''''"
  by (auto simp: NewIssuer_def split: if_splits)

lemma MaxAccessTokenTTL_Hour: "sint MaxAccessTokenTTL = Hour"
  by (simp add: MaxAccessTokenTTL_def sint_int64 in_int64_def time_unit_defs)

lemma jwt_parse_iff:
  assumes "jwt_laws J"
  shows "jwt_parse J opts now kf v = Some c \<longleftrightarrow>
    (\<exists>h key. jwt_header_of J v = Some h \<and> kf h = Some key \<and> jwt_signed J key v = Some (h, c) \<and>
       jh_alg h \<in> set (jo_methods opts) \<and> claims_valid opts now c)"
  using assms unfolding jwt_laws_def by blast

lemma Verify_Inr:
  "Verify J L v now tok = Inr u \<longleftrightarrow>
     tok \<noteq> '''' \<and> length tok \<le> 8192 \<and>
     (\<exists>c iat expiry nbf tid. jwt_parse J (verify_options v) now (key_function v) tok = Some c \<and>
        jc_issuedAt c = Some iat \<and> jc_expiresAt c = Some expiry \<and> jc_notBefore c = Some nbf \<and>
        iat < expiry \<and> expiry - iat \<le> Hour \<and> nbf \<le> expiry \<and>
        uuid_parse L (jc_subject c) = Some u \<and> u \<noteq> nil_uuid \<and>
        uuid_parse L (jc_id c) = Some tid \<and> tid \<noteq> nil_uuid)"
  by (auto simp: Verify_def Let_def MaxAccessTokenTTL_Hour not_le not_less
      split: option.splits if_splits)

lemma Middleware_cases:
  obtains (refused) st where "st \<in> {401, 503}" 
      "snd (Middleware L vrf inner r w s) = s"
      "w_status w = None \<longrightarrow> w_status (fst (Middleware L vrf inner r w s)) = Some st"
  | (verified) verify credential u where "vrf = Some verify" "verify credential = Inr u" "u \<noteq> nil_uuid"
      "AuthorizationCredential r ''Bearer'' = Some credential"
      "Middleware L vrf inner r w s = inner (r\<lparr>rq_user := Some u\<rparr>) w s"
proof (cases "AuthorizationCredential r ''Bearer''")
  case None
  then show thesis
    by (intro refused [of 401]) (auto simp: Middleware_def)
next
  case credential: (Some credential)
  show thesis
  proof (cases vrf)
    case None
    then show thesis using credential
      by (intro refused [of 503]) (auto simp: Middleware_def)
  next
    case (Some verify)
    show thesis
    proof (cases "\<exists>u. verify credential = Inr u \<and> u \<noteq> nil_uuid")
      case True
      then show thesis using credential Some
        by (auto simp: Middleware_def intro!: verified)
    next
      case False
      then show thesis using credential Some
        by (intro refused [of 401]) (auto simp: Middleware_def split: sum.splits)
    qed
  qed
qed

end
