(* ===== verification/Config.thy ===== *)
theory Config
  imports Auth
begin

text \<open>
  \<open>internal/config\<close>: the settings of the services, read from the environment.
  \<open>Getenv\<close> is empty for an unset variable; loading the \<open>.env\<close> file (a third-party package)
  is its error, if any, and the environment is the one after it. \<open>net.SplitHostPort\<close> and
  \<open>time.ParseDuration\<close> are arguments. The messages of the errors name the setting.
\<close>

record environment =
  Getenv :: "string \<Rightarrow> string"
  dotenv_error :: "(goerr \<times> bool) option"    \<comment> \<open>the error, and whether the file does not exist\<close>
  ParseDuration :: "string \<Rightarrow> duration option"
  SplitHostPort :: "string \<Rightarrow> (string \<times> string) option"

definition trimmed :: "environment \<Rightarrow> string \<Rightarrow> string" where
  "trimmed E name = TrimSpace (Getenv E name)"

definition or_default :: "string \<Rightarrow> string \<Rightarrow> string" where
  "or_default v d = (if v = '''' then d else v)"

definition load_env :: "environment \<Rightarrow> goerr option" where
  \<comment> \<open>a missing file is no error\<close>
  "load_env E =
     (case dotenv_error E of
        None \<Rightarrow> None
      | Some (e, missing) \<Rightarrow> if missing then None else Some (wrap_err ''load .env'' e))"

definition config_error :: "string \<Rightarrow> goerr" where "config_error name = plain_err name"

definition readInt32 :: "environment \<Rightarrow> string \<Rightarrow> int \<Rightarrow> goerr + int" where
  "readInt32 E name dflt =
     (let value = trimmed E name in
      if value = '''' then Inr dflt
      else (case ParseInt 32 value of None \<Rightarrow> Inl (config_error name) | Some n \<Rightarrow> Inr n))"

definition readDuration :: "environment \<Rightarrow> string \<Rightarrow> duration \<Rightarrow> goerr + duration" where
  "readDuration E name dflt =
     (let value = trimmed E name in
      if value = '''' then Inr dflt
      else (case ParseDuration E value of None \<Rightarrow> Inl (config_error name) | Some d \<Rightarrow> Inr d))"

section \<open>The monolith\<close>

record config =
  DBUrl :: string
  DBMaxConns :: int
  DBMinConns :: int
  DBMaxConnLifetime :: duration
  DBMaxConnIdleTime :: duration
  RedisAddr :: string
  HTTPAddr :: string

definition ReadConfig :: "environment \<Rightarrow> goerr + config" where
  "ReadConfig E =
     (let g = Getenv E;
          dbUrl = ''postgres://'' @ g ''DB_USER'' @ '':'' @ g ''DB_PASSWORD'' @ ''@'' @ g ''DB_HOST'' @ '':'' @
            g ''DB_PORT'' @ ''/'' @ g ''DB_NAME'' @ ''?sslmode=disable'';
          redisAddr = g ''REDIS_HOST'' @ '':'' @ g ''REDIS_PORT'';
          httpAddr = or_default (trimmed E ''API_HTTP_ADDR'') ''127.0.0.1:8082''
      in
      case load_env E of
        Some e \<Rightarrow> Inl e
      | None \<Rightarrow>
      if SplitHostPort E httpAddr = None then Inl (config_error ''API_HTTP_ADDR'') else
      case readInt32 E ''DB_MAX_CONNS'' 10 of
        Inl e \<Rightarrow> Inl e
      | Inr maxConns \<Rightarrow>
      case readInt32 E ''DB_MIN_CONNS'' 2 of
        Inl e \<Rightarrow> Inl e
      | Inr minConns \<Rightarrow>
      case readDuration E ''DB_MAX_CONN_LIFETIME'' (int64 Hour) of
        Inl e \<Rightarrow> Inl e
      | Inr lifetime \<Rightarrow>
      case readDuration E ''DB_MAX_CONN_IDLE_TIME'' (int64 (30 * Minute)) of
        Inl e \<Rightarrow> Inl e
      | Inr idle \<Rightarrow>
          if maxConns \<le> 0 then Inl (config_error ''DB_MAX_CONNS'')
          else if minConns < 0 then Inl (config_error ''DB_MIN_CONNS'')
          else if maxConns < minConns then Inl (config_error ''DB_MIN_CONNS'')
          else if sint lifetime \<le> 0 then Inl (config_error ''DB_MAX_CONN_LIFETIME'')
          else if sint idle \<le> 0 then Inl (config_error ''DB_MAX_CONN_IDLE_TIME'')
          else Inr \<lparr>DBUrl = dbUrl, DBMaxConns = maxConns, DBMinConns = minConns,
            DBMaxConnLifetime = lifetime, DBMaxConnIdleTime = idle, RedisAddr = redisAddr,
            HTTPAddr = httpAddr\<rparr>)"

section \<open>Tokens\<close>

record jwt_config =
  PrivateKeyPath :: string
  PublicKeyPath :: string
  KeyID :: string
  Issuer :: string
  AccessTokenTTL :: duration

definition ReadJWTConfig :: "environment \<Rightarrow> goerr + jwt_config" where
  "ReadJWTConfig E =
     (let priv = trimmed E ''JWT_PRIVATE_KEY_PATH''; pub = trimmed E ''JWT_PUBLIC_KEY_PATH'';
          keyID = trimmed E ''JWT_KEY_ID''; iss = trimmed E ''JWT_ISSUER''
      in if priv = '''' \<or> pub = '''' then Inl (config_error ''JWT_PRIVATE_KEY_PATH'')
      else if keyID = '''' then Inl (config_error ''JWT_KEY_ID'')
      else if iss = '''' then Inl (config_error ''JWT_ISSUER'')
      else
        (case readDuration E ''JWT_ACCESS_TOKEN_TTL'' (int64 (15 * Minute)) of
           Inl e \<Rightarrow> Inl e
         | Inr ttl \<Rightarrow>
             if \<not> valid_ttl ttl then Inl (config_error ''JWT_ACCESS_TOKEN_TTL'')
             else Inr \<lparr>PrivateKeyPath = priv, PublicKeyPath = pub, KeyID = keyID, Issuer = iss,
               AccessTokenTTL = ttl\<rparr>))"

section \<open>The notification API\<close>

record notification_config =
  nc_DatabaseURL :: string
  nc_HTTPAddr :: string
  nc_PublicKeyPath :: string
  nc_KeyID :: string
  nc_Issuer :: string

definition ReadNotificationAPIConfig :: "environment \<Rightarrow> goerr + notification_config" where
  "ReadNotificationAPIConfig E =
     (let url = trimmed E ''NOTIFICATION_DATABASE_URL'';
          addr = or_default (trimmed E ''NOTIFICATION_HTTP_ADDR'') ''127.0.0.1:8081'';
          pub = trimmed E ''JWT_PUBLIC_KEY_PATH''; keyID = trimmed E ''JWT_KEY_ID'';
          iss = trimmed E ''JWT_ISSUER''
      in
      case load_env E of
        Some e \<Rightarrow> Inl e
      | None \<Rightarrow>
          if url = '''' then Inl (config_error ''NOTIFICATION_DATABASE_URL'')
          else if SplitHostPort E addr = None then Inl (config_error ''NOTIFICATION_HTTP_ADDR'')
          else if pub = '''' then Inl (config_error ''JWT_PUBLIC_KEY_PATH'')
          else if keyID = '''' then Inl (config_error ''JWT_KEY_ID'')
          else if iss = '''' then Inl (config_error ''JWT_ISSUER'')
          else Inr \<lparr>nc_DatabaseURL = url, nc_HTTPAddr = addr, nc_PublicKeyPath = pub, nc_KeyID = keyID,
            nc_Issuer = iss\<rparr>)"

section \<open>The gateway\<close>

record gateway_config =
  gw_Addr :: string
  gw_APIURL :: string
  gw_NotificationURL :: string
  gw_TLSCertPath :: string
  gw_TLSKeyPath :: string

definition http_origin :: "lib \<Rightarrow> string \<Rightarrow> bool" where
  "http_origin L value =
     (case url_parse L value of
        None \<Rightarrow> False
      | Some u \<Rightarrow> Scheme u = ''http'' \<and> Hostname u \<noteq> '''' \<and> Port u \<noteq> '''' \<and> \<not> HasUser u \<and> Path u = '''' \<and>
          RawQuery u = '''' \<and> Fragment u = '''' \<and> Opaque u = '''')"

definition ReadGatewayConfig :: "lib \<Rightarrow> environment \<Rightarrow> goerr + gateway_config" where
  "ReadGatewayConfig L E =
     (let addr = or_default (trimmed E ''GATEWAY_ADDR'') ''127.0.0.1:8080'';
          api = or_default (trimmed E ''GATEWAY_API_URL'') ''http://127.0.0.1:8082'';
          notif = or_default (trimmed E ''GATEWAY_NOTIFICATION_URL'') ''http://127.0.0.1:8081'';
          cert = trimmed E ''GATEWAY_TLS_CERT_PATH''; key = trimmed E ''GATEWAY_TLS_KEY_PATH''
      in
      case load_env E of
        Some e \<Rightarrow> Inl e
      | None \<Rightarrow>
          if SplitHostPort E addr = None then Inl (config_error ''GATEWAY_ADDR'')
          else if \<not> http_origin L api then Inl (config_error ''GATEWAY_API_URL'')
          else if \<not> http_origin L notif then Inl (config_error ''GATEWAY_NOTIFICATION_URL'')
          else if (cert = '''') \<noteq> (key = '''') then Inl (config_error ''GATEWAY_TLS_CERT_PATH'')
          else Inr \<lparr>gw_Addr = addr, gw_APIURL = api, gw_NotificationURL = notif, gw_TLSCertPath = cert,
            gw_TLSKeyPath = key\<rparr>)"

section \<open>What a configuration guarantees\<close>

lemma ReadConfig_bounds:
  assumes "ReadConfig E = Inr c"
  shows "0 \<le> DBMinConns c \<and> DBMinConns c \<le> DBMaxConns c \<and> 0 < DBMaxConns c \<and>
    0 < sint (DBMaxConnLifetime c) \<and> 0 < sint (DBMaxConnIdleTime c) \<and> SplitHostPort E (HTTPAddr c) \<noteq> None"
  using assms by (auto simp: ReadConfig_def Let_def split: option.splits sum.splits if_splits)


end
