(* ===== verification/Services.thy ===== *)
theory Services
  imports Telegram Email Config Kafka Relay PipelineWorker
begin

text \<open>
  What the programs under \<open>cmd/\<close> decide from their settings: the senders of the notifier, the
  database of the outbox relay, and the keys, issuer and verifiers of the two APIs. How they open,
  run and close what they use is in \<open>Programs\<close>.
\<close>

section \<open>The notifier\<close>

definition readIntEnv :: "environment \<Rightarrow> string \<Rightarrow> int \<Rightarrow> goerr + int" where
  "readIntEnv E name defaultValue =
     (let value = TrimSpace (Getenv E name) in
      if value = '''' then Inr defaultValue
      else (case Atoi value of None \<Rightarrow> Inl (config_error name) | Some parsed \<Rightarrow> Inr parsed))"

definition readDurationEnv :: "environment \<Rightarrow> string \<Rightarrow> duration \<Rightarrow> goerr + duration" where
  "readDurationEnv E name defaultValue =
     (let value = TrimSpace (Getenv E name) in
      if value = '''' then Inr defaultValue
      else (case ParseDuration E value of None \<Rightarrow> Inl (config_error name) | Some parsed \<Rightarrow> Inr parsed))"

definition newEmailSender ::
  "mail_lib \<Rightarrow> smtp_server \<Rightarrow> goerr option \<Rightarrow> environment \<Rightarrow> string \<Rightarrow> goerr + email_sender" where
  "newEmailSender M srv ctx_err E smtpHost =
     (case readIntEnv E ''SMTP_PORT'' 587 of
        Inl e \<Rightarrow> Inl e
      | Inr port \<Rightarrow>
      case readDurationEnv E ''SMTP_TIMEOUT'' (int64 (10 * Second)) of
        Inl e \<Rightarrow> Inl e
      | Inr timeout \<Rightarrow>
          (case NewEmail M srv ctx_err
                  \<lparr>cfg_Host = smtpHost, cfg_Port = port, cfg_Username = Getenv E ''SMTP_USERNAME'',
                   cfg_Password = Getenv E ''SMTP_PASSWORD'', cfg_FromAddress = Getenv E ''SMTP_FROM_ADDRESS'',
                   cfg_FromName = Getenv E ''SMTP_FROM_NAME'',
                   cfg_TLSMode = TrimSpace (Getenv E ''SMTP_TLS_MODE''), cfg_Timeout = timeout\<rparr> of
             Inl e \<Rightarrow> Inl (wrap_err ''create email sender'' e)
           | Inr s \<Rightarrow> Inr s))"

text \<open>The network of the two senders, the context of their calls and the clock are arguments.\<close>

record network =
  n_http :: http_client
  n_smtp :: smtp_server
  n_ctx_err :: "goerr option"
  n_clock :: instant

definition newSenderRegistry :: "lib \<Rightarrow> mail_lib \<Rightarrow> network \<Rightarrow> environment \<Rightarrow> goerr + registry" where
  "newSenderRegistry L M net E =
     (let telegramToken = TrimSpace (Getenv E ''TELEGRAM_BOT_TOKEN'');
          smtpHost = TrimSpace (Getenv E ''SMTP_HOST'')
      in
      case (if telegramToken = '''' then Inr []
            else (case NewTelegram (n_http net) telegramToken None of
                    Inl e \<Rightarrow> Inl (wrap_err ''create Telegram sender'' e)
                  | Inr s \<Rightarrow> Inr [(ChannelTelegram, Some (Telegram_Send L (Some s)))])) of
        Inl e \<Rightarrow> Inl e
      | Inr tg \<Rightarrow>
      case (if smtpHost = '''' then Inr []
            else (case newEmailSender M (n_smtp net) (n_ctx_err net) E smtpHost of
                    Inl e \<Rightarrow> Inl e
                  | Inr s \<Rightarrow> Inr [(ChannelEmail, Some (Email_Send M (Some s) (n_clock net)))])) of
        Inl e \<Rightarrow> Inl e
      | Inr em \<Rightarrow> NewRegistry (tg @ em))"

section \<open>The outbox relay\<close>

definition monolithDatabaseURL :: "(string \<Rightarrow> string \<Rightarrow> string \<Rightarrow> string \<Rightarrow> string) \<Rightarrow> environment \<Rightarrow> string" where
  \<comment> \<open>\<open>url\<close> prints the URL of user, password, host with port, and path\<close>
  "monolithDatabaseURL url E =
     (let user = Getenv E ''DB_USER''; password = Getenv E ''DB_PASSWORD''; host = Getenv E ''DB_HOST'';
          port = Getenv E ''DB_PORT''; name = Getenv E ''DB_NAME''
      in if user = '''' \<or> host = '''' \<or> port = '''' \<or> name = '''' then ''''
         else url user password (JoinHostPort host port) (''/'' @ name))"

definition relay_database :: "(string \<Rightarrow> string \<Rightarrow> string \<Rightarrow> string \<Rightarrow> string) \<Rightarrow> environment \<Rightarrow> goerr + string" where
  \<comment> \<open>the choice of the database at the start of \<open>run\<close>\<close>
  "relay_database url E =
     (let source = source_of (Getenv E ''RELAY_SOURCE'');
          url0 = Getenv E ''RELAY_DATABASE_URL'';
          url1 = (if url0 = '''' \<and> source = SourceDispatch then Getenv E ''NOTIFICATION_DATABASE_URL'' else url0);
          url2 = (if url1 = '''' \<and> source = SourceRequests then monolithDatabaseURL url E else url1)
      in if url2 = '''' then Inl (plain_err ''RELAY_DATABASE_URL is required'') else Inr url2)"

section \<open>Keys and tokens of the two APIs\<close>

definition api_tokens :: "jwt_lib \<Rightarrow> key_lib \<Rightarrow> environment \<Rightarrow> goerr + issuer \<times> verifier" where
  \<comment> \<open>\<open>run\<close> of the monolith, from its configuration to its issuer and verifier\<close>
  "api_tokens J K E =
     (case ReadConfig E of
        Inl e \<Rightarrow> Inl (wrap_err ''read config'' e)
      | Inr _ \<Rightarrow>
      case ReadJWTConfig E of
        Inl e \<Rightarrow> Inl (wrap_err ''read JWT config'' e)
      | Inr jwtCfg \<Rightarrow>
      case LoadPrivateKey K (PrivateKeyPath jwtCfg) of
        Inl e \<Rightarrow> Inl e
      | Inr privateKey \<Rightarrow>
      case LoadPublicKey K (PublicKeyPath jwtCfg) of
        Inl e \<Rightarrow> Inl e
      | Inr publicKey \<Rightarrow>
          if public_of J privateKey \<noteq> publicKey then
            Inl (plain_err ''JWT public key does not match private key'')
          else
            (case NewIssuer privateKey (KeyID jwtCfg) (Issuer jwtCfg)
                    [AudienceAPI, AudienceNotifications] (AccessTokenTTL jwtCfg) of
               Inl e \<Rightarrow> Inl e
             | Inr tokenIssuer \<Rightarrow>
                 (case NewVerifier publicKey (KeyID jwtCfg) (Issuer jwtCfg) AudienceAPI of
                    Inl e \<Rightarrow> Inl e
                  | Inr tokenVerifier \<Rightarrow> Inr (tokenIssuer, tokenVerifier))))"

definition notification_verifier :: "key_lib \<Rightarrow> environment \<Rightarrow> goerr + verifier" where
  \<comment> \<open>\<open>run\<close> of the notification API up to its verifier\<close>
  "notification_verifier K E =
     (case ReadNotificationAPIConfig E of
        Inl e \<Rightarrow> Inl (wrap_err ''read notification API config'' e)
      | Inr cfg \<Rightarrow>
      case LoadPublicKey K (nc_PublicKeyPath cfg) of
        Inl e \<Rightarrow> Inl e
      | Inr publicKey \<Rightarrow> NewVerifier publicKey (nc_KeyID cfg) (nc_Issuer cfg) AudienceNotifications)"

section \<open>Tokens travel between the APIs\<close>

lemma NewVerifier_Inr:
  "NewVerifier key keyID iss aud = Inr v \<Longrightarrow>
   v = \<lparr>vf_key = key, vf_keyID = keyID, vf_issuer = iss, vf_audience = aud\<rparr>"
  by (simp add: NewVerifier_def split: if_splits)

text \<open>An issuer and a verifier that belong together.\<close>

definition matching :: "jwt_lib \<Rightarrow> issuer \<Rightarrow> verifier \<Rightarrow> bool" where
  "matching J i v \<longleftrightarrow> vf_key v = public_of J (is_key i) \<and> vf_keyID v = is_keyID i \<and>
     vf_issuer v = is_issuer i \<and> vf_audience v \<in> set (is_audiences i) \<and> valid_ttl (is_ttl i)"

lemma api_tokens_matching:
  assumes "api_tokens J K E = Inr (i, v)"
  shows "matching J i v \<and> vf_audience v = AudienceAPI"
proof -
  obtain cfg :: jwt_config and priv pub where *: "NewIssuer priv (KeyID cfg) (Issuer cfg) [AudienceAPI, AudienceNotifications]
      (AccessTokenTTL cfg) = Inr i"
    "NewVerifier pub (KeyID cfg) (Issuer cfg) AudienceAPI = Inr v" "public_of J priv = pub"
    using assms by (auto simp: api_tokens_def split: sum.splits if_splits)
  show ?thesis
    using NewIssuer_Inr [OF *(1)] NewVerifier_Inr [OF *(2)] *(3) by (simp add: matching_def)
qed

lemma notification_verifier_matching:
  assumes "api_tokens J K E = Inr (i, v)" "notification_verifier K E = Inr v'"
  shows "matching J i v' \<and> vf_audience v' = AudienceNotifications"
proof -
  obtain cfg priv pub where *: "ReadJWTConfig E = Inr cfg" "LoadPublicKey K (PublicKeyPath cfg) = Inr pub"
    "NewIssuer priv (KeyID cfg) (Issuer cfg) [AudienceAPI, AudienceNotifications]
      (AccessTokenTTL cfg) = Inr i" "public_of J priv = pub"
    using assms(1) by (auto simp: api_tokens_def split: sum.splits if_splits)
  obtain cfg' pub' where n: "ReadNotificationAPIConfig E = Inr cfg'"
    "LoadPublicKey K (nc_PublicKeyPath cfg') = Inr pub'"
    "NewVerifier pub' (nc_KeyID cfg') (nc_Issuer cfg') AudienceNotifications = Inr v'"
    using assms(2) by (auto simp: notification_verifier_def split: sum.splits)
  have "nc_PublicKeyPath cfg' = PublicKeyPath cfg \<and> nc_KeyID cfg' = KeyID cfg \<and> nc_Issuer cfg' = Issuer cfg"
    using *(1) n(1)
    by (auto simp: ReadJWTConfig_def ReadNotificationAPIConfig_def Let_def
        split: sum.splits option.splits if_splits)
  then show ?thesis
    using NewIssuer_Inr [OF *(3)] NewVerifier_Inr [OF n(3)] *(2,4) n(2) by (simp add: matching_def)
qed

text \<open>
  What a matching verifier makes of a token: it accepts it from the second it was issued in until
  the second it expires, and gives back the user.
\<close>

lemma Issue_Inr:
  assumes "Issue J L i tid clock u = Inr t"
  obtains x where "tid = Inr x" "u \<noteq> nil_uuid"
    "jwt_sign J (is_key i) \<lparr>jh_alg = EdDSA, jh_typ = accessTokenType, jh_kid = is_keyID i\<rparr>
       \<lparr>jc_issuer = is_issuer i, jc_subject = uuid_text L u, jc_audience = is_audiences i,
        jc_id = uuid_text L x, jc_issuedAt = Some (Truncate clock Second),
        jc_notBefore = Some (Truncate clock Second),
        jc_expiresAt = Some (Truncate clock Second + sint (is_ttl i))\<rparr> = Inr (AccessToken t)"
    "ExpiresIn t = sint (dur_div (is_ttl i) Second)"
  using assms by (auto simp: Issue_def Let_def split: if_splits sum.splits)

lemma Verify_issued:
  assumes J: "jwt_laws J" and m: "matching J i v" and t: "Issue J L i (Inr x) clock u = Inr t"
    and uu: "\<And>y. uuid_parse L (uuid_text L y) = Some y" and x: "x \<noteq> nil_uuid"
    and len: "AccessToken t \<noteq> ''''" "length (AccessToken t) \<le> 8192"
  shows "Verify J L v now (AccessToken t) =
    (if Truncate clock Second \<le> now \<and> now < Truncate clock Second + sint (is_ttl i)
     then Inr u else Inl invalid_token)"
proof -
  let ?h = "\<lparr>jh_alg = EdDSA, jh_typ = accessTokenType, jh_kid = is_keyID i\<rparr>"
  let ?c = "\<lparr>jc_issuer = is_issuer i, jc_subject = uuid_text L u, jc_audience = is_audiences i,
        jc_id = uuid_text L x, jc_issuedAt = Some (Truncate clock Second),
        jc_notBefore = Some (Truncate clock Second),
        jc_expiresAt = Some (Truncate clock Second + sint (is_ttl i))\<rparr>"
  have s: "jwt_sign J (is_key i) ?h ?c = Inr (AccessToken t)" and u: "u \<noteq> nil_uuid"
    using Issue_Inr [OF t] by auto
  have signed: "jwt_header_of J (AccessToken t) = Some ?h"
    "jwt_signed J (public_of J (is_key i)) (AccessToken t) = Some (?h, ?c)"
    using J s unfolding jwt_laws_def by blast+
  let ?in = "Truncate clock Second \<le> now \<and> now < Truncate clock Second + sint (is_ttl i)"
  have ttl: "0 < sint (is_ttl i)" "sint (is_ttl i) \<le> Hour"
    using m by (auto simp: matching_def valid_ttl_bounds time_unit_defs)
  have p: "jwt_parse J (verify_options v) now (key_function v) (AccessToken t) = Some c \<longleftrightarrow> c = ?c \<and> ?in" for c
    using m signed unfolding jwt_parse_iff [OF J]
    by (auto simp: matching_def verify_options_def key_function_def claims_valid_def)
  show ?thesis
  proof (cases ?in)
    case True
    have "Verify J L v now (AccessToken t) = Inr u"
      unfolding Verify_Inr using len p True ttl uu u x by auto
    then show ?thesis using True by simp
  next
    case False
    then have "jwt_parse J (verify_options v) now (key_function v) (AccessToken t) = None"
      using p by (cases "jwt_parse J (verify_options v) now (key_function v) (AccessToken t)") auto
    then show ?thesis using False by (simp add: Verify_def)
  qed
qed

end
