(* ===== verification/ChannelApi.thy ===== *)
theory ChannelApi
  imports Auth Channels
begin

text \<open>
  \<open>internal/notification/httpapi/handler.go\<close>: the HTTP API over the notification channels,
  first over any channel repository (the interface of
  \<open>internal/notification/repository/channels.go\<close>, a record of functions on a state), then over
  the one in PostgreSQL (theory \<open>Channels\<close>).
\<close>

section \<open>The handler\<close>

record 's channel_repo =
  repo_create :: "channel \<Rightarrow> 's \<Rightarrow> (goerr + channel) \<times> 's"
  repo_list :: "uuid \<Rightarrow> 's \<Rightarrow> goerr + channel list"
  repo_enable :: "uuid \<Rightarrow> uuid \<Rightarrow> bool \<Rightarrow> 's \<Rightarrow> (goerr + channel) \<times> 's"
  repo_delete :: "uuid \<Rightarrow> uuid \<Rightarrow> 's \<Rightarrow> (goerr + unit) \<times> 's"

definition responseFor :: "lib \<Rightarrow> channel \<Rightarrow> json" where
  "responseFor L c =
     JObj [(''id'', JStr (uuid_text L (ch_id c))), (''type'', JStr (ch_type c)),
           (''destination'', JStr (ch_destination c)), (''enabled'', JBool (ch_enabled c))]"

text \<open>The three guards of the handlers: \<open>Inl\<close> is the response already written.\<close>

definition requestUserID :: "lib \<Rightarrow> request \<Rightarrow> writer \<Rightarrow> writer + uuid" where
  "requestUserID L r w =
     (case UserIDFromContext r of
        None \<Rightarrow> Inl (WriteError L 401 ''unauthorized'' ''Bearer access token is required''
                  (Header_Set ''WWW-Authenticate'' bearer w))
      | Some u \<Rightarrow> Inr u)"

definition requestChannelID :: "lib \<Rightarrow> request \<Rightarrow> writer \<Rightarrow> writer + uuid" where
  "requestChannelID L r w =
     (case uuid_parse L (rq_path_value r) of
        None \<Rightarrow> Inl (WriteError L 400 ''invalid_request'' ''invalid channel ID'' w)
      | Some i \<Rightarrow>
          if i = nil_uuid then Inl (WriteError L 400 ''invalid_request'' ''invalid channel ID'' w)
          else Inr i)"

definition storageReady :: "lib \<Rightarrow> 's channel_repo option \<Rightarrow> writer \<Rightarrow> writer + 's channel_repo" where
  "storageReady L repo w =
     (case repo of
        None \<Rightarrow> Inl (WriteError L 503 ''service_unavailable'' ''notification storage unavailable'' w)
      | Some rp \<Rightarrow> Inr rp)"

definition writeStorageError :: "lib \<Rightarrow> goerr \<Rightarrow> writer \<Rightarrow> writer" where
  "writeStorageError L err w =
     (if errors_is err ErrChannelNotFound then
        WriteError L 404 ''channel_not_found'' ''notification channel not found'' w
      else if errors_is err ErrChannelConflict then
        WriteError L 409 ''channel_conflict'' ''notification channel already exists'' w
      else if errors_is err ErrUnavailable then
        WriteError L 503 ''service_unavailable'' ''notification storage unavailable'' w
      else WriteError L 500 ''internal_error'' ''internal server error'' w)"

record post_channel =
  pc_type :: string
  pc_destination :: string

definition post_channel_fields :: "(string \<times> post_channel setter) list" where
  "post_channel_fields =
     [(''type'', string_field (\<lambda>x. pc_type_update (\<lambda>_. x))),
      (''destination'', string_field (\<lambda>x. pc_destination_update (\<lambda>_. x)))]"

definition PostChannel :: "lib \<Rightarrow> 's channel_repo option \<Rightarrow> uuid \<Rightarrow> 's handler" where
  \<comment> \<open>\<open>new_id\<close> is what the handler's id generator returns\<close>
  "PostChannel L repo new_id r w s =
     (case requestUserID L r w of
        Inl w' \<Rightarrow> (w', s)
      | Inr userID \<Rightarrow>
      case DecodeJSON L post_channel_fields \<lparr>pc_type = '''', pc_destination = ''''\<rparr> (rq_body r) of
        Inl e \<Rightarrow> (WriteDecodeError L e w, s)
      | Inr req \<Rightarrow>
          if pc_type req \<noteq> ChannelTelegram \<and> pc_type req \<noteq> ChannelEmail then
            (WriteError L 400 ''invalid_request'' ''unsupported notification channel type'' w, s)
          else
            let destination = TrimSpace (pc_destination req) in
            if destination = '''' \<or> 512 < length destination then
              (WriteError L 400 ''invalid_request'' ''destination must contain between 1 and 512 bytes'' w, s)
            else
              (case storageReady L repo w of
                 Inl w' \<Rightarrow> (w', s)
               | Inr rp \<Rightarrow>
                   (case repo_create rp \<lparr>ch_id = new_id, ch_user = userID, ch_type = pc_type req,
                           ch_destination = destination, ch_enabled = False\<rparr> s of
                      (Inl e, s') \<Rightarrow> (writeStorageError L e w, s')
                    | (Inr c, s') \<Rightarrow> (WriteJSON L 201 (Some (responseFor L c)) w, s'))))"

definition Handler_GetChannels :: "lib \<Rightarrow> 's channel_repo option \<Rightarrow> 's handler" where
  "Handler_GetChannels L repo r w s =
     (case requestUserID L r w of
        Inl w' \<Rightarrow> (w', s)
      | Inr userID \<Rightarrow>
      case storageReady L repo w of
        Inl w' \<Rightarrow> (w', s)
      | Inr rp \<Rightarrow>
          (case repo_list rp userID s of
             Inl e \<Rightarrow> (writeStorageError L e w, s)
           | Inr cs \<Rightarrow> (WriteJSON L 200 (Some (JArr (map (responseFor L) cs))) w, s)))"

definition patch_fields :: "(string \<times> bool option setter) list" where
  "patch_fields = [(''enabled'', bool_ptr_field (\<lambda>b _. b))]"

definition PatchChannel :: "lib \<Rightarrow> 's channel_repo option \<Rightarrow> 's handler" where
  "PatchChannel L repo r w s =
     (case requestUserID L r w of
        Inl w' \<Rightarrow> (w', s)
      | Inr userID \<Rightarrow>
      case requestChannelID L r w of
        Inl w' \<Rightarrow> (w', s)
      | Inr channelID \<Rightarrow>
      case DecodeJSON L patch_fields None (rq_body r) of
        Inl e \<Rightarrow> (WriteDecodeError L e w, s)
      | Inr None \<Rightarrow> (WriteError L 400 ''invalid_request'' ''enabled field is required'' w, s)
      | Inr (Some enabled) \<Rightarrow>
          (case storageReady L repo w of
             Inl w' \<Rightarrow> (w', s)
           | Inr rp \<Rightarrow>
               (case repo_enable rp userID channelID enabled s of
                  (Inl e, s') \<Rightarrow> (writeStorageError L e w, s')
                | (Inr c, s') \<Rightarrow> (WriteJSON L 200 (Some (responseFor L c)) w, s'))))"

definition Handler_DeleteChannel :: "lib \<Rightarrow> 's channel_repo option \<Rightarrow> 's handler" where
  "Handler_DeleteChannel L repo r w s =
     (case requestUserID L r w of
        Inl w' \<Rightarrow> (w', s)
      | Inr userID \<Rightarrow>
      case requestChannelID L r w of
        Inl w' \<Rightarrow> (w', s)
      | Inr channelID \<Rightarrow>
      case storageReady L repo w of
        Inl w' \<Rightarrow> (w', s)
      | Inr rp \<Rightarrow>
          (case repo_delete rp userID channelID s of
             (Inl e, s') \<Rightarrow> (writeStorageError L e w, s')
           | (Inr _, s') \<Rightarrow> (WriteHeader 204 w, s')))"

definition RegisterRoutes ::
  "lib \<Rightarrow> 's channel_repo option \<Rightarrow> uuid \<Rightarrow> (string \<Rightarrow> goerr + uuid) option \<Rightarrow> 's route list" where
  "RegisterRoutes L repo new_id vrf =
     (let protected = Middleware L vrf;
          collection = [Lit ''v1'', Lit ''notification-channel''];
          item = collection @ [Wild]
      in [(''POST'', collection, protected (PostChannel L repo new_id)),
          (''GET'', collection, protected (Handler_GetChannels L repo)),
          (''PATCH'', item, protected (PatchChannel L repo)),
          (''DELETE'', item, protected (Handler_DeleteChannel L repo))])"

definition Router :: "lib \<Rightarrow> 's channel_repo option \<Rightarrow> uuid \<Rightarrow> (string \<Rightarrow> goerr + uuid) option \<Rightarrow> 's handler" where
  "Router L repo new_id vrf = serve_mux (RegisterRoutes L repo new_id vrf)"

section \<open>A repository that keeps users apart\<close>

text \<open>
  The contract between the API and its storage: what the methods do for a user does not show to
  another, and an error that is the client's fault has no effect.
\<close>

definition client_error :: "goerr \<Rightarrow> bool" where
  "client_error e \<longleftrightarrow> errors_is e ErrChannelNotFound \<or> errors_is e ErrChannelConflict"

locale channel_storage =
  fixes rp :: "'s channel_repo" and view :: "uuid \<Rightarrow> 's \<Rightarrow> 'v"
  assumes create_other: "u \<noteq> ch_user c \<Longrightarrow> view u (snd (repo_create rp c s)) = view u s"
    and enable_other: "u \<noteq> v \<Longrightarrow> view u (snd (repo_enable rp v i b s)) = view u s"
    and delete_other: "u \<noteq> v \<Longrightarrow> view u (snd (repo_delete rp v i s)) = view u s"
    and list_view: "view u s = view u s' \<Longrightarrow> repo_list rp u s = repo_list rp u s'"
begin

lemma PostChannel_other:
  assumes "UserIDFromContext r \<noteq> Some u"
  shows "view u (snd (PostChannel L (Some rp) new_id r w s)) = view u s"
  using assms create_other
  by (auto simp: PostChannel_def requestUserID_def storageReady_def Let_def
      split: sum.split option.split prod.split) (metis channel.select_convs(2) snd_conv)+

lemma PatchChannel_other:
  assumes "UserIDFromContext r \<noteq> Some u"
  shows "view u (snd (PatchChannel L (Some rp) r w s)) = view u s"
  using assms enable_other
  by (auto simp: PatchChannel_def requestUserID_def requestChannelID_def storageReady_def
      split: sum.split option.split prod.split) (metis snd_conv)+

lemma DeleteChannel_other:
  assumes "UserIDFromContext r \<noteq> Some u"
  shows "view u (snd (Handler_DeleteChannel L (Some rp) r w s)) = view u s"
  using assms delete_other
  by (auto simp: Handler_DeleteChannel_def requestUserID_def requestChannelID_def storageReady_def
      split: sum.split option.split prod.split) (metis snd_conv)+

lemma GetChannels_other: "view u (snd (Handler_GetChannels L (Some rp) r w s)) = view u s"
  by (auto simp: Handler_GetChannels_def requestUserID_def storageReady_def split: sum.split option.split)

lemma GetChannels_same:
  assumes "UserIDFromContext r = Some u" "view u s = view u s'"
  shows "fst (Handler_GetChannels L (Some rp) r w s) = fst (Handler_GetChannels L (Some rp) r w s')"
  using assms list_view [OF assms(2)]
  by (auto simp: Handler_GetChannels_def requestUserID_def storageReady_def split: sum.split)

end

section \<open>The repository in PostgreSQL\<close>

text \<open>The outcomes of the round trips of a call and the database clock are fixed for a request.\<close>

definition pg_repo :: "(nat \<Rightarrow> outcome) \<Rightarrow> instant \<Rightarrow> ndb channel_repo" where
  "pg_repo oc now =
     \<lparr>repo_create = CreateChannel (oc 0) now, repo_list = GetChannels oc,
      repo_enable = SetChannelEnabled oc now, repo_delete = DeleteChannel oc now\<rparr>"

definition user_view :: "uuid \<Rightarrow> ndb \<Rightarrow> channel_row list \<times> delivery_row list" where
  "user_view u s = (filter (\<lambda>c. ch_user c = u) (channels s), filter (\<lambda>d. d_user d = u) (deliveries s))"

lemma filter_upd_other: "(\<And>x. P x \<Longrightarrow> \<not> Q x \<and> \<not> Q (f x)) \<Longrightarrow> filter Q (upd P f xs) = filter Q xs"
  by (induction xs) (auto simp: upd_def)

lemma filter_del_other: "(\<And>x. P x \<Longrightarrow> \<not> Q x) \<Longrightarrow> filter Q (del P xs) = filter Q xs"
  by (induction xs) (auto simp: del_def)

lemma user_view_cancel: "u \<noteq> v \<Longrightarrow> user_view u (cancel_stmt now v i s) = user_view u s"
  by (auto simp: user_view_def cancel_stmt_def waiting_on_def cancel_row_def intro!: filter_upd_other)

lemma user_view_channels:
  "filter (\<lambda>c. ch_user c = u) cs = filter (\<lambda>c. ch_user c = u) (channels s) \<Longrightarrow>
   user_view u (s\<lparr>channels := cs\<rparr>) = user_view u s"
  by (simp add: user_view_def)

lemma user_view_create:
  assumes "u \<noteq> ch_user c"
  shows "user_view u (snd (CreateChannel oc now c s)) = user_view u s"
proof -
  obtain r s' where res: "CreateChannel oc now c s = (r, s')" by fastforce
  have "user_view u s' = user_view u s" if "insert_channel now c s = Inr (created, s')" for created
  proof -
    from insert_channel_Inr [OF that] obtain row where row: "s' = s\<lparr>channels := channels s @ [row]\<rparr>"
      "created = channel.truncate row" "created = c\<lparr>ch_enabled := True\<rparr>" by blast
    have "ch_user created = ch_user row" using row(2) by (simp add: channel.truncate_def)
    then have "ch_user row = ch_user c" using row(3) by simp
    then show ?thesis using assms by (simp add: row(1) user_view_def)
  qed
  then show ?thesis using CreateChannel_state [OF res] res by auto
qed

lemma user_view_enable:
  assumes "u \<noteq> v"
  shows "user_view u (snd (SetChannelEnabled oc now v i b s)) = user_view u s"
proof -
  obtain r s' where res: "SetChannelEnabled oc now v i b s = (r, s')" by fastforce
  have "user_view u s1 = user_view u s" if "enable_stmt now v i b s = Inr (x, s1)" for x s1
  proof -
    have "s1 = s\<lparr>channels := upd (channel_row_of v i) (\<lambda>c. c\<lparr>ch_enabled := b, ch_updated := now\<rparr>) (channels s)\<rparr>"
      using enable_stmt_Inr [OF that] by blast
    then show ?thesis using assms
      by (auto intro!: user_view_channels filter_upd_other simp: channel_row_of_def)
  qed
  then show ?thesis
    using SetChannelEnabled_state [OF res] res user_view_cancel [OF assms] by (auto split: if_splits)
qed

lemma user_view_delete:
  assumes "u \<noteq> v"
  shows "user_view u (snd (DeleteChannel oc now v i s)) = user_view u s"
proof -
  obtain r s' where res: "DeleteChannel oc now v i s = (r, s')" by fastforce
  have "user_view u (snd (delete_stmt v i s1)) = user_view u s1" for s1
    using assms
    by (auto simp: delete_stmt_def channel_row_of_def intro!: user_view_channels filter_del_other)
  then show ?thesis
    using DeleteChannel_state [OF res] res user_view_cancel [OF assms] by auto
qed

lemma GetChannels_view:
  "user_view u s = user_view u s' \<Longrightarrow> GetChannels oc u s = GetChannels oc u s'"
  by (simp add: GetChannels_def user_view_def)

interpretation pgc: channel_storage "pg_repo oc now" user_view
proof
  fix u and c :: channel and s assume "u \<noteq> ch_user c"
  then show "user_view u (snd (repo_create (pg_repo oc now) c s)) = user_view u s"
    by (simp add: pg_repo_def user_view_create)
next
  fix u v :: uuid and i b s assume "u \<noteq> v"
  then show "user_view u (snd (repo_enable (pg_repo oc now) v i b s)) = user_view u s"
    by (simp add: pg_repo_def user_view_enable)
next
  fix u v :: uuid and i s assume "u \<noteq> v"
  then show "user_view u (snd (repo_delete (pg_repo oc now) v i s)) = user_view u s"
    by (simp add: pg_repo_def user_view_delete)
next
  fix u s s' assume "user_view u s = user_view u s'"
  then have "GetChannels oc u s = GetChannels oc u s'" by (rule GetChannels_view)
  then show "repo_list (pg_repo oc now) u s = repo_list (pg_repo oc now) u s'"
    by (simp only: pg_repo_def channel_repo.simps)
qed

section \<open>Through the router\<close>

lemma UserIDFromContext_set: "u \<noteq> nil_uuid \<Longrightarrow> UserIDFromContext (r\<lparr>rq_user := Some u\<rparr>) = Some u"
  by (simp add: UserIDFromContext_def)

lemma AuthorizationCredential_path [simp]:
  "AuthorizationCredential (r\<lparr>rq_path_value := v\<rparr>) scheme = AuthorizationCredential r scheme"
  by (simp add: AuthorizationCredential_def)

lemma protected_other:
  assumes inner: "\<And>r. UserIDFromContext r \<noteq> Some u \<Longrightarrow> user_view u (snd (inner r w s)) = user_view u s"
    and change: "user_view u (snd (Middleware L vrf inner r w s)) \<noteq> user_view u s"
  shows "\<exists>verify credential. vrf = Some verify \<and> AuthorizationCredential r ''Bearer'' = Some credential \<and>
    verify credential = Inr u"
proof (cases rule: Middleware_cases [of L vrf inner r w s])
  case (refused st)
  then show ?thesis using change by simp
next
  case (verified verify credential v)
  have "UserIDFromContext (r\<lparr>rq_user := Some v\<rparr>) = Some u"
    using inner [of "r\<lparr>rq_user := Some v\<rparr>"] change verified(5) by auto
  then show ?thesis using verified by (simp add: UserIDFromContext_set)
qed

lemma RegisterRoutes_handlers:
  assumes "(m, p, h) \<in> set (RegisterRoutes L (Some (pg_repo oc now)) new_id vrf)"
  obtains inner where "h = Middleware L vrf inner"
    "\<And>u r. UserIDFromContext r \<noteq> Some u \<Longrightarrow> user_view u (snd (inner r w s)) = user_view u s"
proof -
  let ?rp = "Some (pg_repo oc now)"
  have "h \<in> Middleware L vrf ` {PostChannel L ?rp new_id, Handler_GetChannels L ?rp, PatchChannel L ?rp,
    Handler_DeleteChannel L ?rp}"
    using assms by (auto simp: RegisterRoutes_def Let_def)
  then show thesis
    using that pgc.PostChannel_other pgc.GetChannels_other pgc.PatchChannel_other pgc.DeleteChannel_other
    by auto
qed

lemma Router_other:
  assumes "user_view u (snd (Router L (Some (pg_repo oc now)) new_id vrf r w s)) \<noteq> user_view u s"
  shows "\<exists>verify credential. vrf = Some verify \<and> AuthorizationCredential r ''Bearer'' = Some credential \<and>
    verify credential = Inr u"
  using assms unfolding Router_def
proof (cases rule: serve_mux_cases [of "RegisterRoutes L (Some (pg_repo oc now)) new_id vrf" r w s])
  case none
  then show ?thesis using assms by (simp add: Router_def)
next
  case (route m p h v)
  from RegisterRoutes_handlers [OF route(1)] obtain inner where inner: "h = Middleware L vrf inner"
    "\<And>u r. UserIDFromContext r \<noteq> Some u \<Longrightarrow> user_view u (snd (inner r w s)) = user_view u s" by metis
  have "user_view u (snd (Middleware L vrf inner (r\<lparr>rq_path_value := v\<rparr>) w s)) \<noteq> user_view u s"
    using assms route(2) inner(1) by (simp add: Router_def)
  from protected_other [where inner = inner and w = w and s = s and u = u and L = L, OF inner(2) this]
  show ?thesis by simp
qed

section \<open>What a successful call answers\<close>

lemma PostChannel_201:
  assumes res: "PostChannel L (Some rp) new_id r w s = (w1, s1)"
    and w: "w_status w = None" "w_status w1 = Some 201"
  obtains u req c where "UserIDFromContext r = Some u"
    "DecodeJSON L post_channel_fields \<lparr>pc_type = '''', pc_destination = ''''\<rparr> (rq_body r) = Inr req"
    "pc_type req \<in> {ChannelTelegram, ChannelEmail}"
    "TrimSpace (pc_destination req) \<noteq> ''''" "length (TrimSpace (pc_destination req)) \<le> 512"
    "repo_create rp \<lparr>ch_id = new_id, ch_user = u, ch_type = pc_type req,
       ch_destination = TrimSpace (pc_destination req), ch_enabled = False\<rparr> s = (Inr c, s1)"
    "w1 = WriteJSON L 201 (Some (responseFor L c)) w"
  using res w that
  by (auto simp: PostChannel_def requestUserID_def storageReady_def Let_def writeStorageError_def
      WriteDecodeError_def not_less split: sum.splits option.splits prod.splits if_splits)

end
