(* ===== verification/Gateway.thy ===== *)
theory Gateway
  imports ChannelApi Config
begin

text \<open>
  \<open>internal/gateway/router.go\<close>: which service a request goes to, and what of it. The reverse
  proxy itself is part of the standard library; what it sends upstream is the answer of the
  function \<open>upstream\<close>, an error when the upstream cannot be reached.
\<close>

datatype target = ApiUpstream | NotificationUpstream

record out_request =
  out_target :: goUrl
  out_path :: string
  out_header :: "(string \<times> string list) list"

definition strip_user_headers :: "(string \<times> string list) list \<Rightarrow> (string \<times> string list) list" where
  \<comment> \<open>the loop of \<open>Rewrite\<close> over the header\<close>
  "strip_user_headers hs = filter (\<lambda>(h, vs). \<not> HasPrefix (ToLower h) ''x-user-'') hs"

definition proxy_path :: "goUrl \<Rightarrow> string \<Rightarrow> string" where
  \<comment> \<open>\<open>SetURL\<close>: the path of the target (empty for an origin) before the path of the request\<close>
  "proxy_path u path = (if HasPrefix path ''/'' then Path u @ path else Path u @ ''/'' @ path)"

text \<open>\<open>forwarded\<close> is what \<open>SetXForwarded\<close> makes of the header.\<close>

definition Rewrite :: "((string \<times> string list) list \<Rightarrow> (string \<times> string list) list) \<Rightarrow> goUrl \<Rightarrow> string \<Rightarrow>
    (string \<times> string list) list \<Rightarrow> out_request" where
  "Rewrite forwarded u path hs =
     \<lparr>out_target = u, out_path = proxy_path u path, out_header = strip_user_headers (forwarded hs)\<rparr>"

definition newProxy ::
  "lib \<Rightarrow> ((string \<times> string list) list \<Rightarrow> (string \<times> string list) list) \<Rightarrow> goUrl \<Rightarrow>
   (out_request \<Rightarrow> goerr + writer) \<Rightarrow> string \<Rightarrow> (string \<times> string list) list \<Rightarrow> writer" where
  "newProxy L forwarded u upstream path hs =
     (case upstream (Rewrite forwarded u path hs) of
        Inl e \<Rightarrow> WriteError L 502 ''bad_gateway'' ''upstream unavailable'' new_writer
      | Inr w \<Rightarrow> w)"

definition route_target :: "string \<Rightarrow> string \<Rightarrow> target option" where
  \<comment> \<open>\<open>None\<close> is the health check, which the gateway answers itself\<close>
  "route_target m path =
     (if path = ''/healthz'' \<and> m = ''GET'' then None
      else if path = ''/v1/notification-channel'' \<or> HasPrefix path ''/v1/notification-channel/''
      then Some NotificationUpstream
      else Some ApiUpstream)"

definition Gateway_Handler ::
  "lib \<Rightarrow> ((string \<times> string list) list \<Rightarrow> (string \<times> string list) list) \<Rightarrow> (target \<Rightarrow> goUrl) \<Rightarrow>
   (target \<Rightarrow> out_request \<Rightarrow> goerr + writer) \<Rightarrow> string \<Rightarrow> string \<Rightarrow> (string \<times> string list) list \<Rightarrow> writer" where
  "Gateway_Handler L forwarded urls upstream m path hs =
     (case route_target m path of
        None \<Rightarrow> WriteHeader 204 new_writer
      | Some t \<Rightarrow> newProxy L forwarded (urls t) (upstream t) path hs)"

section \<open>Facts\<close>

lemma strip_user_headers_none:
  "(h, vs) \<in> set (strip_user_headers hs) \<Longrightarrow> \<not> HasPrefix (ToLower h) ''x-user-''"
  by (auto simp: strip_user_headers_def)

lemma strip_user_headers_rest:
  "\<not> HasPrefix (ToLower h) ''x-user-'' \<Longrightarrow> (h, vs) \<in> set hs \<longleftrightarrow> (h, vs) \<in> set (strip_user_headers hs)"
  by (auto simp: strip_user_headers_def)

text \<open>A path splits into its segments and back.\<close>

lemma Join_Split: "Join (Split c s) [c] = s"
proof (induction s)
  case (Cons x s)
  obtain y ys where y: "Split c s = y # ys" by (cases "Split c s") auto
  then show ?case using Cons by (cases ys) auto
qed simp

lemma matches_length: "matches p segs = Some v \<Longrightarrow> length p = length segs"
  by (induction p segs arbitrary: v rule: matches.induct) (auto split: if_splits)

lemma path_of_segments:
  assumes "hd (Split CHR ''/'' path) = ''''" "path_segments path = segs" "segs \<noteq> []"
  shows "path = ''/'' @ Join segs ''/''"
proof -
  obtain y ys where y: "Split CHR ''/'' path = y # ys" by (cases "Split CHR ''/'' path") auto
  then have "path = Join ('''' # segs) [CHR ''/'']"
    using assms Join_Split [of "CHR ''/''" path] by (simp add: path_segments_def)
  then show ?thesis using assms(3) by (cases segs) auto
qed

lemma notification_paths:
  assumes h: "hd (Split CHR ''/'' path) = ''''"
    and m: "(m, p, hd') \<in> set (RegisterRoutes L rp i vrf)" "matches p (path_segments path) \<noteq> None"
  shows "route_target mm path = Some NotificationUpstream"
proof -
  let ?c = "[Lit ''v1'', Lit ''notification-channel'']"
  have "p = ?c \<or> p = ?c @ [Wild]" using m(1) by (auto simp: RegisterRoutes_def Let_def)
  moreover obtain v where v: "matches p (path_segments path) = Some v" using m(2) by blast
  ultimately have "path_segments path = [''v1'', ''notification-channel''] \<or>
      (\<exists>x. path_segments path = [''v1'', ''notification-channel'', x])"
    using v by (cases "path_segments path"; cases "tl (path_segments path)"; cases "tl (tl (path_segments path))")
      (auto split: if_splits dest: matches_length)
  then show ?thesis
    using path_of_segments [OF h]
    by (auto simp: route_target_def HasPrefix_def)
qed

end
