(* ===== verification/Cache.thy ===== *)
theory Cache
  imports Storage HttpApi
begin

text \<open>
  The JSON of \<open>internal/model/model.go\<close> and \<open>internal/cache/redis.go\<close>: the Redis cache
  of the monolith's API. Redis is a map from keys to strings; that a key expires is a step of
  whoever uses the cache. A \<open>time.Time\<close> marshals when its year has four digits. The rows of
  posts the API reads leave the two dates \<open>created_at\<close> and \<open>updated_at\<close> zero.
\<close>

section \<open>JSON of the model\<close>

definition json_time :: "lib \<Rightarrow> instant \<Rightarrow> json option" where
  \<comment> \<open>\<open>Time.MarshalJSON\<close>: from year 0 up to year 9999\<close>
  "json_time L t =
     (if - 62167219200 * Second \<le> t \<and> t < 253402300800 * Second then Some (JStr (time_text L t)) else None)"

fun json_members :: "(string \<times> json option) list \<Rightarrow> (string \<times> json) list option" where
  "json_members [] = Some []"
| "json_members ((k, v) # ms) =
     (case (v, json_members ms) of (Some x, Some xs) \<Rightarrow> Some ((k, x) # xs) | _ \<Rightarrow> None)"

definition json_object :: "(string \<times> json option) list \<Rightarrow> json option" where
  "json_object ms = map_option JObj (json_members ms)"

fun json_all :: "json option list \<Rightarrow> json list option" where
  "json_all [] = Some []"
| "json_all (v # vs) = (case (v, json_all vs) of (Some x, Some xs) \<Rightarrow> Some (x # xs) | _ \<Rightarrow> None)"

definition json_array :: "json option list \<Rightarrow> json option" where
  "json_array vs = map_option JArr (json_all vs)"

definition user_json :: "lib \<Rightarrow> user \<Rightarrow> json option" where
  "user_json L u =
     json_object
       [(''id'', Some (JStr (uuid_text L (u_id u)))),
        (''created_at'', json_time L (of_micros (u_created u))),
        (''updated_at'', json_time L (of_micros (u_updated u))),
        (''name'', Some (JStr (u_name u))),
        (''api_key'', Some (JStr (u_api_key u)))]"

definition feed_json :: "lib \<Rightarrow> feed \<Rightarrow> json option" where
  "feed_json L f =
     json_object
       [(''id'', Some (JStr (uuid_text L (f_id f)))),
        (''created_at'', json_time L (of_micros (f_created f))),
        (''updated_at'', json_time L (of_micros (f_updated f))),
        (''name'', Some (JStr (f_name f))),
        (''url'', Some (JStr (f_url f))),
        (''last_fetched_at'', json_object
          [(''Time'', json_time L (case f_fetched f of None \<Rightarrow> zero_time | Some t \<Rightarrow> of_micros t)),
           (''Valid'', Some (JBool (f_fetched f \<noteq> None)))])]"

definition post_json :: "lib \<Rightarrow> post \<Rightarrow> json option" where
  "post_json L p =
     json_object
       [(''id'', Some (JStr (uuid_text L (p_id p)))),
        (''created_at'', json_time L zero_time),
        (''updated_at'', json_time L zero_time),
        (''title'', Some (JStr (p_title p))),
        (''description'', Some (JObj
          [(''String'', JStr (case p_description p of None \<Rightarrow> '''' | Some d \<Rightarrow> d)),
           (''Valid'', JBool (p_description p \<noteq> None))])),
        (''published_at'', json_time L (p_published p)),
        (''url'', Some (JStr (p_url p))),
        (''feed_id'', Some (JStr (uuid_text L (p_feed p))))]"

section \<open>Decoding\<close>

definition bool_member :: "(bool \<Rightarrow> 's \<Rightarrow> 's) \<Rightarrow> 's setter" where
  "bool_member put v s = (case v of JBool b \<Rightarrow> Some (put b s) | JNull \<Rightarrow> Some s | _ \<Rightarrow> None)"

definition null_fields :: "(('v \<Rightarrow> 'v \<times> bool \<Rightarrow> 'v \<times> bool) \<Rightarrow> ('v \<times> bool) setter) \<Rightarrow> string \<Rightarrow>
    (string \<times> ('v \<times> bool) setter) list" where
  \<comment> \<open>\<open>sql.NullTime\<close> and \<open>sql.NullString\<close> are structs: a value and \<open>Valid\<close>\<close>
  "null_fields field name =
     [(name, field (\<lambda>x (_, b). (x, b))), (''Valid'', bool_member (\<lambda>b (x, _). (x, b)))]"

definition null_field ::
  "(string \<times> ('v \<times> bool) setter) list \<Rightarrow> 'v \<Rightarrow> ('s \<Rightarrow> 'v option) \<Rightarrow> ('v option \<Rightarrow> 's \<Rightarrow> 's) \<Rightarrow> 's setter" where
  "null_field flds zero get put v s =
     (case decode_struct flds False v (case get s of None \<Rightarrow> (zero, False) | Some x \<Rightarrow> (x, True)) of
        None \<Rightarrow> None
      | Some (x, valid) \<Rightarrow> Some (put (if valid then Some x else None) s))"

definition user_fields :: "lib \<Rightarrow> (string \<times> user setter) list" where
  "user_fields L =
     [(''id'', uuid_field L (\<lambda>x. u_id_update (\<lambda>_. x))),
      (''created_at'', time_field L (\<lambda>x. u_created_update (\<lambda>_. to_micros x))),
      (''updated_at'', time_field L (\<lambda>x. u_updated_update (\<lambda>_. to_micros x))),
      (''name'', string_field (\<lambda>x. u_name_update (\<lambda>_. x))),
      (''api_key'', string_field (\<lambda>x. u_api_key_update (\<lambda>_. x)))]"

definition feed_fields :: "lib \<Rightarrow> (string \<times> feed setter) list" where
  "feed_fields L =
     [(''id'', uuid_field L (\<lambda>x. f_id_update (\<lambda>_. x))),
      (''created_at'', time_field L (\<lambda>x. f_created_update (\<lambda>_. to_micros x))),
      (''updated_at'', time_field L (\<lambda>x. f_updated_update (\<lambda>_. to_micros x))),
      (''name'', string_field (\<lambda>x. f_name_update (\<lambda>_. x))),
      (''url'', string_field (\<lambda>x. f_url_update (\<lambda>_. x))),
      (''last_fetched_at'',
        null_field (null_fields (time_field L) ''Time'') zero_time
          (\<lambda>f. map_option of_micros (f_fetched f)) (\<lambda>x. f_fetched_update (\<lambda>_. map_option to_micros x)))]"

definition post_fields :: "lib \<Rightarrow> (string \<times> post setter) list" where
  "post_fields L =
     [(''id'', uuid_field L (\<lambda>x. p_id_update (\<lambda>_. x))),
      (''created_at'', time_field L (\<lambda>_ p. p)),
      (''updated_at'', time_field L (\<lambda>_ p. p)),
      (''title'', string_field (\<lambda>x. p_title_update (\<lambda>_. x))),
      (''description'',
        null_field (null_fields string_field ''String'') '''' p_description
          (\<lambda>x. p_description_update (\<lambda>_. x))),
      (''published_at'', time_field L (\<lambda>x. p_published_update (\<lambda>_. x))),
      (''url'', string_field (\<lambda>x. p_url_update (\<lambda>_. x))),
      (''feed_id'', uuid_field L (\<lambda>x. p_feed_update (\<lambda>_. x)))]"

definition zero_user :: user where
  "zero_user = \<lparr>u_id = nil_uuid, u_created = to_micros zero_time, u_updated = to_micros zero_time,
     u_name = '''', u_api_key = ''''\<rparr>"

definition zero_feed :: feed where
  "zero_feed = \<lparr>f_id = nil_uuid, f_created = to_micros zero_time, f_updated = to_micros zero_time,
     f_name = '''', f_url = '''', f_fetched = None\<rparr>"

definition zero_post :: post where
  "zero_post = \<lparr>p_id = nil_uuid, p_title = '''', p_description = None, p_published = zero_time,
     p_url = '''', p_feed = nil_uuid\<rparr>"

fun decode_all :: "(json \<Rightarrow> 'a option) \<Rightarrow> json list \<Rightarrow> 'a list option" where
  "decode_all f [] = Some []"
| "decode_all f (v # vs) = (case (f v, decode_all f vs) of (Some x, Some xs) \<Rightarrow> Some (x # xs) | _ \<Rightarrow> None)"

definition decode_slice :: "(json \<Rightarrow> 'a option) \<Rightarrow> json \<Rightarrow> 'a list option" where
  \<comment> \<open>into a nil slice\<close>
  "decode_slice f v = (case v of JArr vs \<Rightarrow> decode_all f vs | JNull \<Rightarrow> Some [] | _ \<Rightarrow> None)"

section \<open>Redis\<close>

type_synonym redis = "string \<rightharpoonup> string"

definition redis_set :: "outcome \<Rightarrow> string \<Rightarrow> string \<Rightarrow> redis \<Rightarrow> goerr option \<times> redis" where
  "redis_set oc key val st =
     (case oc of Applied \<Rightarrow> (None, st(key \<mapsto> val)) | Refused e \<Rightarrow> (Some e, st)
      | Lost e \<Rightarrow> (Some e, st(key \<mapsto> val)))"

definition redis_get :: "outcome \<Rightarrow> string \<Rightarrow> redis \<Rightarrow> goerr + string" where
  "redis_get oc key st =
     call oc (case st key of None \<Rightarrow> Inl (sentinel_err RedisNil) | Some v \<Rightarrow> Inr v)"

definition json_error :: goerr where "json_error = plain_err ''json''"

definition cache_set :: "lib \<Rightarrow> outcome \<Rightarrow> string \<Rightarrow> json option \<Rightarrow> redis \<Rightarrow> goerr option \<times> redis" where
  "cache_set L oc key v st =
     (case v of None \<Rightarrow> (Some json_error, st) | Some x \<Rightarrow> redis_set oc key (json_text L x) st)"

definition cache_get :: "lib \<Rightarrow> outcome \<Rightarrow> string \<Rightarrow> (json \<Rightarrow> 'a option) \<Rightarrow> redis \<Rightarrow> goerr + 'a" where
  "cache_get L oc key f st =
     (case redis_get oc key st of
        Inl e \<Rightarrow> Inl e
      | Inr val \<Rightarrow>
          (case Option.bind (json_unmarshal L val) f of None \<Rightarrow> Inl json_error | Some x \<Rightarrow> Inr x))"

definition SetPost :: "lib \<Rightarrow> outcome \<Rightarrow> string \<Rightarrow> post list \<Rightarrow> redis \<Rightarrow> goerr option \<times> redis" where
  "SetPost L oc key ps = cache_set L oc key (json_array (map (post_json L) ps))"

definition GetPost :: "lib \<Rightarrow> outcome \<Rightarrow> string \<Rightarrow> redis \<Rightarrow> goerr + post list" where
  "GetPost L oc key =
     cache_get L oc key (decode_slice (\<lambda>v. decode_struct (post_fields L) False v zero_post))"

definition SetUser :: "lib \<Rightarrow> outcome \<Rightarrow> string \<Rightarrow> user \<Rightarrow> redis \<Rightarrow> goerr option \<times> redis" where
  "SetUser L oc key u = cache_set L oc key (user_json L u)"

definition GetUser :: "lib \<Rightarrow> outcome \<Rightarrow> string \<Rightarrow> redis \<Rightarrow> goerr + user" where
  "GetUser L oc key = cache_get L oc key (\<lambda>v. decode_struct (user_fields L) False v zero_user)"

definition SetFeeds :: "lib \<Rightarrow> outcome \<Rightarrow> string \<Rightarrow> feed list \<Rightarrow> redis \<Rightarrow> goerr option \<times> redis" where
  "SetFeeds L oc key fs = cache_set L oc key (json_array (map (feed_json L) fs))"

definition GetFeeds :: "lib \<Rightarrow> outcome \<Rightarrow> string \<Rightarrow> redis \<Rightarrow> goerr + feed list" where
  "GetFeeds L oc key =
     cache_get L oc key (decode_slice (\<lambda>v. decode_struct (feed_fields L) False v zero_feed))"

definition Cache_Delete :: "outcome \<Rightarrow> string \<Rightarrow> redis \<Rightarrow> goerr option \<times> redis" where
  "Cache_Delete oc key st =
     (case oc of Applied \<Rightarrow> (None, st(key := None)) | Refused e \<Rightarrow> (Some e, st)
      | Lost e \<Rightarrow> (Some e, st(key := None)))"

section \<open>Decoding gives back what was encoded\<close>

text \<open>What the round trip needs of the texts.\<close>

definition texts_invert :: "lib \<Rightarrow> bool" where
  "texts_invert L \<longleftrightarrow>
     (\<forall>v. json_unmarshal L (json_text L v) = Some v) \<and>
     (\<forall>u. uuid_parse L (uuid_text L u) = Some u) \<and>
     (\<forall>t j. json_time L t = Some j \<longrightarrow> time_parse L (time_text L t) = Some t)"

lemma to_of_micros [simp]: "to_micros (of_micros t) = t"
  by (simp add: to_micros_def of_micros_def)

lemma json_time_Some: "json_time L t = Some j \<Longrightarrow> j = JStr (time_text L t)"
  by (auto simp: json_time_def split: if_splits)

lemma decode_feed:
  assumes "texts_invert L" "feed_json L f = Some j"
  shows "decode_struct (feed_fields L) False j zero_feed = Some f"
proof -
  from assms(2) obtain c u t where
    t: "json_time L (of_micros (f_created f)) = Some c" "json_time L (of_micros (f_updated f)) = Some u"
      "json_time L (case f_fetched f of None \<Rightarrow> zero_time | Some t \<Rightarrow> of_micros t) = Some t"
    and j: "j = JObj [(''id'', JStr (uuid_text L (f_id f))), (''created_at'', c), (''updated_at'', u),
      (''name'', JStr (f_name f)), (''url'', JStr (f_url f)),
      (''last_fetched_at'', JObj [(''Time'', t), (''Valid'', JBool (f_fetched f \<noteq> None))])]"
    by (auto simp: feed_json_def json_object_def split: option.splits)
  show ?thesis
    using assms(1) t
    by (cases "f_fetched f")
      (auto simp: j json_time_Some [OF t(1)] json_time_Some [OF t(2)] json_time_Some [OF t(3)] texts_invert_def
        feed_fields_def null_fields_def null_field_def member_simps field_defs bool_member_def zero_feed_def)
qed

lemma decode_post:
  assumes "texts_invert L" "post_json L p = Some j"
  shows "decode_struct (post_fields L) False j zero_post = Some p"
proof -
  from assms(2) obtain z t where
    t: "json_time L zero_time = Some z" "json_time L (p_published p) = Some t"
    and j: "j = JObj [(''id'', JStr (uuid_text L (p_id p))), (''created_at'', z), (''updated_at'', z),
      (''title'', JStr (p_title p)),
      (''description'', JObj [(''String'', JStr (case p_description p of None \<Rightarrow> '''' | Some d \<Rightarrow> d)),
        (''Valid'', JBool (p_description p \<noteq> None))]),
      (''published_at'', t), (''url'', JStr (p_url p)), (''feed_id'', JStr (uuid_text L (p_feed p)))]"
    by (auto simp: post_json_def json_object_def split: option.splits)
  show ?thesis
    using assms(1) t
    by (cases "p_description p")
      (auto simp: j json_time_Some [OF t(1)] json_time_Some [OF t(2)] texts_invert_def
        post_fields_def null_fields_def null_field_def member_simps field_defs bool_member_def zero_post_def)
qed

lemma json_all_decode:
  assumes "\<And>x j. x \<in> set xs \<Longrightarrow> enc x = Some j \<Longrightarrow> dec j = Some x" "json_all (map enc xs) = Some js"
  shows "decode_all dec js = Some xs"
  using assms
proof (induction xs arbitrary: js)
  case (Cons x xs)
  then obtain j js' where j: "enc x = Some j" "json_all (map enc xs) = Some js'" "js = j # js'"
    by (auto split: option.splits)
  have "dec j = Some x" using Cons.prems(1) [OF _ j(1)] by simp
  moreover have "decode_all dec js' = Some xs"
    using Cons.prems(1) j(2) by (intro Cons.IH) simp_all
  ultimately show ?case unfolding j(3) by simp
qed simp

lemma cache_round_trip:
  assumes "texts_invert L" "\<And>x j. enc x = Some j \<Longrightarrow> dec j = Some x"
    "cache_set L oc key (json_array (map enc xs)) st = (None, st')"
  shows "cache_get L Applied key (decode_slice dec) st' = Inr xs"
proof -
  from assms(3) obtain js where js: "json_all (map enc xs) = Some js" "st' = st(key \<mapsto> json_text L (JArr js))"
    by (auto simp: cache_set_def json_array_def redis_set_def split: option.splits outcome.splits)
  have "decode_all dec js = Some xs" by (rule json_all_decode [OF assms(2) js(1)])
  then show ?thesis
    using assms(1) js(2) by (simp add: cache_get_def redis_get_def decode_slice_def texts_invert_def)
qed

end
