(* ===== verification/ApiHandlers.thy ===== *)
theory ApiHandlers
  imports Auth Cache
begin

text \<open>
  \<open>internal/handler\<close>: the API of the monolith over its repository (\<open>Storage\<close>), its cache
  (\<open>Cache\<close>) and its tokens (\<open>Auth\<close>). The writes to the cache that a handler leaves to the
  background are a list in the state; each runs at some later step, or never, when the handler
  shuts down first. What a request meets outside (outcomes of the round trips, clocks, generated
  keys) is its \<open>api_calls\<close>.
\<close>

section \<open>State\<close>

datatype background = CacheFeeds string "feed list" | CachePosts string "post list"

record api =
  a_db :: mdb
  a_cache :: redis
  a_background :: "background list"
  a_closed :: bool

record api_calls =
  ac_store :: "nat \<Rightarrow> outcome"
  ac_cache :: outcome
  ac_now :: instant
  ac_now2 :: instant
  ac_id :: uuid
  ac_tie :: "uuid \<Rightarrow> nat"
  ac_random :: "goerr + nat list"
  ac_token_id :: "goerr + uuid"

definition runInBackground :: "background \<Rightarrow> api \<Rightarrow> api" where
  "runInBackground task st =
     (if a_closed st then st else st\<lparr>a_background := a_background st @ [task]\<rparr>)"

definition run_background :: "lib \<Rightarrow> outcome \<Rightarrow> nat \<Rightarrow> api \<Rightarrow> api" where
  \<comment> \<open>one of the waiting tasks runs; its error is only logged\<close>
  "run_background L oc i st =
     (if i < length (a_background st) then
        let rest = take i (a_background st) @ drop (Suc i) (a_background st);
            cache = (case a_background st ! i of
                CacheFeeds key fs \<Rightarrow> snd (SetFeeds L oc key fs (a_cache st))
              | CachePosts key ps \<Rightarrow> snd (SetPost L oc key ps (a_cache st)))
        in st\<lparr>a_cache := cache, a_background := rest\<rparr>
      else st)"

definition Shutdown :: "(api \<Rightarrow> api) \<Rightarrow> goerr option \<Rightarrow> api \<Rightarrow> goerr option \<times> api" where
  \<comment> \<open>\<open>drain\<close> is what the running tasks do while \<open>Shutdown\<close> waits, \<open>ctx_err\<close> the error of
    the context that ends the waiting\<close>
  "Shutdown drain ctx_err st =
     (let st' = drain (st\<lparr>a_closed := True\<rparr>) in
      (if a_background st' = [] then None else ctx_err, st'))"

section \<open>API keys\<close>

text \<open>\<open>base64.RawURLEncoding\<close> on bytes.\<close>

definition url_alphabet :: string where
  "url_alphabet = ''ABCDEFGHIJKLMNOPQRSTUVWXYZabcdefghijklmnopqrstuvwxyz0123456789-_''"

definition sextet :: "nat \<Rightarrow> char" where
  "sextet n = url_alphabet ! (n mod 64)"

fun RawURLEncode :: "nat list \<Rightarrow> string" where
  "RawURLEncode (a # b # c # bs) =
     sextet (a div 4) # sextet (a mod 4 * 16 + b div 16) # sextet (b mod 16 * 4 + c div 64) # sextet c #
     RawURLEncode bs"
| "RawURLEncode [a, b] = [sextet (a div 4), sextet (a mod 4 * 16 + b div 16), sextet (b mod 16 * 4)]"
| "RawURLEncode [a] = [sextet (a div 4), sextet (a mod 4 * 16)]"
| "RawURLEncode [] = []"

definition apiKeyBytes :: nat where "apiKeyBytes = 32"

definition generateAPIKey :: "goerr + nat list \<Rightarrow> goerr + string" where
  \<comment> \<open>the argument is what \<open>rand.Read\<close> does with a slice of \<open>apiKeyBytes\<close> bytes\<close>
  "generateAPIKey random =
     (case random of
        Inl e \<Rightarrow> Inl (wrap_err ''read random bytes'' e)
      | Inr randomBytes \<Rightarrow> Inr (''na_'' @ RawURLEncode (take apiKeyBytes randomBytes)))"

section \<open>Users and tokens\<close>

definition no_store :: "writer \<Rightarrow> writer" where
  "no_store w = Header_Set ''Pragma'' ''no-cache'' (Header_Set ''Cache-Control'' ''no-store'' w)"

definition PostUser :: "lib \<Rightarrow> api_calls \<Rightarrow> api handler" where
  "PostUser L env r w0 st =
     (let w = no_store w0 in
      case DecodeJSON L [(''name'', string_field (\<lambda>x _. x))] '''' (rq_body r) of
        Inl e \<Rightarrow> (WriteDecodeError L e w, st)
      | Inr name \<Rightarrow>
          (case generateAPIKey (ac_random env) of
             Inl e \<Rightarrow> (WriteError L 500 ''internal_error'' ''failed to generate API key'' w, st)
           | Inr apiKey \<Rightarrow>
               (case SaveUser (ac_store env 0) (ac_now env) (ac_now2 env) (ac_id env) name apiKey (a_db st) of
                  (Inl e, db) \<Rightarrow>
                    (WriteError L 500 ''internal_error'' ''failed to create user'' w, st\<lparr>a_db := db\<rparr>)
                | (Inr savedUser, db) \<Rightarrow>
                    (WriteJSON L 201 (user_json L savedUser) w, st\<lparr>a_db := db\<rparr>))))"

definition token_json :: "access_token \<Rightarrow> json" where
  "token_json t =
     JObj [(''access_token'', JStr (AccessToken t)), (''token_type'', JStr (TokenType t)),
           (''expires_in'', JNum (Itoa (ExpiresIn t)))]"

definition api_key_realm :: string where "api_key_realm = ''ApiKey realm=\"feedflow\"''"

definition PostToken :: "lib \<Rightarrow> jwt_lib \<Rightarrow> issuer option \<Rightarrow> api_calls \<Rightarrow> api handler" where
  "PostToken L J tokenIssuer env r w0 st =
     (let w = no_store w0 in
      case AuthorizationCredential r ''ApiKey'' of
        None \<Rightarrow>
          (WriteError L 401 ''unauthorized'' ''API key is required''
             (Header_Set ''WWW-Authenticate'' api_key_realm w), st)
      | Some apiKey \<Rightarrow>
      case tokenIssuer of
        None \<Rightarrow> (WriteError L 503 ''authentication_unavailable'' ''authentication unavailable'' w, st)
      | Some iss \<Rightarrow>
          (let found = GetUserByApiKey (ac_store env 0) apiKey (a_db st) in
           if (case found of Inl e \<Rightarrow> errors_is e PgxNoRows | Inr u \<Rightarrow> u_id u = nil_uuid) then
             (WriteError L 401 ''invalid_api_key'' ''invalid API key''
                (Header_Set ''WWW-Authenticate'' api_key_realm w), st)
           else
             (case found of
                Inl e \<Rightarrow>
                  (WriteError L 503 ''authentication_unavailable'' ''authentication unavailable'' w, st)
              | Inr u \<Rightarrow>
                  (case Issue J L iss (ac_token_id env) (ac_now env) (u_id u) of
                     Inl e \<Rightarrow> (WriteError L 500 ''internal_error'' ''could not issue access token'' w, st)
                   | Inr t \<Rightarrow> (WriteJSON L 200 (Some (token_json t)) w, st)))))"

section \<open>Feeds\<close>

definition defaultFeedsPageSize :: int where "defaultFeedsPageSize = 50"
definition maxFeedsPageSize :: int where "maxFeedsPageSize = 100"
definition firstFeedsPageKey :: string where "firstFeedsPageKey = ''feeds:first:50''"

definition writeFeedsPage :: "lib \<Rightarrow> feed list \<Rightarrow> int \<Rightarrow> string \<Rightarrow> writer \<Rightarrow> writer" where
  "writeFeedsPage L fs limit cacheStatus w =
     (let page = (if limit < int (length fs) then take (nat limit) fs else fs);
          w1 = (if limit < int (length fs)
                then Header_Set ''X-Next-Cursor'' (uuid_text L (f_id (last page))) w else w)
      in WriteJSON L 200 (json_array (map (feed_json L) page)) (Header_Set ''X-Cache'' cacheStatus w1))"

definition feeds_limit :: "request \<Rightarrow> int option" where
  \<comment> \<open>\<open>None\<close> is the error response\<close>
  "feeds_limit r =
     (let value = rq_query r ''limit'' in
      if value = '''' then Some defaultFeedsPageSize
      else
        (case Atoi value of
           None \<Rightarrow> None
         | Some parsed \<Rightarrow> if parsed < 1 \<or> maxFeedsPageSize < parsed then None else Some parsed))"

definition feeds_after :: "lib \<Rightarrow> request \<Rightarrow> uuid option option" where
  "feeds_after L r =
     (let value = rq_query r ''after'' in
      if value = '''' then Some None else map_option Some (uuid_parse L value))"

definition GetAllFeeds :: "lib \<Rightarrow> api_calls \<Rightarrow> api handler" where
  "GetAllFeeds L env r w st =
     (case feeds_limit r of
        None \<Rightarrow> (WriteError L 400 ''invalid_request'' ''limit must be between 1 and 100'' w, st)
      | Some limit \<Rightarrow>
      case feeds_after L r of
        None \<Rightarrow> (WriteError L 400 ''invalid_request'' ''after must be a UUID'' w, st)
      | Some after \<Rightarrow>
          let cacheFirstPage = (after = None \<and> limit = defaultFeedsPageSize);
              cached = (if cacheFirstPage then GetFeeds L (ac_cache env) firstFeedsPageKey (a_cache st)
                        else Inl (sentinel_err RedisNil))
          in (case cached of
                Inr fs \<Rightarrow> (writeFeedsPage L fs limit ''HIT'' w, st)
              | Inl _ \<Rightarrow>
                  (case GetFeedsPage (ac_store env) after (limit + 1) (a_db st) of
                     Inl e \<Rightarrow> (WriteError L 500 ''internal_error'' ''failed to get feeds'' w, st)
                   | Inr fs \<Rightarrow>
                       (writeFeedsPage L fs limit ''MISS'' w,
                        if cacheFirstPage then runInBackground (CacheFeeds firstFeedsPageKey fs) st else st))))"

record post_feed =
  pf_name :: string
  pf_url :: string

definition PostFeed :: "lib \<Rightarrow> api_calls \<Rightarrow> api handler" where
  "PostFeed L env r w st =
     (case DecodeJSON L [(''name'', string_field (\<lambda>x. pf_name_update (\<lambda>_. x))),
                         (''url'', string_field (\<lambda>x. pf_url_update (\<lambda>_. x)))]
             \<lparr>pf_name = '''', pf_url = ''''\<rparr> (rq_body r) of
        Inl e \<Rightarrow> (WriteDecodeError L e w, st)
      | Inr params \<Rightarrow>
          (case AddFeed (ac_store env 0) (ac_now env) (ac_id env) (pf_name params) (pf_url params) (a_db st) of
             (Inl e, db) \<Rightarrow>
               (WriteError L 500 ''internal_error'' ''failed to create feed'' w, st\<lparr>a_db := db\<rparr>)
           | (Inr savedFeed, db) \<Rightarrow>
               (WriteJSON L 200 (feed_json L savedFeed) w,
                st\<lparr>a_db := db,
                   a_cache := snd (Cache_Delete (ac_cache env) firstFeedsPageKey (a_cache st))\<rparr>)))"

definition PostFollowFeed :: "lib \<Rightarrow> api_calls \<Rightarrow> api handler" where
  "PostFollowFeed L env r w st =
     (case UserIDFromContext r of
        None \<Rightarrow>
          (WriteError L 401 ''unauthorized'' ''Bearer access token is required''
             (Header_Set ''WWW-Authenticate'' bearer w), st)
      | Some userID \<Rightarrow>
      case DecodeJSON L [(''feedId'', uuid_field L (\<lambda>x _. x))] nil_uuid (rq_body r) of
        Inl e \<Rightarrow> (WriteDecodeError L e w, st)
      | Inr feedID \<Rightarrow>
          if feedID = nil_uuid then
            (WriteError L 400 ''invalid_request'' ''feedId must be a non-zero UUID'' w, st)
          else
            (case FollowFeed (ac_store env 0) (ac_id env) (ac_now env) userID feedID (a_db st) of
               (Inl e, db) \<Rightarrow>
                 (WriteError L 500 ''internal_error'' ''failed to follow feed'' w, st\<lparr>a_db := db\<rparr>)
             | (Inr _, db) \<Rightarrow>
                 (WriteHeader 201 (Header_Set ''Content-Type'' ''application/json'' w), st\<lparr>a_db := db\<rparr>)))"

section \<open>Posts\<close>

definition posts_key :: "lib \<Rightarrow> uuid \<Rightarrow> int \<Rightarrow> int \<Rightarrow> string" where
  "posts_key L userID limit offset =
     ''posts:user:'' @ uuid_text L userID @ '':limit:'' @ Itoa limit @ '':offset:'' @ Itoa offset"

definition posts_number :: "string \<Rightarrow> int \<Rightarrow> int \<Rightarrow> int option" where
  \<comment> \<open>a query value at least \<open>least\<close>, or the default\<close>
  "posts_number value dflt least =
     (if value = '''' then Some dflt
      else (case Atoi value of None \<Rightarrow> None | Some n \<Rightarrow> if n < least then None else Some n))"

definition Handler_GetPosts :: "lib \<Rightarrow> api_calls \<Rightarrow> api handler" where
  "Handler_GetPosts L env r w st =
     (case UserIDFromContext r of
        None \<Rightarrow>
          (WriteError L 401 ''unauthorized'' ''Bearer access token is required''
             (Header_Set ''WWW-Authenticate'' bearer w), st)
      | Some userID \<Rightarrow>
      case posts_number (rq_query r ''limit'') 10 1 of
        None \<Rightarrow> (WriteError L 400 ''invalid_request'' ''limit must be a positive integer'' w, st)
      | Some limit \<Rightarrow>
      case posts_number (rq_query r ''offset'') 0 0 of
        None \<Rightarrow> (WriteError L 400 ''invalid_request'' ''offset must be a non-negative integer'' w, st)
      | Some offset \<Rightarrow>
          let cacheKey = posts_key L userID limit offset in
          (case GetPost L (ac_cache env) cacheKey (a_cache st) of
             Inr ps \<Rightarrow>
               (WriteJSON L 200 (json_array (map (post_json L) ps)) (Header_Set ''X-Cache'' ''HIT'' w), st)
           | Inl _ \<Rightarrow>
               (case GetPosts (ac_store env) (ac_tie env) userID limit offset (a_db st) of
                  Inl e \<Rightarrow> (WriteError L 500 ''internal_error'' ''failed to get posts'' w, st)
                | Inr ps \<Rightarrow>
                    (WriteJSON L 200 (json_array (map (post_json L) ps)) (Header_Set ''X-Cache'' ''MISS'' w),
                     runInBackground (CachePosts cacheKey ps) st))))"

section \<open>Routes\<close>

definition InitRouter ::
  "lib \<Rightarrow> jwt_lib \<Rightarrow> issuer option \<Rightarrow> (string \<Rightarrow> goerr + uuid) option \<Rightarrow> api_calls \<Rightarrow> api handler" where
  "InitRouter L J tokenIssuer tokenVerifier env =
     (let protected = Middleware L tokenVerifier in
      serve_mux
        [(''POST'', [Lit ''v1'', Lit ''users''], PostUser L env),
         (''POST'', [Lit ''v1'', Lit ''auth'', Lit ''token''], PostToken L J tokenIssuer env),
         (''POST'', [Lit ''v1'', Lit ''feeds''], protected (PostFeed L env)),
         (''GET'', [Lit ''v1'', Lit ''feeds''], GetAllFeeds L env),
         (''POST'', [Lit ''v1'', Lit ''feed_follows''], protected (PostFollowFeed L env)),
         (''GET'', [Lit ''v1'', Lit ''posts''], protected (Handler_GetPosts L env))])"

end
