(* ===== verification/Rss.thy ===== *)
theory Rss
  imports Storage HttpApi
begin

text \<open>
  \<open>internal/worker\<close>: the RSS worker of the monolith. \<open>scrapeFeed\<close> downloads one feed
  and stores its items; \<open>fetchBatch\<close> runs it for several feeds at once, so the statements
  of the goroutines interleave: every goroutine is a state that advances by one storage call, a
  schedule says whose turn it is. \<open>scrape_items\<close> is the loop of the code, and
  \<open>scrape_run\<close> shows that the states advance as the loop does. XML and the date layouts
  are the arguments \<open>rss_lib\<close>, the clients of HTTP and storage are functions, and
  \<open>ids\<close> gives the values of \<open>uuid.New\<close>.
\<close>

section \<open>Documents\<close>

record rss_item =
  item_Title :: string
  item_Link :: string
  item_Description :: string
  item_PubDate :: string

record rss_feed =
  rss_Title :: string
  rss_Link :: string
  rss_Description :: string
  rss_Items :: "rss_item list"

record rss_lib =
  xml_unmarshal :: "string \<Rightarrow> rss_feed option"
  parse_time :: "string \<Rightarrow> string \<Rightarrow> instant option"    \<comment> \<open>\<open>time.Parse(layout, value)\<close>\<close>
  request_url :: "string \<Rightarrow> bool"                        \<comment> \<open>\<open>http.NewRequestWithContext\<close> takes it\<close>

definition maxFeedSize :: nat where "maxFeedSize = 5 * 2 ^ 20"

definition date_layouts :: "string list" where
  "date_layouts =
     [''Mon, 02 Jan 2006 15:04:05 -0700'', ''Mon, 02 Jan 2006 15:04:05 MST'',
      ''02 Jan 06 15:04 -0700'', ''02 Jan 06 15:04 MST'',
      ''Monday, 02-Jan-06 15:04:05 MST'', ''2006-01-02T15:04:05Z07:00'']"

fun try_layouts :: "rss_lib \<Rightarrow> string list \<Rightarrow> string \<Rightarrow> instant option" where
  "try_layouts R [] v = None"
| "try_layouts R (l # ls) v = (case parse_time R l v of Some t \<Rightarrow> Some t | None \<Rightarrow> try_layouts R ls v)"

definition parsePublishedAt :: "rss_lib \<Rightarrow> string \<Rightarrow> goerr + instant" where
  "parsePublishedAt R value =
     (let v = TrimSpace value in
      if v = '''' then Inl (plain_err ''publication date is empty'')
      else (case try_layouts R date_layouts v of
              Some t \<Rightarrow> Inr t
            | None \<Rightarrow> Inl (plain_err ''unsupported publication date'')))"

section \<open>One feed\<close>

record 's feed_storage =
  store_next :: "int \<Rightarrow> 's \<Rightarrow> goerr + feed list"
  store_mark :: "uuid \<Rightarrow> 's \<Rightarrow> (goerr + unit) \<times> 's"
  store_post :: "post \<Rightarrow> 's \<Rightarrow> (goerr + bool) \<times> 's"

text \<open>What the loop makes of an item: nothing, or the post to save.\<close>

definition post_of_item :: "rss_lib \<Rightarrow> uuid \<Rightarrow> uuid \<Rightarrow> rss_item \<Rightarrow> post option" where
  "post_of_item R feedID new_id item =
     (let title = TrimSpace (item_Title item); link = TrimSpace (item_Link item) in
      if title = '''' \<or> link = '''' then None
      else
        (case parsePublishedAt R (item_PubDate item) of
           Inl _ \<Rightarrow> None
         | Inr publishedAt \<Rightarrow>
             let description = TrimSpace (item_Description item) in
             Some \<lparr>p_id = new_id, p_title = title,
                   p_description = (if description = '''' then None else Some description),
                   p_published = publishedAt, p_url = link, p_feed = feedID\<rparr>))"

text \<open>\<open>ctx k\<close> is what \<open>ctx.Err()\<close> returns at item \<open>k\<close>.\<close>

fun scrape_items ::
  "rss_lib \<Rightarrow> 's feed_storage \<Rightarrow> (nat \<Rightarrow> goerr option) \<Rightarrow> (nat \<Rightarrow> uuid) \<Rightarrow> uuid \<Rightarrow> nat \<Rightarrow> nat \<Rightarrow>
   rss_item list \<Rightarrow> 's \<Rightarrow> (nat \<times> goerr option) \<times> 's" where
  "scrape_items R db ctx ids feedID k insertedPosts [] s =
     (case store_mark db feedID s of
        (Inl e, s') \<Rightarrow> ((insertedPosts, Some (wrap_err ''mark feed as fetched'' e)), s')
      | (Inr _, s') \<Rightarrow> ((insertedPosts, None), s'))"
| "scrape_items R db ctx ids feedID k insertedPosts (item # items) s =
     (case ctx k of
        Some e \<Rightarrow> ((insertedPosts, Some e), s)
      | None \<Rightarrow>
          (case post_of_item R feedID (ids k) item of
             None \<Rightarrow> scrape_items R db ctx ids feedID (Suc k) insertedPosts items s
           | Some p \<Rightarrow>
               (case store_post db p s of
                  (Inl e, s') \<Rightarrow> ((insertedPosts, Some (wrap_err ''save post'' e)), s')
                | (Inr inserted, s') \<Rightarrow>
                    scrape_items R db ctx ids feedID (Suc k)
                      (if inserted then insertedPosts + 1 else insertedPosts) items s')))"

definition download :: "rss_lib \<Rightarrow> (string \<Rightarrow> goerr + http_response) \<Rightarrow> feed \<Rightarrow> goerr + rss_item list" where
  \<comment> \<open>\<open>scrapeFeed\<close> up to the items\<close>
  "download R get fd =
     (if \<not> request_url R (f_url fd) then Inl (wrap_err ''create request'' (plain_err ''url''))
      else
        (case get (f_url fd) of
           Inl e \<Rightarrow> Inl (wrap_err ''download feed'' e)
         | Inr resp \<Rightarrow>
             if StatusCode resp < 200 \<or> 300 \<le> StatusCode resp then
               Inl (plain_err ''unexpected HTTP status'')
             else
               (case read_limited (maxFeedSize + 1) (Resp_Body resp) of
                  Inl e \<Rightarrow> Inl (wrap_err ''read response'' e)
                | Inr body \<Rightarrow>
                    if maxFeedSize < length body then Inl (plain_err ''feed exceeds maximum size'')
                    else
                      (case xml_unmarshal R body of
                         None \<Rightarrow> Inl (wrap_err ''parse XML'' (plain_err ''xml''))
                       | Some rss \<Rightarrow> Inr (rss_Items rss)))))"

definition scrapeFeed ::
  "rss_lib \<Rightarrow> 's feed_storage \<Rightarrow> (string \<Rightarrow> goerr + http_response) \<Rightarrow> (nat \<Rightarrow> goerr option) \<Rightarrow>
   (nat \<Rightarrow> uuid) \<Rightarrow> feed \<Rightarrow> 's \<Rightarrow> (nat \<times> goerr option) \<times> 's" where
  "scrapeFeed R db get ctx ids fd s =
     (case download R get fd of
        Inl e \<Rightarrow> ((0, Some e), s)
      | Inr items \<Rightarrow> scrape_items R db ctx ids (f_id fd) 0 0 items s)"

section \<open>Several feeds at once\<close>

datatype scraper =
    Scraping "rss_item list" nat nat     \<comment> \<open>items left, their index, posts inserted\<close>
  | Scraped nat "goerr option"

fun scrape_step ::
  "rss_lib \<Rightarrow> 's feed_storage \<Rightarrow> (nat \<Rightarrow> goerr option) \<Rightarrow> (nat \<Rightarrow> uuid) \<Rightarrow> uuid \<Rightarrow> scraper \<Rightarrow> 's \<Rightarrow>
   scraper \<times> 's" where
  "scrape_step R db ctx ids feedID (Scraping [] k n) s =
     (case store_mark db feedID s of
        (Inl e, s') \<Rightarrow> (Scraped n (Some (wrap_err ''mark feed as fetched'' e)), s')
      | (Inr _, s') \<Rightarrow> (Scraped n None, s'))"
| "scrape_step R db ctx ids feedID (Scraping (item # items) k n) s =
     (case ctx k of
        Some e \<Rightarrow> (Scraped n (Some e), s)
      | None \<Rightarrow>
          (case post_of_item R feedID (ids k) item of
             None \<Rightarrow> (Scraping items (Suc k) n, s)
           | Some p \<Rightarrow>
               (case store_post db p s of
                  (Inl e, s') \<Rightarrow> (Scraped n (Some (wrap_err ''save post'' e)), s')
                | (Inr inserted, s') \<Rightarrow> (Scraping items (Suc k) (if inserted then n + 1 else n), s'))))"
| "scrape_step R db ctx ids feedID (Scraped n e) s = (Scraped n e, s)"

text \<open>A goroutine: its feed, the contexts and identifiers it meets, and where it is.\<close>

record goroutine =
  g_feed :: uuid
  g_ctx :: "nat \<Rightarrow> goerr option"
  g_ids :: "nat \<Rightarrow> uuid"
  g_state :: scraper

definition start_scraper ::
  "rss_lib \<Rightarrow> (string \<Rightarrow> goerr + http_response) \<Rightarrow> (feed \<Rightarrow> nat \<Rightarrow> goerr option) \<Rightarrow> (feed \<Rightarrow> nat \<Rightarrow> uuid) \<Rightarrow>
   feed \<Rightarrow> goroutine" where
  "start_scraper R get ctx ids fd =
     \<lparr>g_feed = f_id fd, g_ctx = ctx fd, g_ids = ids fd,
      g_state = (case download R get fd of Inl e \<Rightarrow> Scraped 0 (Some e) | Inr items \<Rightarrow> Scraping items 0 0)\<rparr>"

fun run_schedule ::
  "rss_lib \<Rightarrow> 's feed_storage \<Rightarrow> nat list \<Rightarrow> goroutine list \<Rightarrow> 's \<Rightarrow> goroutine list \<times> 's" where
  "run_schedule R db [] gs s = (gs, s)"
| "run_schedule R db (i # sched) gs s =
     (if i < length gs then
        (case scrape_step R db (g_ctx (gs ! i)) (g_ids (gs ! i)) (g_feed (gs ! i)) (g_state (gs ! i)) s of
           (st, s') \<Rightarrow> run_schedule R db sched (gs[i := (gs ! i)\<lparr>g_state := st\<rparr>]) s')
      else run_schedule R db sched gs s)"

definition fetchBatch ::
  "rss_lib \<Rightarrow> 's feed_storage \<Rightarrow> (string \<Rightarrow> goerr + http_response) \<Rightarrow> (feed \<Rightarrow> nat \<Rightarrow> goerr option) \<Rightarrow>
   (feed \<Rightarrow> nat \<Rightarrow> uuid) \<Rightarrow> nat list \<Rightarrow> int \<Rightarrow> 's \<Rightarrow> goerr option \<times> goroutine list \<times> 's" where
  \<comment> \<open>what the goroutines return is logged; \<open>wg.Wait\<close> ends when all have finished\<close>
  "fetchBatch R db get ctx ids sched concurrency s =
     (case store_next db concurrency s of
        Inl e \<Rightarrow> (Some e, [], s)
      | Inr fds \<Rightarrow>
          (case run_schedule R db sched (map (start_scraper R get ctx ids) fds) s of
             (gs, s') \<Rightarrow> (None, gs, s')))"

text \<open>
  \<open>Start\<close>: the inputs of a round of its loop are whether the context has ended before the
  batch, the batch's network, contexts, identifiers and schedule, and whether the context ends
  before the next tick. Errors of a batch are only logged, so every run that ends returns nil.
\<close>

record tick =
  tk_cancelled :: bool
  tk_get :: "string \<Rightarrow> goerr + http_response"
  tk_ctx :: "feed \<Rightarrow> nat \<Rightarrow> goerr option"
  tk_ids :: "feed \<Rightarrow> nat \<Rightarrow> uuid"
  tk_sched :: "nat list"
  tk_cancelled_in_batch :: bool
  tk_done :: bool

fun Start_loop :: "rss_lib \<Rightarrow> (tick \<Rightarrow> 's feed_storage) \<Rightarrow> int \<Rightarrow> tick list \<Rightarrow> 's \<Rightarrow> bool \<times> 's" where
  \<comment> \<open>\<open>True\<close>: the loop has returned; \<open>False\<close>: it waits for a tick that is not given\<close>
  "Start_loop R db concurrency [] s = (False, s)"
| "Start_loop R db concurrency (t # ts) s =
     (if tk_cancelled t then (True, s)
      else
        (case fetchBatch R (db t) (tk_get t) (tk_ctx t) (tk_ids t) (tk_sched t) concurrency s of
           (err, gs, s') \<Rightarrow>
             if err \<noteq> None \<and> tk_cancelled_in_batch t then (True, s')
             else if tk_done t then (True, s')
             else Start_loop R db concurrency ts s'))"

definition Start :: "rss_lib \<Rightarrow> (tick \<Rightarrow> 's feed_storage) \<Rightarrow> duration \<Rightarrow> int \<Rightarrow> tick list \<Rightarrow> 's \<Rightarrow>
    (goerr + bool) \<times> 's" where
  "Start R db fetchInterval concurrency ts s =
     (if sint fetchInterval \<le> 0 then (Inl (plain_err ''fetch interval must be greater than zero''), s)
      else if concurrency \<le> 0 then (Inl (plain_err ''concurrency must be greater than zero''), s)
      else (case Start_loop R db concurrency ts s of (returned, s') \<Rightarrow> (Inr returned, s')))"

section \<open>The states advance as the loop does\<close>

fun scrape_run ::
  "rss_lib \<Rightarrow> 's feed_storage \<Rightarrow> (nat \<Rightarrow> goerr option) \<Rightarrow> (nat \<Rightarrow> uuid) \<Rightarrow> uuid \<Rightarrow> nat \<Rightarrow> scraper \<Rightarrow> 's \<Rightarrow>
   scraper \<times> 's" where
  "scrape_run R db ctx ids feedID 0 sc s = (sc, s)"
| "scrape_run R db ctx ids feedID (Suc n) sc s =
     (case scrape_step R db ctx ids feedID sc s of (sc', s') \<Rightarrow> scrape_run R db ctx ids feedID n sc' s')"

lemma scrape_run_Scraped: "scrape_run R db ctx ids feedID m (Scraped n e) s = (Scraped n e, s)"
  by (induction m) simp_all

lemma scrape_run_items:
  assumes "length items < m"
  shows "scrape_run R db ctx ids feedID m (Scraping items k n) s =
    (case scrape_items R db ctx ids feedID k n items s of ((n', e), s') \<Rightarrow> (Scraped n' e, s'))"
  using assms
proof (induction items arbitrary: m k n s)
  case Nil
  then obtain m' where "m = Suc m'" by (cases m) auto
  then show ?case
    by (auto simp: scrape_run_Scraped split: prod.split sum.split)
next
  case (Cons item items)
  then obtain m' where m: "m = Suc m'" "length items < m'" by (cases m) auto
  show ?case
    using Cons.IH [OF m(2)]
    by (auto simp: m(1) scrape_run_Scraped split: option.split prod.split sum.split)
qed

section \<open>What has been stored\<close>

text \<open>
  The contract of the worker with its storage: a call of \<open>SavePost\<close> that returns without an
  error leaves a post with the URL, and no call takes one away.
\<close>

locale feed_store =
  fixes db :: "'s feed_storage" and stored :: "string \<Rightarrow> 's \<Rightarrow> bool"
  assumes post_stored: "store_post db p s = (Inr b, s') \<Longrightarrow> stored (p_url p) s'"
    and post_keeps: "stored u s \<Longrightarrow> stored u (snd (store_post db p s))"
    and mark_keeps: "stored u s \<Longrightarrow> stored u (snd (store_mark db i s))"
begin

definition item_stored :: "rss_lib \<Rightarrow> uuid \<Rightarrow> 's \<Rightarrow> rss_item \<Rightarrow> bool" where
  "item_stored R feedID s item \<longleftrightarrow>
     (\<forall>i p. post_of_item R feedID i item = Some p \<longrightarrow> stored (p_url p) s)"

definition scraper_ok :: "rss_lib \<Rightarrow> uuid \<Rightarrow> rss_item list \<Rightarrow> scraper \<Rightarrow> 's \<Rightarrow> bool" where
  "scraper_ok R feedID items sc s \<longleftrightarrow>
     (case sc of
        Scraping rest k n \<Rightarrow> \<exists>d. items = d @ rest \<and> (\<forall>item \<in> set d. item_stored R feedID s item)
      | Scraped n None \<Rightarrow> \<forall>item \<in> set items. item_stored R feedID s item
      | Scraped n (Some e) \<Rightarrow> True)"

lemma post_of_item_url: "post_of_item R f i item = Some p \<Longrightarrow> post_of_item R f j item = Some q \<Longrightarrow> p_url p = p_url q"
  by (auto simp: post_of_item_def Let_def split: if_splits sum.splits)

lemma post_of_item_None: "post_of_item R f i item = None \<Longrightarrow> post_of_item R f j item = None"
  by (auto simp: post_of_item_def Let_def split: if_splits sum.splits)

lemma step_keeps:
  assumes "stored u s"
  shows "stored u (snd (scrape_step R db ctx ids feedID sc s))"
proof -
  have post: "stored u s'" if "store_post db p s = (r, s')" for p r s'
    using post_keeps [OF assms, of p] that by simp
  have mark: "stored u s'" if "store_mark db i s = (r, s')" for i r s'
    using mark_keeps [OF assms, of i] that by simp
  show ?thesis
    using assms post mark
    by (cases "(R, db, ctx, ids, feedID, sc, s)" rule: scrape_step.cases)
      (auto split: prod.split sum.split option.split)
qed

lemma scraper_ok_mono:
  assumes "scraper_ok R feedID items sc s" "\<And>u. stored u s \<Longrightarrow> stored u s'"
  shows "scraper_ok R feedID items sc s'"
  using assms unfolding scraper_ok_def item_stored_def
  by (auto split: scraper.splits option.splits)

lemma step_ok:
  assumes "scraper_ok R feedID items sc s"
  shows "scraper_ok R feedID items (fst (scrape_step R db ctx ids feedID sc s))
    (snd (scrape_step R db ctx ids feedID sc s))"
proof (cases sc)
  case (Scraped n e)
  then show ?thesis using assms by simp
next
  case sc: (Scraping rest k n)
  let ?s' = "snd (scrape_step R db ctx ids feedID sc s)"
  from assms sc obtain d where d: "items = d @ rest" "\<forall>item \<in> set d. item_stored R feedID s item"
    by (auto simp: scraper_ok_def)
  then have d': "\<forall>item \<in> set d. item_stored R feedID ?s' item"
    using step_keeps unfolding item_stored_def by blast
  show ?thesis
  proof (cases rest)
    case Nil
    then show ?thesis using d d' sc by (auto simp: scraper_ok_def split: prod.split sum.split)
  next
    case (Cons item rest')
    have "item_stored R feedID ?s' item" if "ctx k = None" "post_of_item R feedID (ids k) item = None"
      using that post_of_item_None unfolding item_stored_def by fastforce
    moreover have "item_stored R feedID ?s' item"
      if "ctx k = None" "post_of_item R feedID (ids k) item = Some p" "store_post db p s = (Inr b, s1)" for p b s1
    proof -
      have "?s' = s1" using that sc Cons by simp
      then show ?thesis
        using post_stored [OF that(3)] post_of_item_url [OF that(2)] unfolding item_stored_def by metis
    qed
    moreover have "items = (d @ [item]) @ rest'" using d(1) Cons by simp
    ultimately show ?thesis
      using d' sc Cons
      by (auto simp: scraper_ok_def split: prod.split sum.split option.split intro!: exI [of _ "d @ [item]"])
  qed
qed

text \<open>Under any schedule, every goroutine keeps its account of what is stored.\<close>

lemma run_schedule_ok:
  assumes "run_schedule R db sched gs s = (gs', s')"
    "list_all2 (\<lambda>g items. scraper_ok R (g_feed g) items (g_state g) s) gs itemss"
  shows "list_all2 (\<lambda>g items. scraper_ok R (g_feed g) items (g_state g) s') gs' itemss"
  using assms
proof (induction sched arbitrary: gs s)
  case (Cons i sched)
  show ?case
  proof (cases "i < length gs")
    case True
    let ?g = "gs ! i"
    obtain st s1 where st: "scrape_step R db (g_ctx ?g) (g_ids ?g) (g_feed ?g) (g_state ?g) s = (st, s1)"
      by fastforce
    let ?gs = "gs[i := ?g\<lparr>g_state := st\<rparr>]"
    have run: "run_schedule R db sched ?gs s1 = (gs', s')" using Cons.prems(1) True st by simp
    have mono: "\<And>u. stored u s \<Longrightarrow> stored u s1"
      using step_keeps [of _ s R "g_ctx ?g" "g_ids ?g" "g_feed ?g" "g_state ?g"] st by simp
    have len: "length gs = length itemss" using Cons.prems(2) by (rule list_all2_lengthD)
    have each: "scraper_ok R (g_feed (gs ! j)) (itemss ! j) (g_state (gs ! j)) s" if "j < length gs" for j
      using Cons.prems(2) that by (rule list_all2_nthD)
    have "scraper_ok R (g_feed (?gs ! j)) (itemss ! j) (g_state (?gs ! j)) s1" if j: "j < length gs" for j
    proof (cases "j = i")
      case True
      then show ?thesis
        using step_ok [OF each [OF j], of "g_ctx ?g" "g_ids ?g"] st j by simp
    next
      case False
      then show ?thesis using scraper_ok_mono [OF each [OF j] mono] by simp
    qed
    then have "list_all2 (\<lambda>g items. scraper_ok R (g_feed g) items (g_state g) s1) ?gs itemss"
      using len by (simp add: list_all2_conv_all_nth)
    then show ?thesis using run by (rule Cons.IH [rotated])
  next
    case False
    then show ?thesis using Cons by simp
  qed
qed simp

lemma start_scraper_ok:
  "scraper_ok R (f_id fd) (case download R get fd of Inl e \<Rightarrow> [] | Inr items \<Rightarrow> items)
     (g_state (start_scraper R get ctx ids fd)) s"
  by (auto simp: start_scraper_def scraper_ok_def split: sum.split)

end

section \<open>Every goroutine finishes\<close>

fun turns_left :: "scraper \<Rightarrow> nat" where
  "turns_left (Scraping items k n) = Suc (length items)"
| "turns_left (Scraped n e) = 0"

lemma turns_left_step: "turns_left (fst (scrape_step R db ctx ids feedID sc s)) \<le> turns_left sc - 1"
  by (cases "(R, db, ctx, ids, feedID, sc, s)" rule: scrape_step.cases)
    (auto split: prod.split sum.split option.split)

lemma run_schedule_turns:
  assumes "run_schedule R db sched gs s = (gs', s')"
  shows "length gs' = length gs \<and> (i < length gs \<longrightarrow>
    g_feed (gs' ! i) = g_feed (gs ! i) \<and>
    turns_left (g_state (gs' ! i)) \<le> turns_left (g_state (gs ! i)) - count_list sched i)"
  using assms
proof (induction sched arbitrary: gs s)
  case (Cons j sched)
  show ?case
  proof (cases "j < length gs")
    case True
    let ?g = "gs ! j"
    obtain st s1 where st: "scrape_step R db (g_ctx ?g) (g_ids ?g) (g_feed ?g) (g_state ?g) s = (st, s1)"
      by fastforce
    have "turns_left st \<le> turns_left (g_state ?g) - 1"
      using turns_left_step [of R db "g_ctx ?g" "g_ids ?g" "g_feed ?g" "g_state ?g" s] st by simp
    then show ?thesis
      using Cons.IH [of "gs[j := ?g\<lparr>g_state := st\<rparr>]" s1] Cons.prems True st
      by (cases "i = j") (auto simp: nth_list_update)
  next
    case False
    then show ?thesis using Cons by auto
  qed
qed simp

lemma turns_left_0: "turns_left sc = 0 \<longleftrightarrow> (\<exists>n e. sc = Scraped n e)"
  by (cases sc) simp_all

section \<open>What no interleaving breaks\<close>

lemma step_invariant:
  assumes "I s" "\<And>i s. I s \<Longrightarrow> I (snd (store_mark db i s))" "\<And>p s. I s \<Longrightarrow> I (snd (store_post db p s))"
  shows "I (snd (scrape_step R db ctx ids feedID sc s))"
proof -
  have post: "I s'" if "store_post db p s = (r, s')" for p r s'
    using assms(3) [OF assms(1), of p] that by simp
  have mark: "I s'" if "store_mark db i s = (r, s')" for i r s'
    using assms(2) [OF assms(1), of i] that by simp
  show ?thesis
    using assms(1) post mark
    by (cases "(R, db, ctx, ids, feedID, sc, s)" rule: scrape_step.cases)
      (auto split: prod.split sum.split option.split)
qed

lemma run_schedule_invariant:
  assumes "run_schedule R db sched gs s = (gs', s')" "I s"
    and "\<And>i s. I s \<Longrightarrow> I (snd (store_mark db i s))" "\<And>p s. I s \<Longrightarrow> I (snd (store_post db p s))"
  shows "I s'"
  using assms(1,2)
proof (induction sched arbitrary: gs s)
  case (Cons i sched)
  obtain st s1 where st:
    "scrape_step R db (g_ctx (gs ! i)) (g_ids (gs ! i)) (g_feed (gs ! i)) (g_state (gs ! i)) s = (st, s1)"
    by fastforce
  have "I s1"
    using step_invariant [of I s db R "g_ctx (gs ! i)" "g_ids (gs ! i)" "g_feed (gs ! i)" "g_state (gs ! i)",
        OF Cons.prems(2) assms(3,4)] st by simp
  then show ?case
    using Cons.IH [of "gs[i := (gs ! i)\<lparr>g_state := st\<rparr>]" s1] Cons.IH [of gs s] Cons.prems st
    by (simp split: if_splits)
qed simp

section \<open>The repository in PostgreSQL\<close>

text \<open>
  Outcomes, clocks and generated keys of a call depend on what it is called with; the posts of
  different calls differ in their identifier, so every call can have its own.
\<close>

record pg_calls =
  pc_next :: "nat \<Rightarrow> outcome"
  pc_mark :: "uuid \<Rightarrow> outcome \<times> instant"
  pc_post :: "post \<Rightarrow> outcome \<times> (uuid \<Rightarrow> uuid) \<times> instant"

definition pg_feeds :: "lib \<Rightarrow> pg_calls \<Rightarrow> mdb feed_storage" where
  "pg_feeds L c =
     \<lparr>store_next = GetNextFeedsToFetch (pc_next c),
      store_mark = (\<lambda>i. MarkFeedFetched (fst (pc_mark c i)) (snd (pc_mark c i)) i),
      store_post = (\<lambda>p. SavePost L (fst (pc_post c p)) (fst (snd (pc_post c p))) (snd (snd (pc_post c p))) p)\<rparr>"

definition has_post :: "string \<Rightarrow> mdb \<Rightarrow> bool" where
  "has_post url s \<longleftrightarrow> (\<exists>p \<in> set (posts s). p_url p = url)"

lemma SavePost_state:
  assumes "SavePost L oc fresh now p s = (r, s')"
  shows "s' = s \<or> (\<exists>b. insert_post L fresh now p s = Inr (b, s'))"
    and "r = Inr b \<Longrightarrow> insert_post L fresh now p s = Inr (b, s')"
  using assms
  by (auto simp: SavePost_def autocommit_def split: outcome.splits sum.splits prod.splits)

lemma insert_post_has:
  assumes "insert_post L fresh now p s = Inr (b, s')"
  shows "has_post (p_url p) s' \<and> (has_post u s \<longrightarrow> has_post u s')"
proof (cases b)
  case True
  then have "insert_post L fresh now p s = Inr (True, s')" using assms by simp
  then show ?thesis
    by (rule insert_post_True) (auto simp: has_post_def)
next
  case False
  then have "insert_post L fresh now p s = Inr (False, s')" using assms by simp
  then have "s' = s \<and> (\<exists>q \<in> set (posts s). p_url q = p_url p)" by (rule insert_post_False)
  then show ?thesis by (auto simp: has_post_def)
qed

lemma MarkFeedFetched_posts:
  "MarkFeedFetched oc now i s = (r, s') \<Longrightarrow> posts s' = posts s \<and> events s' = events s"
  unfolding MarkFeedFetched_def by (erule autocommit_cases) auto

interpretation pgf: feed_store "pg_feeds L c" has_post
proof
  fix p s b s' assume "store_post (pg_feeds L c) p s = (Inr b, s')"
  then show "has_post (p_url p) s'"
    using SavePost_state(2) [OF _ refl] insert_post_has by (simp add: pg_feeds_def) blast
next
  fix u s p assume u: "has_post u s"
  obtain r s' where res: "SavePost L (fst (pc_post c p)) (fst (snd (pc_post c p))) (snd (snd (pc_post c p))) p s = (r, s')"
    by fastforce
  then have "has_post u s'" using SavePost_state(1) [OF res] insert_post_has u by blast
  then show "has_post u (snd (store_post (pg_feeds L c) p s))" by (simp add: pg_feeds_def res)
next
  fix u s i assume u: "has_post u s"
  obtain r s' where res: "MarkFeedFetched (fst (pc_mark c i)) (snd (pc_mark c i)) i s = (r, s')"
    by fastforce
  then have "has_post u s'" using MarkFeedFetched_posts [OF res] u by (simp add: has_post_def)
  then show "has_post u (snd (store_mark (pg_feeds L c) i s))" by (simp add: pg_feeds_def res)
qed

lemma pg_feeds_ok:
  assumes "mdb_ok s"
  shows "mdb_ok (snd (store_mark (pg_feeds L c) i s))" "mdb_ok (snd (store_post (pg_feeds L c) p s))"
proof -
  obtain r s' where m: "MarkFeedFetched (fst (pc_mark c i)) (snd (pc_mark c i)) i s = (r, s')"
    by fastforce
  then show "mdb_ok (snd (store_mark (pg_feeds L c) i s))"
    using MarkFeedFetched_ok [OF assms m] by (simp add: pg_feeds_def)
  obtain r s' where p: "SavePost L (fst (pc_post c p)) (fst (snd (pc_post c p))) (snd (snd (pc_post c p))) p s = (r, s')"
    by fastforce
  then show "mdb_ok (snd (store_post (pg_feeds L c) p s))"
    using SavePost_ok [OF assms p] by (simp add: pg_feeds_def)
qed

lemma fetchBatch_ok:
  assumes "mdb_ok s" "fetchBatch R (pg_feeds L c) get ctx ids sched n s = (err, gs, s')"
  shows "mdb_ok s'"
  using assms run_schedule_invariant [where I = mdb_ok, OF _ assms(1) pg_feeds_ok]
  by (auto simp: fetchBatch_def split: sum.splits prod.splits)

lemma Start_ok:
  assumes "mdb_ok s" "Start_loop R (\<lambda>t. pg_feeds L (c t)) n ts s = (b, s')"
  shows "mdb_ok s'"
  using assms
proof (induction ts arbitrary: s)
  case (Cons t ts)
  obtain err gs s1 where f: "fetchBatch R (pg_feeds L (c t)) (tk_get t) (tk_ctx t) (tk_ids t) (tk_sched t) n s = (err, gs, s1)"
    by (metis prod_cases3)
  then have "mdb_ok s1" using fetchBatch_ok Cons.prems(1) by blast
  then show ?case using Cons f by (auto split: if_splits)
qed simp

end
