(* ===== verification/Legacy.thy ===== *)
theory Legacy
  imports PipelineWorker Storage
begin

text \<open>
  The delivery pipeline of the monolith: \<open>internal/notification/postgres/outbox.go\<close> and
  \<open>deliveries.go\<close> on the tables of the monolith's migrations 005 to 007, and
  \<open>internal/notification/worker/worker.go\<close>, which expands the events \<open>post.created\<close> into
  deliveries and sends them. Its deliveries have no claim token: a row in the state
  \<open>processing\<close> belongs to whoever updates it.
\<close>

section \<open>Tables\<close>

datatype old_status = OldPending | OldProcessing | OldSent | OldFailed

record old_delivery =
  l_id :: uuid
  l_user :: uuid
  l_post :: uuid
  l_channel :: uuid
  l_status :: old_status
  l_attempts :: int
  l_available :: instant
  l_sent_at :: "instant option"
  l_error :: "string option"
  l_created :: instant
  l_updated :: instant

record ldb = mdb +
  l_channels :: "channel_row list"
  l_deliveries :: "old_delivery list"

record delivery =
  dl_id :: uuid
  dl_user :: uuid
  dl_post :: uuid
  dl_channel :: channel
  dl_status :: old_status
  dl_attempts :: int

record delivery_task =
  dt_delivery :: delivery
  dt_message :: message

definition EventPostCreated :: string where "EventPostCreated = ''post.created''"

section \<open>ExpandPostCreatedEvents\<close>

definition claimed_events :: "instant \<Rightarrow> nat \<Rightarrow> (uuid \<Rightarrow> bool) \<Rightarrow> ldb \<Rightarrow> event_row list" where
  "claimed_events now limit locked s =
     select_for_update (\<lambda>e. (ev_created e, ev_id e)) limit (\<lambda>e. locked (ev_id e))
       (\<lambda>e. ev_processed e = None \<and> ev_available e \<le> now \<and> ev_type e = EventPostCreated) (events s)"

definition new_old_delivery :: "instant \<Rightarrow> (uuid \<times> uuid \<times> uuid \<Rightarrow> uuid) \<Rightarrow> uuid \<times> uuid \<times> uuid \<Rightarrow> old_delivery" where
  "new_old_delivery now fresh k =
     \<lparr>l_id = fresh k, l_user = fst k, l_post = fst (snd k), l_channel = snd (snd k),
      l_status = OldPending, l_attempts = 0, l_available = now, l_sent_at = None, l_error = None,
      l_created = now, l_updated = now\<rparr>"

definition old_key :: "old_delivery \<Rightarrow> uuid \<times> uuid \<times> uuid" where
  "old_key d = (l_user d, l_post d, l_channel d)"

definition created_deliveries :: "event_row list \<Rightarrow> ldb \<Rightarrow> (uuid \<times> uuid \<times> uuid) list" where
  \<comment> \<open>the rows the \<open>SELECT\<close> produces, by user, post and channel\<close>
  "created_deliveries claimed s =
     [(fo_user ff, p_id p, ch_id nc). c \<leftarrow> claimed, p \<leftarrow> posts s, p_id p = ev_aggregate c,
        ff \<leftarrow> follows s, fo_feed ff = p_feed p,
        nc \<leftarrow> l_channels s, ch_user nc = fo_user ff \<and> ch_enabled nc]"

definition insert_old :: "instant \<Rightarrow> (uuid \<times> uuid \<times> uuid \<Rightarrow> uuid) \<Rightarrow> (uuid \<times> uuid \<times> uuid) list \<Rightarrow>
    old_delivery list \<Rightarrow> old_delivery list" where
  \<comment> \<open>\<open>ON CONFLICT (user_id, post_id, channel_id) DO NOTHING\<close>, row by row\<close>
  "insert_old now fresh keys ds =
     foldl (\<lambda>ds k. if k \<in> old_key ` set ds then ds else ds @ [new_old_delivery now fresh k]) ds keys"

definition expand_stmt ::
  "instant \<Rightarrow> (uuid \<times> uuid \<times> uuid \<Rightarrow> uuid) \<Rightarrow> (uuid \<Rightarrow> bool) \<Rightarrow> nat \<Rightarrow> ldb \<Rightarrow> goerr + nat \<times> ldb" where
  "expand_stmt now fresh locked limit s =
     (let claimed = claimed_events now limit locked s;
          ds = insert_old now fresh (created_deliveries claimed s) (l_deliveries s);
          P = (\<lambda>e. ev_id e \<in> ev_id ` set claimed)
      in if distinct (map l_id ds) then
           Inr (affected P (events s),
                s\<lparr>l_deliveries := ds,
                  events := upd P (\<lambda>e. e\<lparr>ev_processed := Some now, ev_attempts := ev_attempts e + 1\<rparr>) (events s)\<rparr>)
         else Inl (unique_violation ''notification_deliveries_pkey''))"

definition ExpandPostCreatedEvents ::
  "(nat \<Rightarrow> outcome) \<Rightarrow> instant \<Rightarrow> (uuid \<times> uuid \<times> uuid \<Rightarrow> uuid) \<Rightarrow> (uuid \<Rightarrow> bool) \<Rightarrow> int \<Rightarrow> ldb \<Rightarrow>
   (goerr + nat) \<times> ldb" where
  "ExpandPostCreatedEvents oc now fresh locked limit s =
     (if limit \<le> 0 then (Inl (plain_err ''outbox batch limit must be greater than zero''), s)
      else
        case call (oc 0) (Inr ()) of
          Inl e \<Rightarrow> (Inl (wrap_err ''begin outbox transaction'' e), s)
        | Inr _ \<Rightarrow>
        case call (oc 1) (expand_stmt now fresh locked (nat limit) s) of
          Inl e \<Rightarrow> (Inl (wrap_err ''expand post-created events'' e), s)
        | Inr (n, s1) \<Rightarrow>
            (case commit (oc 2) n s s1 of
               (Inl e, s') \<Rightarrow> (Inl (wrap_err ''commit outbox transaction'' e), s')
             | (Inr n, s') \<Rightarrow> (Inr n, s')))"

section \<open>ClaimDeliveries\<close>

definition old_selected :: "instant \<Rightarrow> nat \<Rightarrow> (uuid \<Rightarrow> bool) \<Rightarrow> ldb \<Rightarrow> old_delivery list" where
  "old_selected now limit locked s =
     select_for_update (\<lambda>d. (l_available d, l_created d, l_id d)) limit (\<lambda>d. locked (l_id d))
       (\<lambda>d. l_status d = OldPending \<and> l_available d \<le> now \<and>
          (\<exists>nc \<in> set (l_channels s). ch_id nc = l_channel d \<and> ch_enabled nc)) (l_deliveries s)"

definition old_claim_row :: "instant \<Rightarrow> old_delivery \<Rightarrow> old_delivery" where
  "old_claim_row now d = d\<lparr>l_status := OldProcessing, l_attempts := l_attempts d + 1, l_updated := now\<rparr>"

definition task_of_old :: "old_delivery \<Rightarrow> channel_row \<Rightarrow> post_row \<Rightarrow> delivery_task" where
  "task_of_old d nc p =
     \<lparr>dt_delivery = \<lparr>dl_id = l_id d, dl_user = l_user d, dl_post = l_post d,
        dl_channel = \<lparr>ch_id = l_channel d, ch_user = l_user d, ch_type = ch_type nc,
          ch_destination = ch_destination nc, ch_enabled = True\<rparr>,
        dl_status = OldProcessing, dl_attempts = l_attempts d\<rparr>,
      dt_message = \<lparr>Recipient = ch_destination nc, Title = p_title p,
        Body = (case p_description p of None \<Rightarrow> '''' | Some b \<Rightarrow> b), URL = p_url p\<rparr>\<rparr>"

definition old_claim_stmt :: "instant \<Rightarrow> (uuid \<Rightarrow> bool) \<Rightarrow> nat \<Rightarrow> ldb \<Rightarrow> delivery_task list \<times> ldb" where
  "old_claim_stmt now locked limit s =
     (let ids = map l_id (old_selected now limit locked s);
          ds = upd (\<lambda>d. l_id d \<in> set ids) (old_claim_row now) (l_deliveries s)
      in ([task_of_old d nc p. d \<leftarrow> sort_key l_id (filter (\<lambda>d. l_id d \<in> set ids) ds),
             nc \<leftarrow> l_channels s, ch_id nc = l_channel d, p \<leftarrow> posts s, p_id p = l_post d],
          s\<lparr>l_deliveries := ds\<rparr>))"

definition ClaimDeliveries ::
  "outcome \<Rightarrow> instant \<Rightarrow> (uuid \<Rightarrow> bool) \<Rightarrow> int \<Rightarrow> ldb \<Rightarrow> (goerr + delivery_task list) \<times> ldb" where
  \<comment> \<open>an error of the query and one of the rows both drop every task\<close>
  "ClaimDeliveries oc now locked limit s =
     (if limit \<le> 0 then (Inl (plain_err ''limit must be greater than zero''), s)
      else
        (case autocommit oc (\<lambda>s. Inr (old_claim_stmt now locked (nat limit) s)) s of
           (Inl e, s') \<Rightarrow> (Inl (wrap_err ''claim notification deliveries'' e), s')
         | (Inr tasks, s') \<Rightarrow> (Inr tasks, s')))"

section \<open>The updates of a claimed delivery\<close>

definition processing_row :: "uuid \<Rightarrow> old_delivery \<Rightarrow> bool" where
  "processing_row i d \<longleftrightarrow> l_id d = i \<and> l_status d = OldProcessing"

definition update_processing :: "outcome \<Rightarrow> string \<Rightarrow> uuid \<Rightarrow> (old_delivery \<Rightarrow> old_delivery) \<Rightarrow> ldb \<Rightarrow>
    (goerr + unit) \<times> ldb" where
  \<comment> \<open>what the three methods share: one statement, which has to affect one row\<close>
  "update_processing oc operation i f s =
     (case autocommit oc
        (\<lambda>s. Inr (affected (processing_row i) (l_deliveries s),
                  s\<lparr>l_deliveries := upd (processing_row i) f (l_deliveries s)\<rparr>)) s of
        (Inl e, s') \<Rightarrow> (Inl (wrap_err operation e), s')
      | (Inr n, s') \<Rightarrow>
          (if n \<noteq> 1 then Inl (plain_err ''notification delivery is not in processing state'') else Inr (), s'))"

definition left :: "nat \<Rightarrow> string \<Rightarrow> string" where
  \<comment> \<open>\<open>LEFT\<close> counts characters\<close>
  "left n s = concat (take n (chunks s))"

definition old_sent_row :: "instant \<Rightarrow> old_delivery \<Rightarrow> old_delivery" where
  "old_sent_row now d =
     d\<lparr>l_status := OldSent, l_sent_at := Some now, l_error := None, l_updated := now\<rparr>"

definition old_failed_row :: "instant \<Rightarrow> string \<Rightarrow> old_delivery \<Rightarrow> old_delivery" where
  "old_failed_row now reason d =
     d\<lparr>l_status := OldFailed, l_error := Some (left 2000 reason), l_updated := now\<rparr>"

definition old_retry_row :: "instant \<Rightarrow> instant \<Rightarrow> string \<Rightarrow> old_delivery \<Rightarrow> old_delivery" where
  "old_retry_row now availableAt reason d =
     d\<lparr>l_status := OldPending, l_available := to_micros availableAt,
       l_error := Some (left 2000 reason), l_updated := now\<rparr>"

definition MarkDeliverySent :: "outcome \<Rightarrow> instant \<Rightarrow> uuid \<Rightarrow> ldb \<Rightarrow> (goerr + unit) \<times> ldb" where
  "MarkDeliverySent oc now i =
     update_processing oc ''mark notification delivery as sent'' i (old_sent_row now)"

definition MarkDeliveryFailed :: "outcome \<Rightarrow> instant \<Rightarrow> uuid \<Rightarrow> string \<Rightarrow> ldb \<Rightarrow> (goerr + unit) \<times> ldb" where
  "MarkDeliveryFailed oc now i reason s =
     (if \<not> pg_text reason then (Inl (wrap_err ''mark notification delivery as failed'' bad_text), s)
      else update_processing oc ''mark notification delivery as failed'' i (old_failed_row now reason) s)"

definition ScheduleDeliveryRetry ::
  "outcome \<Rightarrow> instant \<Rightarrow> uuid \<Rightarrow> instant \<Rightarrow> string \<Rightarrow> ldb \<Rightarrow> (goerr + unit) \<times> ldb" where
  "ScheduleDeliveryRetry oc now i availableAt reason s =
     (if \<not> pg_text reason then (Inl (wrap_err ''schedule notification delivery retry'' bad_text), s)
      else update_processing oc ''schedule notification delivery retry'' i (old_retry_row now availableAt reason) s)"

definition stale :: "instant \<Rightarrow> old_delivery \<Rightarrow> bool" where
  "stale staleBefore d \<longleftrightarrow> l_status d = OldProcessing \<and> l_updated d < to_micros staleBefore"

definition old_requeue_row :: "instant \<Rightarrow> old_delivery \<Rightarrow> old_delivery" where
  "old_requeue_row now d =
     d\<lparr>l_status := OldPending, l_available := now, l_error := Some ''processing lease expired'',
       l_updated := now\<rparr>"

definition RequeueStaleDeliveries :: "outcome \<Rightarrow> instant \<Rightarrow> instant \<Rightarrow> ldb \<Rightarrow> (goerr + nat) \<times> ldb" where
  "RequeueStaleDeliveries oc now staleBefore s =
     (case autocommit oc
        (\<lambda>s. Inr (affected (stale staleBefore) (l_deliveries s),
                  s\<lparr>l_deliveries := upd (stale staleBefore) (old_requeue_row now) (l_deliveries s)\<rparr>)) s of
        (Inl e, s') \<Rightarrow> (Inl (wrap_err ''requeue notification deliveries'' e), s')
      | (Inr n, s') \<Rightarrow> (Inr n, s'))"

section \<open>The worker\<close>

record 's old_repo =
  rp_expand :: "int \<Rightarrow> 's \<Rightarrow> (goerr + nat) \<times> 's"
  rp_claim :: "int \<Rightarrow> 's \<Rightarrow> (goerr + delivery_task list) \<times> 's"
  rp_sent :: "uuid \<Rightarrow> 's \<Rightarrow> (goerr + unit) \<times> 's"
  rp_retry :: "uuid \<Rightarrow> instant \<Rightarrow> string \<Rightarrow> 's \<Rightarrow> (goerr + unit) \<times> 's"
  rp_failed :: "uuid \<Rightarrow> string \<Rightarrow> 's \<Rightarrow> (goerr + unit) \<times> 's"
  rp_requeue :: "instant \<Rightarrow> 's \<Rightarrow> (goerr + nat) \<times> 's"

record old_config =
  PollInterval :: duration
  BatchSize :: int
  Concurrency :: int
  SendTimeout :: duration
  LeaseTimeout :: duration
  RequeueInterval :: duration

definition DefaultConfig :: old_config where
  "DefaultConfig =
     \<lparr>PollInterval = int64 Second, BatchSize = 50, Concurrency = 5, SendTimeout = int64 (15 * Second),
      LeaseTimeout = int64 (5 * Minute), RequeueInterval = int64 Minute\<rparr>"

record 's old_worker =
  ow_repository :: "'s old_repo"
  ow_senders :: registry
  ow_retry :: policy
  ow_config :: old_config

definition validateConfig :: "old_config \<Rightarrow> goerr option" where
  "validateConfig c =
     (if sint (PollInterval c) \<le> 0 then Some (plain_err ''notification poll interval must be greater than zero'')
      else if BatchSize c \<le> 0 then Some (plain_err ''notification batch size must be greater than zero'')
      else if Concurrency c \<le> 0 then Some (plain_err ''notification concurrency must be greater than zero'')
      else if sint (SendTimeout c) \<le> 0 then Some (plain_err ''notification send timeout must be greater than zero'')
      else if sint (LeaseTimeout c) \<le> 0 then Some (plain_err ''notification lease timeout must be greater than zero'')
      else if sint (RequeueInterval c) \<le> 0 then
        Some (plain_err ''notification requeue interval must be greater than zero'')
      else None)"

definition New_worker ::
  "'s old_repo option \<Rightarrow> registry option \<Rightarrow> policy option \<Rightarrow> old_config \<Rightarrow> goerr + 's old_worker" where
  "New_worker repository senders retryPolicy config =
     (case repository of
        None \<Rightarrow> Inl (plain_err ''notification repository must not be nil'')
      | Some repo \<Rightarrow>
      case senders of
        None \<Rightarrow> Inl (plain_err ''notification sender registry must not be nil'')
      | Some reg \<Rightarrow>
      case retryPolicy of
        None \<Rightarrow> Inl (plain_err ''notification retry policy must not be nil'')
      | Some pol \<Rightarrow>
      case validateConfig config of
        Some e \<Rightarrow> Inl e
      | None \<Rightarrow> Inr \<lparr>ow_repository = repo, ow_senders = reg, ow_retry = pol, ow_config = config\<rparr>)"

text \<open>
  \<open>err_text\<close> is \<open>Error()\<close>, the text of an error; \<open>clock\<close> is \<open>w.now()\<close>. What a
  context and the random generator return around the sending of a task is its \<open>chance\<close>, as for
  the worker of \<open>PipelineWorker\<close>.
\<close>

definition processTask ::
  "(goerr \<Rightarrow> string) \<Rightarrow> 's old_worker \<Rightarrow> chance \<Rightarrow> instant \<Rightarrow> delivery_task \<Rightarrow> 's \<Rightarrow> goerr option \<times> 's" where
  "processTask err_text w ch clock t s =
     (let i = dl_id (dt_delivery t); repo = ow_repository w in
      case Registry_Get (ow_senders w) (ch_type (dl_channel (dt_delivery t))) of
        Inl e \<Rightarrow> map_prod err_of id (rp_failed repo i (err_text e) s)
      | Inr channelSender \<Rightarrow>
          (case channelSender (dt_message t) of
             None \<Rightarrow> map_prod err_of id (rp_sent repo i s)
           | Some sendErr \<Rightarrow>
               (case ctx1 ch of
                  Some e \<Rightarrow> (Some e, s)
                | None \<Rightarrow>
                    let (delay, shouldRetry) =
                          NextDelay (impl ch) (rv ch) (Some (ow_retry w)) (Some (ctx2 ch))
                            (dl_attempts (dt_delivery t)) (Some sendErr)
                    in if shouldRetry
                       then map_prod err_of id (rp_retry repo i (clock + sint delay) (err_text sendErr) s)
                       else map_prod err_of id (rp_failed repo i (err_text sendErr) s))))"

text \<open>
  The goroutines of \<open>processTasks\<close> take the tasks in order, a prefix of them when the context
  ends while they are handed out, and each ends with at most one call of the repository. The run
  is the list of the tasks in the order of those calls, by their index, with what they meet.
\<close>

record job =
  jb_task :: nat
  jb_chance :: chance
  jb_clock :: instant

definition jobs_of :: "bool \<Rightarrow> nat \<Rightarrow> job list \<Rightarrow> bool" where
  \<comment> \<open>the runs of \<open>n\<close> tasks; \<open>ended\<close>: the context ends while tasks are handed out\<close>
  "jobs_of ended n jobs \<longleftrightarrow>
     distinct (map jb_task jobs) \<and> set (map jb_task jobs) = {..<length jobs} \<and> length jobs \<le> n \<and>
     (\<not> ended \<longrightarrow> length jobs = n)"

fun run_jobs ::
  "(goerr \<Rightarrow> string) \<Rightarrow> 's old_worker \<Rightarrow> delivery_task list \<Rightarrow> job list \<Rightarrow> 's \<Rightarrow> goerr list \<times> 's" where
  "run_jobs err_text w tasks [] s = ([], s)"
| "run_jobs err_text w tasks (j # jobs) s =
     (case processTask err_text w (jb_chance j) (jb_clock j) (tasks ! jb_task j) s of
        (err, s1) \<Rightarrow>
          (case run_jobs err_text w tasks jobs s1 of
             (errs, s2) \<Rightarrow>
               ((case err of None \<Rightarrow> errs | Some e \<Rightarrow> wrap_err ''process notification delivery'' e # errs), s2)))"

definition processTasks ::
  "(goerr \<Rightarrow> string) \<Rightarrow> 's old_worker \<Rightarrow> goerr option \<Rightarrow> job list \<Rightarrow> delivery_task list \<Rightarrow> 's \<Rightarrow>
   goerr option \<times> 's" where
  \<comment> \<open>\<open>ctx_err\<close> is what \<open>ctx.Err()\<close> returns at the end\<close>
  "processTasks err_text w ctx_err jobs tasks s =
     (if tasks = [] then (None, s)
      else
        (case run_jobs err_text w tasks jobs s of
           (errs, s') \<Rightarrow>
             let resultErr = foldl (\<lambda>r e. errors_join [r, Some e]) None errs in
             (case ctx_err of None \<Rightarrow> resultErr | Some e \<Rightarrow> errors_join [resultErr, Some e], s')))"

record batch =
  bt_ctx :: "goerr option"          \<comment> \<open>after the events have been expanded\<close>
  bt_jobs :: "job list"
  bt_ctx_end :: "goerr option"

definition processBatch :: "(goerr \<Rightarrow> string) \<Rightarrow> 's old_worker \<Rightarrow> batch \<Rightarrow> 's \<Rightarrow> goerr option \<times> 's" where
  "processBatch err_text w b s =
     (case rp_expand (ow_repository w) (BatchSize (ow_config w)) s of
        (expanded, s1) \<Rightarrow>
          let batchErr = (case expanded of
                Inl e \<Rightarrow> errors_join [None, Some (wrap_err ''expand notification outbox events'' e)]
              | Inr _ \<Rightarrow> None)
          in (case bt_ctx b of
                Some e \<Rightarrow> (errors_join [batchErr, Some e], s1)
              | None \<Rightarrow>
                  (case rp_claim (ow_repository w) (BatchSize (ow_config w)) s1 of
                     (Inl e, s2) \<Rightarrow>
                       (errors_join [batchErr, Some (wrap_err ''claim notification deliveries'' e)], s2)
                   | (Inr tasks, s2) \<Rightarrow>
                       (case processTasks err_text w (bt_ctx_end b) (bt_jobs b) tasks s2 of
                          (err, s3) \<Rightarrow> (errors_join [batchErr, err], s3)))))"

definition requeueStale :: "'s old_worker \<Rightarrow> instant \<Rightarrow> 's \<Rightarrow> goerr option \<times> 's" where
  "requeueStale w clock s =
     map_prod err_of id (rp_requeue (ow_repository w) (clock - sint (LeaseTimeout (ow_config w))) s)"

text \<open>\<open>Run\<close>: the repository may answer differently in every round, so a round carries it.\<close>

datatype old_wake = OldCtxDone | OldPollTick | OldRequeueTick instant

record 's old_round =
  or_repo :: "'s old_repo"
  or_batch :: batch
  or_wake :: old_wake

fun old_loop :: "(goerr \<Rightarrow> string) \<Rightarrow> 's old_worker \<Rightarrow> 's old_round list \<Rightarrow> 's \<Rightarrow> 's" where
  "old_loop err_text w [] s = s"
| "old_loop err_text w (r # rs) s =
     (let w' = w\<lparr>ow_repository := or_repo r\<rparr>;
          s1 = snd (processBatch err_text w' (or_batch r) s)
      in case or_wake r of
           OldCtxDone \<Rightarrow> s1
         | OldPollTick \<Rightarrow> old_loop err_text w rs s1
         | OldRequeueTick clock \<Rightarrow> old_loop err_text w rs (snd (requeueStale w' clock s1)))"

definition Legacy_Run ::
  "(goerr \<Rightarrow> string) \<Rightarrow> 's old_worker \<Rightarrow> ctx option \<Rightarrow> instant \<Rightarrow> 's old_round list \<Rightarrow> 's \<Rightarrow> goerr option \<times> 's" where
  "Legacy_Run err_text w ctx0 clock rs s =
     (case ctx0 of
        None \<Rightarrow> (Some (plain_err ''notification worker context must not be nil''), s)
      | Some (Some _) \<Rightarrow> (None, s)
      | Some None \<Rightarrow> (None, old_loop err_text w rs (snd (requeueStale w clock s))))"

section \<open>The repository of the worker\<close>

record old_calls =
  oc_expand :: "(nat \<Rightarrow> outcome) \<times> instant \<times> (uuid \<times> uuid \<times> uuid \<Rightarrow> uuid) \<times> (uuid \<Rightarrow> bool)"
  oc_claim :: "outcome \<times> instant \<times> (uuid \<Rightarrow> bool)"
  oc_mark :: "uuid \<Rightarrow> outcome \<times> instant"
  oc_requeue :: "outcome \<times> instant"

definition pg_old :: "old_calls \<Rightarrow> ldb old_repo" where
  "pg_old c =
     \<lparr>rp_expand = (case oc_expand c of (oc, now, fresh, locked) \<Rightarrow> ExpandPostCreatedEvents oc now fresh locked),
      rp_claim = (case oc_claim c of (oc, now, locked) \<Rightarrow> ClaimDeliveries oc now locked),
      rp_sent = (\<lambda>i. MarkDeliverySent (fst (oc_mark c i)) (snd (oc_mark c i)) i),
      rp_retry = (\<lambda>i. ScheduleDeliveryRetry (fst (oc_mark c i)) (snd (oc_mark c i)) i),
      rp_failed = (\<lambda>i. MarkDeliveryFailed (fst (oc_mark c i)) (snd (oc_mark c i)) i),
      rp_requeue = RequeueStaleDeliveries (fst (oc_requeue c)) (snd (oc_requeue c))\<rparr>"

section \<open>The invariant of the deliveries\<close>

definition old_ok :: "ldb \<Rightarrow> bool" where
  "old_ok s \<longleftrightarrow> distinct (map l_id (l_deliveries s)) \<and> distinct (map old_key (l_deliveries s)) \<and>
     (\<forall>d \<in> set (l_deliveries s). 0 \<le> l_attempts d \<and>
        (l_status d \<in> {OldProcessing, OldSent} \<longrightarrow> 0 < l_attempts d) \<and>
        (l_status d = OldSent \<longrightarrow> l_sent_at d \<noteq> None))"

lemma old_ok_upd:
  assumes ok: "old_ok s"
    and f: "\<And>d. P d \<Longrightarrow> l_id (f d) = l_id d \<and> old_key (f d) = old_key d"
    and c: "\<And>d. d \<in> set (l_deliveries s) \<Longrightarrow> P d \<Longrightarrow> 0 \<le> l_attempts (f d) \<and>
      (l_status (f d) \<in> {OldProcessing, OldSent} \<longrightarrow> 0 < l_attempts (f d)) \<and>
      (l_status (f d) = OldSent \<longrightarrow> l_sent_at (f d) \<noteq> None)"
  shows "old_ok (s\<lparr>l_deliveries := upd P f (l_deliveries s)\<rparr>)"
proof -
  have "map l_id (upd P f (l_deliveries s)) = map l_id (l_deliveries s)"
    "map old_key (upd P f (l_deliveries s)) = map old_key (l_deliveries s)"
    using f by (auto intro!: map_upd)
  moreover have "0 \<le> l_attempts d \<and> (l_status d \<in> {OldProcessing, OldSent} \<longrightarrow> 0 < l_attempts d) \<and>
      (l_status d = OldSent \<longrightarrow> l_sent_at d \<noteq> None)" if "d \<in> set (upd P f (l_deliveries s))" for d
    using that c ok unfolding old_ok_def by (elim set_updE) auto
  ultimately show ?thesis using ok by (simp add: old_ok_def)
qed

lemma insert_old_Cons:
  "insert_old now fresh (k # keys) ds =
     insert_old now fresh keys (if k \<in> old_key ` set ds then ds else ds @ [new_old_delivery now fresh k])"
  by (simp add: insert_old_def)

lemma insert_old_Nil [simp]: "insert_old now fresh [] ds = ds"
  by (simp add: insert_old_def)

lemma old_key_new [simp]: "old_key (new_old_delivery now fresh k) = k"
  by (simp add: old_key_def new_old_delivery_def)

lemma insert_old_keys: "old_key ` set (insert_old now fresh keys ds) = old_key ` set ds \<union> set keys"
  by (induction keys arbitrary: ds) (auto simp: insert_old_Cons)

lemma insert_old_distinct:
  "distinct (map old_key ds) \<Longrightarrow> distinct (map old_key (insert_old now fresh keys ds))"
  by (induction keys arbitrary: ds) (auto simp: insert_old_Cons)

lemma insert_old_append:
  "\<exists>new. insert_old now fresh keys ds = ds @ new \<and>
     (\<forall>d \<in> set new. \<exists>k \<in> set keys. d = new_old_delivery now fresh k)"
proof (induction keys arbitrary: ds)
  case (Cons k keys)
  let ?new = "if k \<in> old_key ` set ds then [] else [new_old_delivery now fresh k]"
  obtain new where new: "insert_old now fresh keys (ds @ ?new) = (ds @ ?new) @ new"
    "\<forall>d \<in> set new. \<exists>k \<in> set keys. d = new_old_delivery now fresh k"
    using Cons.IH by blast
  have "insert_old now fresh (k # keys) ds = insert_old now fresh keys (ds @ ?new)"
    by (simp add: insert_old_Cons)
  then show ?case using new by (intro exI [of _ "?new @ new"]) auto
qed simp

lemma ExpandPostCreatedEvents_state:
  assumes "ExpandPostCreatedEvents oc now fresh locked limit s = (r, s')"
  shows "s' = s \<or> (\<exists>n. expand_stmt now fresh locked (nat limit) s = Inr (n, s'))"
  using assms
  by (auto simp: ExpandPostCreatedEvents_def split: sum.splits prod.splits if_splits dest!: commit_stateD)

lemma ExpandPostCreatedEvents_old_ok:
  assumes ok: "old_ok s" and res: "ExpandPostCreatedEvents oc now fresh locked limit s = (r, s')"
  shows "old_ok s'"
proof -
  have "old_ok s'" if "expand_stmt now fresh locked (nat limit) s = Inr (n, s')" for n
  proof -
    let ?ds = "insert_old now fresh (created_deliveries (claimed_events now (nat limit) locked s) s) (l_deliveries s)"
    have d: "l_deliveries s' = ?ds" "distinct (map l_id ?ds)"
      using that by (auto simp: expand_stmt_def Let_def split: if_splits)
    obtain new where "?ds = l_deliveries s @ new" "\<forall>d \<in> set new. \<exists>k. d = new_old_delivery now fresh k"
      using insert_old_append by blast
    then have "\<forall>d \<in> set ?ds. 0 \<le> l_attempts d \<and> (l_status d \<in> {OldProcessing, OldSent} \<longrightarrow> 0 < l_attempts d) \<and>
        (l_status d = OldSent \<longrightarrow> l_sent_at d \<noteq> None)"
      using ok by (auto simp: old_ok_def new_old_delivery_def)
    then show ?thesis
      using d ok insert_old_distinct unfolding old_ok_def by simp
  qed
  then show ?thesis using ExpandPostCreatedEvents_state [OF res] ok by blast
qed

lemma old_claim_stmt_ok: "old_ok s \<Longrightarrow> old_ok (snd (old_claim_stmt now locked n s))"
  unfolding old_claim_stmt_def Let_def snd_conv
  by (rule old_ok_upd) (auto simp: old_claim_row_def old_key_def old_ok_def)

lemma ClaimDeliveries_old_ok:
  assumes ok: "old_ok s" and res: "ClaimDeliveries oc now locked limit s = (r, s')"
  shows "old_ok s'"
proof -
  have "s' = s \<or> s' = snd (old_claim_stmt now locked (nat limit) s)"
    using res
    by (auto simp: ClaimDeliveries_def autocommit_def split: outcome.splits sum.splits prod.splits if_splits)
  then show ?thesis using ok old_claim_stmt_ok by auto
qed

lemma update_processing_state:
  assumes "update_processing oc operation i f s = (r, s')"
  shows "s' = s \<or> s' = s\<lparr>l_deliveries := upd (processing_row i) f (l_deliveries s)\<rparr>"
  using assms by (auto simp: update_processing_def autocommit_def split: outcome.splits prod.splits sum.splits)

lemma update_processing_old_ok:
  assumes ok: "old_ok s" and res: "update_processing oc operation i f s = (r, s')"
    and f: "\<And>d. l_id (f d) = l_id d" "\<And>d. old_key (f d) = old_key d" "\<And>d. l_attempts (f d) = l_attempts d"
      "\<And>d. l_status (f d) = OldSent \<Longrightarrow> l_sent_at (f d) \<noteq> None"
  shows "old_ok s'"
proof -
  have "old_ok (s\<lparr>l_deliveries := upd (processing_row i) f (l_deliveries s)\<rparr>)"
    using ok f by (intro old_ok_upd [OF ok]) (auto simp: processing_row_def old_ok_def)
  then show ?thesis using update_processing_state [OF res] ok by auto
qed

lemmas old_row_defs = old_sent_row_def old_failed_row_def old_retry_row_def old_requeue_row_def old_claim_row_def

lemma mark_old_ok:
  "old_ok s \<Longrightarrow> MarkDeliverySent oc now i s = (r, s') \<Longrightarrow> old_ok s'"
  "old_ok s \<Longrightarrow> MarkDeliveryFailed oc now i reason s = (r, s') \<Longrightarrow> old_ok s'"
  "old_ok s \<Longrightarrow> ScheduleDeliveryRetry oc now i t reason s = (r, s') \<Longrightarrow> old_ok s'"
  by (auto simp: MarkDeliverySent_def MarkDeliveryFailed_def ScheduleDeliveryRetry_def old_row_defs old_key_def
      split: if_splits elim: update_processing_old_ok)

lemma RequeueStaleDeliveries_old_ok:
  assumes ok: "old_ok s" and res: "RequeueStaleDeliveries oc now t s = (r, s')"
  shows "old_ok s'"
proof -
  have "old_ok (s\<lparr>l_deliveries := upd (stale t) (old_requeue_row now) (l_deliveries s)\<rparr>)"
    using ok by (intro old_ok_upd [OF ok]) (auto simp: old_requeue_row_def old_key_def old_ok_def)
  moreover have "s' = s \<or> s' = s\<lparr>l_deliveries := upd (stale t) (old_requeue_row now) (l_deliveries s)\<rparr>"
    using res by (auto simp: RequeueStaleDeliveries_def autocommit_def split: outcome.splits prod.splits sum.splits)
  ultimately show ?thesis using ok by auto
qed

section \<open>A batch settles what it claims\<close>

definition settles :: "uuid \<Rightarrow> ldb \<Rightarrow> ldb \<Rightarrow> bool" where
  \<comment> \<open>the delivery is not left in processing, and no other one gets there\<close>
  "settles i s s' \<longleftrightarrow>
     (\<forall>d \<in> set (l_deliveries s'). l_status d = OldProcessing \<longrightarrow> d \<in> set (l_deliveries s) \<and> l_id d \<noteq> i)"

lemma update_processing_settles:
  assumes "update_processing Applied operation i f s = (r, s')" "\<And>d. l_status (f d) \<noteq> OldProcessing"
  shows "settles i s s'"
proof -
  have "s' = s\<lparr>l_deliveries := upd (processing_row i) f (l_deliveries s)\<rparr>"
    using assms(1) by (auto simp: update_processing_def autocommit_def split: prod.splits sum.splits)
  then show ?thesis
    using assms(2) unfolding settles_def by (auto elim!: set_updE simp: processing_row_def)
qed

lemma mark_settles:
  assumes "pg_text reason"
  shows "MarkDeliverySent Applied now i s = (r, s') \<Longrightarrow> settles i s s'"
    "MarkDeliveryFailed Applied now i reason s = (r, s') \<Longrightarrow> settles i s s'"
    "ScheduleDeliveryRetry Applied now i t reason s = (r, s') \<Longrightarrow> settles i s s'"
  using assms
  by (auto simp: MarkDeliverySent_def MarkDeliveryFailed_def ScheduleDeliveryRetry_def old_row_defs
      elim!: update_processing_settles)

lemma processTask_settles:
  assumes "processTask err_text w ch clock t s = (e, s')" "ow_repository w = pg_old c"
    "\<And>i. fst (oc_mark c i) = Applied" "\<And>e. pg_text (err_text e)" "ctx1 ch = None"
  shows "settles (dl_id (dt_delivery t)) s s'"
  using assms(1,2,3,5) mark_settles [OF assms(4)]
  by (auto simp: processTask_def pg_old_def Let_def map_prod_def split: sum.splits option.splits prod.splits if_splits)

lemma run_jobs_settles:
  assumes "run_jobs err_text w tasks jobs s = (errs, s')" "ow_repository w = pg_old c"
    "\<And>i. fst (oc_mark c i) = Applied" "\<And>e. pg_text (err_text e)" "\<forall>j \<in> set jobs. ctx1 (jb_chance j) = None"
    "d \<in> set (l_deliveries s')" "l_status d = OldProcessing"
  shows "d \<in> set (l_deliveries s) \<and> (\<forall>j \<in> set jobs. l_id d \<noteq> dl_id (dt_delivery (tasks ! jb_task j)))"
  using assms(1,5)
proof (induction jobs arbitrary: s errs)
  case Nil
  then show ?case using assms(6) by simp
next
  case (Cons j jobs)
  obtain e s1 where p: "processTask err_text w (jb_chance j) (jb_clock j) (tasks ! jb_task j) s = (e, s1)"
    by fastforce
  obtain errs1 where r: "run_jobs err_text w tasks jobs s1 = (errs1, s')"
    using Cons.prems(1) p by (auto split: prod.splits)
  have d1: "d \<in> set (l_deliveries s1)" "\<forall>j \<in> set jobs. l_id d \<noteq> dl_id (dt_delivery (tasks ! jb_task j))"
    using Cons.IH [OF r] Cons.prems(2) by auto
  have "settles (dl_id (dt_delivery (tasks ! jb_task j))) s s1"
    using processTask_settles [OF p assms(2,3,4)] Cons.prems(2) by simp
  then show ?case using d1 assms(7) by (auto simp: settles_def)
qed

lemma jobs_of_all:
  assumes "jobs_of False n jobs" "i < n"
  shows "\<exists>j \<in> set jobs. jb_task j = i"
proof -
  have "i \<in> set (map jb_task jobs)" using assms by (simp add: jobs_of_def)
  then show ?thesis by auto
qed

end
