(* ===== verification/ServiceProps.thy ===== *)
theory ServiceProps
  imports Services Gateway ApiHandlers Rss Legacy EndToEnd
begin

text \<open>
  Properties of the two APIs: tokens and their verification, and the separation of the users of the
  notification API.
\<close>

section \<open>Tokens\<close>


text \<open>A library that signs one token.\<close>

definition toy_jwt :: "string \<Rightarrow> jwt_header \<Rightarrow> jwt_claims \<Rightarrow> jwt_lib" where
  "toy_jwt priv h c =
     \<lparr>jwt_sign = (\<lambda>k h' c'. if k = priv \<and> h' = h \<and> c' = c then Inr ''token'' else Inl (plain_err ''sign'')),
      jwt_signed = (\<lambda>k v. if v = ''token'' \<and> k = take 32 priv then Some (h, c) else None),
      jwt_header_of = (\<lambda>v. if v = ''token'' then Some h else None),
      jwt_parse = (\<lambda>opts now kf v.
        if v = ''token'' \<and> kf h = Some (take 32 priv) \<and> jh_alg h \<in> set (jo_methods opts) \<and> claims_valid opts now c
        then Some c else None),
      public_of = take 32\<rparr>"


definition demo_key :: string where "demo_key = replicate 64 CHR ''k''"




definition demo_verifier :: "string \<Rightarrow> verifier" where
  "demo_verifier aud = \<lparr>vf_key = take 32 demo_key, vf_keyID = ''x'', vf_issuer = ''x'', vf_audience = aud\<rparr>"

definition demo_jwt :: jwt_lib where
  "demo_jwt = toy_jwt demo_key \<lparr>jh_alg = EdDSA, jh_typ = accessTokenType, jh_kid = ''x''\<rparr>
     \<lparr>jc_issuer = ''x'', jc_subject = uuid_text demo_lib 7, jc_audience = [AudienceAPI, AudienceNotifications],
      jc_id = uuid_text demo_lib 9, jc_issuedAt = Some 0, jc_notBefore = Some 0,
      jc_expiresAt = Some (900 * Second)\<rparr>"

lemma demo_trims [simp]:
  "TrimSpace ''priv'' = ''priv''" "TrimSpace ''pub'' = ''pub''" "TrimSpace ''x'' = ''x''"
  "TrimSpace AudienceAPI = AudienceAPI" "TrimSpace AudienceNotifications = AudienceNotifications"
  by (simp_all add: trim_eval AudienceAPI_def AudienceNotifications_def)


lemma audiences_nonempty [simp]: "AudienceAPI \<noteq> []" "AudienceNotifications \<noteq> []"
  by (simp_all add: AudienceAPI_def AudienceNotifications_def)







lemma demo_verify: "Verify demo_jwt demo_lib (demo_verifier AudienceNotifications) 5 ''token'' = Inr 7"
  using demo_uuid [of 7] demo_uuid [of 9]
  by (simp add: Verify_Inr demo_jwt_def toy_jwt_def demo_verifier_def key_function_def verify_options_def
      claims_valid_def time_unit_defs)


section \<open>The users of the notification API\<close>

text \<open>C24: users are kept apart: whatever request reaches the notification API, the channels and deliveries of
  a user change only when the request carries a bearer token that verifies as this very user.\<close>

theorem users_isolated:
  assumes "user_view u (snd (Router L (Some (pg_repo oc now)) new_id (Some (Verify J L v clock)) r w s)) \<noteq> user_view u s"
  shows "\<exists>credential. AuthorizationCredential r ''Bearer'' = Some credential \<and> Verify J L v clock credential = Inr u"
  using Router_other [OF assms] by auto

definition demo_request :: request where
  "demo_request =
     \<lparr>rq_method = ''DELETE'', rq_path = ''/v1/notification-channel/1'', rq_authorization = [''Bearer token''],
      rq_path_value = '''', rq_query = (\<lambda>_. ''''), rq_user = None, rq_body = ('''', None)\<rparr>"

theorem users_isolated_witness:
  "user_view 7 (snd (Router demo_lib (Some (pg_repo (\<lambda>_. Applied) 5)) 1
       (Some (Verify demo_jwt demo_lib (demo_verifier AudienceNotifications) 5)) demo_request new_writer db1)) \<noteq>
     user_view 7 db1 \<and>
   (\<exists>credential. AuthorizationCredential demo_request ''Bearer'' = Some credential \<and>
     Verify demo_jwt demo_lib (demo_verifier AudienceNotifications) 5 credential = Inr 7)"
proof -
  have a: "AuthorizationCredential demo_request ''Bearer'' = Some ''token''"
    by (simp add: AuthorizationCredential_def demo_request_def Fields_def trim_eval EqualFold_def fold_equal_def)
  have p: "ParseInt 130 ''1'' = Some 1"
    by (simp add: ParseInt_def is_digit_def Let_def digit_val_def)
  have segs: "path_segments (rq_path demo_request) = [''v1'', ''notification-channel'', ''1'']"
    "rq_method demo_request = ''DELETE''"
    by (simp_all add: path_segments_def demo_request_def)
  have del: "DeleteChannel (\<lambda>_. Applied) 5 7 1 db1 = (Inr (), db1\<lparr>channels := []\<rparr>)"
    "user_view 7 (db1\<lparr>channels := []\<rparr>) \<noteq> user_view 7 db1"
    by (simp_all add: DeleteChannel_def delete_stmt_def cancel_stmt_def db1_def affected_def channel_row_of_def
        demo_channel_def commit_def user_view_def del_def)
  have "user_view 7 (snd (Router demo_lib (Some (pg_repo (\<lambda>_. Applied) 5)) 1
       (Some (Verify demo_jwt demo_lib (demo_verifier AudienceNotifications) 5)) demo_request new_writer db1)) \<noteq>
     user_view 7 db1"
    using a demo_verify p segs
    by (simp add: Router_def serve_mux_def RegisterRoutes_def Let_def method_ok_def Middleware_def
        Handler_DeleteChannel_def requestUserID_def requestChannelID_def UserIDFromContext_def storageReady_def
        pg_repo_def del)
  from this users_isolated [OF this] show ?thesis by simp
qed

end

