(* ===== verification/SenderProps.thy ===== *)
theory SenderProps
  imports Retry Telegram Email Demo
begin

text \<open>
  Properties of the two senders and of what the retry policy makes of their errors: what a reported
  success means, that a rate limit is respected, and that mail is confidential and well formed.
\<close>

section \<open>The senders\<close>

lemma formatMessage_text:
  assumes "formatMessage m = Inr t"
  shows "t \<noteq> [] \<and> runes t =
    take 4096 (runes (Join (filter (\<lambda>p. p \<noteq> '''') (map TrimSpace [Title m, Body m, URL m])) [CHR 0x0A, CHR 0x0A]))"
proof
  show "t \<noteq> []" by (rule formatMessage_Inr(1) [OF assms])
  let ?t = "Join (filter (\<lambda>p. p \<noteq> '''') (map TrimSpace [Title m, Body m, URL m])) [CHR 0x0A, CHR 0x0A]"
  have "t = (if maxMessageRunes < length (runes ?t)
      then string_of_runes (take maxMessageRunes (runes ?t)) else ?t)"
    using assms unfolding formatMessage_def Let_def by (metis Inl_Inr_False Inr_inject)
  then show "runes t = take 4096 (runes ?t)"
    by (simp add: runes_take maxMessageRunes_def)
qed

lemma Telegram_Send_None:
  assumes "Telegram_Send L (Some s) m = None"
  obtains do_request t resp where "client s = Some do_request" "formatMessage m = Inr t"
    "do_request \<lparr>Req_URL = TrimRight (apiBaseURL s) ''/'' @ ''/bot'' @ token s @ ''/sendMessage'',
       Req_ContentType = ''application/json'',
       Req_Body = json_text L (sendMessageRequest (TrimSpace (Recipient m)) t)\<rparr> = Inr (Some resp)"
    "telegram_result L resp = None" "TrimSpace (Recipient m) \<noteq> ''''"
  using assms
  by (auto simp: Telegram_Send_def telegram_request_def Let_def split: option.splits sum.splits if_splits)

text \<open>C35: a message counts as sent to Telegram only when the Bot API has answered the one request of the
  sender with a success and \<open>ok\<close>; that request goes to the bot's address and carries the
  recipient and the nonblank parts of the message, cut at 4096 runes and never empty.\<close>

theorem telegram_accepted:
  assumes "NewTelegram default_client tok c = Inr s" "Telegram_Send L (Some s) m = None"
  shows "\<exists>do_request t resp v r. client s = Some do_request \<and> t \<noteq> '''' \<and>
    runes t = take 4096 (runes (Join (filter (\<lambda>p. p \<noteq> '''') (map TrimSpace [Title m, Body m, URL m]))
      [CHR 0x0A, CHR 0x0A])) \<and>
    do_request \<lparr>Req_URL = ''https://api.telegram.org/bot'' @ TrimSpace tok @ ''/sendMessage'',
      Req_ContentType = ''application/json'',
      Req_Body = json_text L (JObj [(''chat_id'', JStr (TrimSpace (Recipient m))), (''text'', JStr t)])\<rparr> =
      Inr (Some resp) \<and>
    200 \<le> StatusCode resp \<and> StatusCode resp < 300 \<and>
    json_unmarshal L (fst (Resp_Body resp)) = Some v \<and>
    decode_struct response_fields False v zero_response = Some r \<and> OK r"
proof -
  from assms(2) obtain do_request t resp where
    r: "client s = Some do_request" "formatMessage m = Inr t"
    "do_request \<lparr>Req_URL = TrimRight (apiBaseURL s) ''/'' @ ''/bot'' @ token s @ ''/sendMessage'',
       Req_ContentType = ''application/json'',
       Req_Body = json_text L (sendMessageRequest (TrimSpace (Recipient m)) t)\<rparr> = Inr (Some resp)"
    "telegram_result L resp = None"
    by (rule Telegram_Send_None)
  have s: "apiBaseURL s = ''https://api.telegram.org''" "token s = TrimSpace tok"
    using assms(1) by (auto simp: NewTelegram_def defaultAPIBaseURL_def Let_def split: if_splits)
  have u: "TrimRight ''https://api.telegram.org'' ''/'' = ''https://api.telegram.org''"
    by (simp add: TrimRight_def)
  from r(4) obtain v x where "json_unmarshal L (fst (Resp_Body resp)) = Some v"
    "decode_struct response_fields False v zero_response = Some x" "OK x"
    "200 \<le> StatusCode resp" "StatusCode resp < 300"
    by (auto simp: telegram_result_None)
  then show ?thesis
    using r(1,3) formatMessage_text [OF r(2)] s u by (auto simp: sendMessageRequest_def)
qed

definition demo_ok :: http_response where
  "demo_ok = \<lparr>StatusCode = 200, Resp_Body = (enc (JObj [(''ok'', JBool True)]), None)\<rparr>"

definition demo_message :: message where
  "demo_message = \<lparr>Recipient = ''1'', Title = ''t'', Body = '''', URL = ''u''\<rparr>"

definition demo_bot :: tg_sender where
  "demo_bot = \<lparr>token = ''x'', client = Some (\<lambda>r. Inr (Some demo_ok)), apiBaseURL = ''https://api.telegram.org''\<rparr>"

lemma demo_ok_result: "telegram_result demo_lib demo_ok = None"
proof -
  have "length (enc (JObj [(''ok'', JBool True)])) \<le> maxResponseBytes"
    by (simp add: enc.simps maxResponseBytes_def)
  then show ?thesis
    by (simp add: telegram_result_None demo_ok_def response_fields_def member_simps bool_field_def zero_response_def
        del: enc.simps)
qed

lemma demo_bot_sends: "Telegram_Send demo_lib (Some demo_bot) demo_message = None"
  using demo_ok_result
  by (simp add: Telegram_Send_def telegram_request_def demo_bot_def demo_message_def formatMessage_def
      trim_eval Let_def TrimRight_def demo_url_def HasPrefix_def maxMessageRunes_def)

theorem telegram_accepted_witness:
  "\<exists>t. t \<noteq> '''' \<and> runes t = take 4096 (runes (''t'' @ [CHR 0x0A, CHR 0x0A] @ ''u''))"
  using telegram_accepted [of "\<lambda>_. Inl (plain_err '''')" "''x''" "client demo_bot" demo_bot demo_lib demo_message]
    demo_bot_sends
  by (auto simp: NewTelegram_def demo_bot_def demo_message_def trim_eval ContainsAny_def Let_def defaultAPIBaseURL_def)

text \<open>C29: when Telegram limits the rate, its wait is respected: the delivery is retried (while attempts are
  left), and not before the \<open>retry_after\<close> seconds of the answer are over, provided they fit in a
  \<open>time.Duration\<close>.\<close>

theorem rate_limit_respected:
  assumes resp: "StatusCode resp = 429" "snd (Resp_Body resp) = None"
    "length (fst (Resp_Body resp)) \<le> maxResponseBytes"
    and body: "json_unmarshal L (fst (Resp_Body resp)) = Some v"
    "decode_struct response_fields False v zero_response = Some r"
    and n: "0 \<le> RetryAfter r" "RetryAfter r * Second < 2 ^ 63"
    and attempt: "1 \<le> attempt" "attempt < 8" and rnd: "rnd \<noteq> NaN"
  shows "\<exists>e d. telegram_result L resp = Some e \<and>
    NextDelay conv rnd (Some default_policy) (Some None) attempt (Some e) = (d, True) \<and>
    RetryAfter r * Second \<le> sint d \<and> sint d \<le> max Hour (RetryAfter r * Second)"
proof -
  let ?c = "if ErrorCode r = 0 then 429 else ErrorCode r"
  let ?e = "GoErr (ApiError 429 ?c (Description r) (int64 (RetryAfter r) * int64 Second)) []"
  have e: "telegram_result L resp = Some ?e"
    using resp body by (simp add: telegram_result_def read_limited_def)
  have retry: "IsRetryable (Some ?e)"
    by (simp add: IsRetryable_def errors_as_def APIError_Retryable_def del: not_None_eq)
  have "sint (int64 (RetryAfter r) * int64 Second) = RetryAfter r * Second"
    using n sint_int64 [of "RetryAfter r * Second"] by (simp add: int64_def in_int64_def time_unit_defs)
  then have sug: "sint (SuggestedDelay (Some ?e)) = RetryAfter r * Second"
    using n(1) by (simp add: SuggestedDelay_def errors_as_def time_unit_defs del: not_None_eq)
  obtain d where d: "NextDelay conv rnd (Some default_policy) (Some None) attempt (Some ?e) = (d, True)"
    by (rule NextDelay_granted [of attempt default_policy ?e])
      (use attempt retry in \<open>simp_all add: default_policy_def\<close>)
  note v = NextDelay_value(1) [OF d]
  have m: "sint (maxDelay default_policy) = Hour" "0 < sint (baseDelay default_policy)"
    by (simp_all add: default_policy_def sint_default) (simp add: time_unit_defs)
  have "sint (withJitter conv rnd default_policy (exponentialDelay default_policy attempt)) \<le> Hour"
    using withJitter_bounds [OF default_policy_valid _ rnd, of "exponentialDelay default_policy attempt" conv]
      exponentialDelay_bounds [OF default_policy_valid attempt(1)] m default_jitter by fastforce
  then show ?thesis
    using e d v sug by (intro exI [of _ ?e] exI [of _ d]) (simp add: Let_def)
qed

definition demo_429 :: http_response where
  "demo_429 = \<lparr>StatusCode = 429,
     Resp_Body = (enc (JObj [(''ok'', JBool False), (''parameters'', JObj [(''retry_after'', JNum ''7200'')])]), None)\<rparr>"

lemma demo_429_body:
  "json_unmarshal demo_lib (fst (Resp_Body demo_429)) =
     Some (JObj [(''ok'', JBool False), (''parameters'', JObj [(''retry_after'', JNum ''7200'')])])"
  "length (fst (Resp_Body demo_429)) \<le> maxResponseBytes"
  unfolding demo_429_def by (simp_all add: maxResponseBytes_def del: enc.simps) (simp add: enc.simps)

lemma demo_429_decode:
  "decode_struct response_fields False
     (JObj [(''ok'', JBool False), (''parameters'', JObj [(''retry_after'', JNum ''7200'')])]) zero_response =
   Some (zero_response\<lparr>RetryAfter := 7200\<rparr>)"
  by (simp add: response_fields_def parameters_fields_def member_simps bool_field_def int_field_def zero_response_def
      ParseInt_def is_digit_def digit_val_def Let_def)

theorem rate_limit_respected_witness:
  "\<exists>e d. telegram_result demo_lib demo_429 = Some e \<and>
    NextDelay (\<lambda>_. 0) (Fin (1 / 2)) (Some default_policy) (Some None) 1 (Some e) = (d, True) \<and>
    7200 * Second \<le> sint d"
  using rate_limit_respected [OF _ _ demo_429_body(2,1) demo_429_decode, of 1 "Fin (1 / 2)" "\<lambda>_. 0"]
  by (fastforce simp: demo_429_def zero_response_def time_unit_defs)

text \<open>C33: mail is confidential: unless TLS is switched off in the configuration, no credentials, address or
  text leave the program before the server has accepted the switch to TLS.\<close>

theorem email_confidential:
  assumes "NewSMTPMailer config = Inr m" "cfg_TLSMode config \<noteq> TLSModeNone"
    and "fst (SMTPMailer_Send srv ctx_err m sender rs msg) = before @ c # rest" "confidential c"
  shows "\<exists>p s r. before = p @ s # r \<and> s \<in> {StartTLS, Handshake} \<and> srv p s = None"
proof -
  have "smtp_tlsMode m \<in> {TLSModeSTARTTLS, TLSModeImplicit}"
    using assms(1,2) by (auto simp: NewSMTPMailer_def Let_def split: if_splits)
  from SMTPMailer_Send_secured [OF this, of srv ctx_err sender rs msg] assms(3,4) show ?thesis
    unfolding confidential_secured_def secured_def by blast
qed

definition demo_mail_config :: email_config where
  "demo_mail_config =
     \<lparr>cfg_Host = ''h'', cfg_Port = 25, cfg_Username = ''u'', cfg_Password = ''p'', cfg_FromAddress = ''a'',
      cfg_FromName = ''n'', cfg_TLSMode = '''', cfg_Timeout = 0\<rparr>"

definition demo_mailer :: smtp_mailer where
  "demo_mailer = \<lparr>smtp_host = ''h'', smtp_port = 25, smtp_username = ''u'', smtp_password = ''p'',
     smtp_tlsMode = TLSModeSTARTTLS, smtp_timeout = defaultTimeout\<rparr>"

lemma demo_NewSMTPMailer: "NewSMTPMailer demo_mail_config = Inr demo_mailer"
  by (simp add: NewSMTPMailer_def demo_mail_config_def demo_mailer_def trim_eval ContainsAny_def TLSModeSTARTTLS_def
      defaultTimeout_def sint_int64 in_int64_def time_unit_defs)

lemma digits_25: "nat_digits 25 = ''25''"
  by code_simp

theorem email_confidential_witness:
  "\<exists>p s r. [Dial ''h:25'', SetDeadline, Greeting, Extension, StartTLS] = p @ s # r \<and> s \<in> {StartTLS, Handshake}"
  using email_confidential [OF demo_NewSMTPMailer, of "\<lambda>_ _. None" None "''a''" "[''b'']" "''t''"
      "[Dial ''h:25'', SetDeadline, Greeting, Extension, StartTLS]" "Auth ''u'' ''p''"]
  by (simp add: demo_mail_config_def demo_mailer_def SMTPMailer_Send_def smtp_do_def smtp_extension_def
      send_mail_def send_data_def JoinHostPort_def TLSModeNone_def TLSModeSTARTTLS_def TLSModeImplicit_def
      Itoa_def digits_25 Let_def)









text \<open>
  A server error whose body is not JSON (the page of a proxy in front of the Bot API, say) has no type
  that the retry policy knows: unlike the same status with a JSON body it is never retried.
\<close>

lemma non_json_server_error_permanent:
  assumes "500 \<le> StatusCode resp" "snd (Resp_Body resp) = None"
    "length (fst (Resp_Body resp)) \<le> maxResponseBytes" "json_unmarshal L (fst (Resp_Body resp)) = None"
  shows "\<exists>e. telegram_result L resp = Some e \<and> \<not> IsRetryable (Some e)"
  using assms
  by (simp add: telegram_result_def read_limited_def IsRetryable_def errors_as_def errors_is_def)

end
