(* ===== verification/BatchProps.thy ===== *)
theory BatchProps
  imports ApiHandlers Rss Legacy Gateway EndToEnd
begin

text \<open>
  Properties of the rest of the monolith: the cached first page of the feeds, a batch of the RSS
  worker under every interleaving, a batch of the first delivery pipeline, and the gateway in front.
\<close>

section \<open>The cached page\<close>











section \<open>A batch of feeds\<close>

lemma run_schedule_Scraped:
  assumes "run_schedule R db sched gs s = (gs', s')" "i < length gs" "g_state (gs ! i) = Scraped n e"
  shows "g_state (gs' ! i) = Scraped n e"
  using assms
proof (induction sched arbitrary: gs s)
  case (Cons j sched)
  obtain st s1 where st:
    "scrape_step R db (g_ctx (gs ! j)) (g_ids (gs ! j)) (g_feed (gs ! j)) (g_state (gs ! j)) s = (st, s1)"
    by fastforce
  have keep: "i = j \<Longrightarrow> st = Scraped n e \<and> s1 = s" using Cons.prems(3) st by simp
  show ?case
  proof (cases "j < length gs")
    case True
    have "run_schedule R db sched (gs[j := (gs ! j)\<lparr>g_state := st\<rparr>]) s1 = (gs', s')"
      using Cons.prems(1) True st by simp
    then show ?thesis
      by (rule Cons.IH) (use Cons.prems(2,3) keep in \<open>cases "i = j"; simp\<close>)+
  next
    case False
    then show ?thesis using Cons.IH [of gs s] Cons.prems by simp
  qed
qed simp

text \<open>C30: a batch of the RSS worker ends and loses no item, however the downloads and statements of its
  goroutines interleave: once every goroutine has had a turn for each item of its document and one
  more, all have finished, and every usable item of a feed that reports no error has its post in the
  database, which keeps its constraints.\<close>

theorem feeds_batch_complete:
  assumes "mdb_ok s" "GetNextFeedsToFetch (pc_next c) n s = Inr fds"
    and "fetchBatch R (pg_feeds L c) get ctx ids sched n s = (err, gs, s')"
    and turns: "\<And>i. i < length fds \<Longrightarrow>
      (case download R get (fds ! i) of Inl e \<Rightarrow> 0 | Inr items \<Rightarrow> Suc (length items)) \<le> count_list sched i"
  shows "err = None \<and> length gs = length fds \<and> mdb_ok s' \<and>
    (\<forall>i < length fds. \<exists>k e. g_state (gs ! i) = Scraped k e \<and>
      (e = None \<longrightarrow> (\<exists>items. download R get (fds ! i) = Inr items \<and>
        (\<forall>item \<in> set items. \<forall>j p. post_of_item R (f_id (fds ! i)) j item = Some p \<longrightarrow> has_post (p_url p) s'))))"
proof -
  let ?gs = "map (start_scraper R get ctx ids) fds"
  let ?items = "\<lambda>fd. case download R get fd of Inl e \<Rightarrow> [] | Inr items \<Rightarrow> items"
  have run: "run_schedule R (pg_feeds L c) sched ?gs s = (gs, s')" "err = None"
    using assms(2,3) by (auto simp: fetchBatch_def pg_feeds_def split: prod.splits)
  have len: "length gs = length fds" using run_schedule_turns [OF run(1)] by simp
  have "list_all2 (\<lambda>g items. pgf.scraper_ok R (g_feed g) items (g_state g) s) ?gs (map ?items fds)"
    using pgf.start_scraper_ok [of R _ get ctx ids s]
    by (simp add: list_all2_conv_all_nth) (simp add: start_scraper_def)
  from pgf.run_schedule_ok [OF run(1) this] have ok: "i < length fds \<Longrightarrow>
      pgf.scraper_ok R (g_feed (gs ! i)) (?items (fds ! i)) (g_state (gs ! i)) s'" for i
    by (simp add: list_all2_conv_all_nth len)
  have "\<exists>k e. g_state (gs ! i) = Scraped k e \<and>
      (e = None \<longrightarrow> (\<exists>items. download R get (fds ! i) = Inr items \<and>
        (\<forall>item \<in> set items. \<forall>j p. post_of_item R (f_id (fds ! i)) j item = Some p \<longrightarrow> has_post (p_url p) s')))"
    if i: "i < length fds" for i
  proof (cases "download R get (fds ! i)")
    case (Inl x)
    then have "g_state (?gs ! i) = Scraped 0 (Some x)" using i by (simp add: start_scraper_def)
    then show ?thesis using run_schedule_Scraped [OF run(1), of i] i by simp
  next
    case (Inr items)
    have t: "g_feed (gs ! i) = f_id (fds ! i)" "turns_left (g_state (gs ! i)) \<le> 0"
      using run_schedule_turns [OF run(1), of i] turns [OF i] i Inr by (auto simp: start_scraper_def)
    then obtain k e where "g_state (gs ! i) = Scraped k e" by (auto simp: turns_left_0)
    then show ?thesis
      using ok [OF i] t(1) Inr by (auto simp: pgf.scraper_ok_def pgf.item_stored_def)
  qed
  then show ?thesis using fetchBatch_ok [OF assms(1,3)] run(2) len by simp
qed

definition demo_item :: rss_item where
  "demo_item = \<lparr>item_Title = ''t'', item_Link = ''https://p'', item_Description = '''', item_PubDate = ''d''\<rparr>"

definition demo_rss :: rss_lib where
  "demo_rss = \<lparr>xml_unmarshal = (\<lambda>_. Some \<lparr>rss_Title = '''', rss_Link = '''', rss_Description = '''', rss_Items = [demo_item]\<rparr>),
     parse_time = (\<lambda>_ _. Some 2000), request_url = (\<lambda>_. True)\<rparr>"

definition demo_pg :: pg_calls where
  "demo_pg = \<lparr>pc_next = (\<lambda>_. Applied), pc_mark = (\<lambda>_. (Applied, 1)), pc_post = (\<lambda>_. (Applied, \<lambda>_. 100, 1))\<rparr>"

lemma demo_next_feeds:
  "GetNextFeedsToFetch (pc_next demo_pg) 5 mono1 =
     Inr [demo_feed\<lparr>f_created := to_micros zero_time, f_updated := to_micros zero_time\<rparr>]"
  by (simp add: GetNextFeedsToFetch_def listing_def call_def demo_pg_def mono1_def)

lemma demo_download: "download demo_rss (\<lambda>_. Inr \<lparr>StatusCode = 200, Resp_Body = ('''', None)\<rparr>) fd = Inr [demo_item]"
  by (simp add: download_def demo_rss_def read_limited_def maxFeedSize_def)

theorem feeds_batch_complete_witness:
  "case fetchBatch demo_rss (pg_feeds demo_lib demo_pg) (\<lambda>_. Inr \<lparr>StatusCode = 200, Resp_Body = ('''', None)\<rparr>)
      (\<lambda>_ _. None) (\<lambda>_ _. 50) [0, 0] 5 mono1 of
     (err, gs, s') \<Rightarrow> err = None \<and> (\<exists>k e. map g_state gs = [Scraped k e]) \<and> mdb_ok s'"
proof -
  obtain err gs s' where f: "fetchBatch demo_rss (pg_feeds demo_lib demo_pg)
      (\<lambda>_. Inr \<lparr>StatusCode = 200, Resp_Body = ('''', None)\<rparr>) (\<lambda>_ _. None) (\<lambda>_ _. 50) [0, 0] 5 mono1 = (err, gs, s')"
    by (metis prod_cases3)
  show ?thesis
    using feeds_batch_complete [OF mono1_ok demo_next_feeds f]
    by (auto simp: f demo_download length_Suc_conv)
qed

section \<open>The first delivery pipeline\<close>












section \<open>The gateway\<close>







end
