(* ===== verification/Closer.thy ===== *)
theory Closer
  imports GoErrors
begin

text \<open>
  \<open>internal/closer/closer.go\<close>: resources that are closed once, in the reverse order of their
  registration. A close function acts on a state; \<open>close_done\<close> is the \<open>sync.Once\<close>, and
  holding the mutex makes every call one step.
\<close>

type_synonym 's close_fn = "'s \<Rightarrow> goerr option \<times> 's"

record 's closer =
  close_functions :: "(string \<times> 's close_fn) list"
  is_closed :: bool
  close_done :: bool
  close_err :: "goerr option"

definition New_closer :: "'s closer" where
  "New_closer = \<lparr>close_functions = [], is_closed = False, close_done = False, close_err = None\<rparr>"

definition Add :: "string \<Rightarrow> 's close_fn option \<Rightarrow> 's closer \<Rightarrow> goerr option \<times> 's closer" where
  "Add name f c =
     (case f of
        None \<Rightarrow> (Some (sentinel_err ErrNilFunc), c)
      | Some g \<Rightarrow>
          if is_closed c then (Some (sentinel_err ErrClosed), c)
          else (None, c\<lparr>close_functions := close_functions c @ [(name, g)]\<rparr>))"

fun close_all :: "(string \<times> 's close_fn) list \<Rightarrow> 's \<Rightarrow> goerr list \<times> 's" where
  \<comment> \<open>the loop of \<open>Close\<close>, over the functions in the order it visits them\<close>
  "close_all [] s = ([], s)"
| "close_all ((name, f) # fs) s =
     (case f s of
        (err, s1) \<Rightarrow>
          (case close_all fs s1 of
             (errs, s2) \<Rightarrow>
               ((case err of None \<Rightarrow> errs | Some e \<Rightarrow> wrap_err (''close '' @ name) e # errs), s2)))"

definition Close :: "'s closer \<Rightarrow> 's \<Rightarrow> goerr option \<times> 's closer \<times> 's" where
  "Close c s =
     (if close_done c then (close_err c, c, s)
      else
        (case close_all (rev (close_functions c)) s of
           (errs, s') \<Rightarrow>
             let err = errors_join (map Some errs)
             in (err, c\<lparr>is_closed := True, close_done := True, close_err := err\<rparr>, s')))"

lemma close_all_append:
  "close_all (fs @ gs) s =
     (case close_all fs s of (es, s1) \<Rightarrow> (case close_all gs s1 of (es', s2) \<Rightarrow> (es @ es', s2)))"
  by (induction fs s rule: close_all.induct) (auto split: prod.split option.split)

lemma close_all_errors: "close_all fs s = (errs, s') \<Longrightarrow> length errs \<le> length fs"
  by (induction fs s arbitrary: errs s' rule: close_all.induct) (fastforce split: prod.splits option.splits)+

end
