(* ===== verification/Programs.thy ===== *)
theory Programs
  imports Services Closer
begin

text \<open>
  The functions \<open>run\<close> of the programs under \<open>cmd/\<close>: what each opens, in which order, how it
  ends, and what it closes then. A run is the error it returns and the trace of what it opened and
  closed. The answers of the outside (pools, clients, servers, background work) are the fields of
  records; log lines, time-outs as such and the options of servers and pools are left out. That a
  server's shutdown closes its listener is left to \<open>net/http\<close>.
\<close>

section \<open>Resources\<close>






section \<open>The outbox relay\<close>


section \<open>The notifier\<close>





section \<open>The HTTP servers of the gateway and of the notification API\<close>

datatype server_end = SignalReceived | ServerStopped "goerr option"

record server_answers =
  sv_listen :: "string \<Rightarrow> goerr option"
  sv_end :: server_end
  sv_shutdown :: "goerr option"

definition serve :: "string \<Rightarrow> string \<Rightarrow> server_answers \<Rightarrow> goerr option" where
  \<comment> \<open>from the start of the server: a signal shuts it down, a server that stops by itself ends it\<close>
  "serve stopped shutdown S =
     (case sv_end S of
        SignalReceived \<Rightarrow> map_option (wrap_err shutdown) (sv_shutdown S)
      | ServerStopped None \<Rightarrow> None
      | ServerStopped (Some e) \<Rightarrow> if errors_is e HttpServerClosed then None else Some (wrap_err stopped e))"

definition gateway_run :: "lib \<Rightarrow> server_answers \<Rightarrow> environment \<Rightarrow> goerr option" where
  "gateway_run L S E =
     (case ReadGatewayConfig L E of
        Inl e \<Rightarrow> Some (wrap_err ''read gateway config'' e)
      | Inr cfg \<Rightarrow>
          (case sv_listen S (gw_Addr cfg) of
             Some e \<Rightarrow> Some (wrap_err ''listen on gateway address'' e)
           | None \<Rightarrow> serve ''gateway HTTP server stopped'' ''shutdown gateway HTTP server'' S))"


section \<open>The monolith\<close>








section \<open>Facts\<close>
















end
