(* ===== verification/Spec2Isabelle.thy ===== *)
theory Spec2Isabelle
  imports Retry PipelineProps Drain RelayDrain EndToEnd ServiceProps SenderProps BatchProps Programs
begin

text \<open>
  A verification library for FeedFlow, an RSS aggregator written in Go: a monolith (users, feeds,
  follows, posts, an RSS worker), an outbox relay, a notifier that delivers e-mail and Telegram
  messages, an API for the notification channels, and a gateway in front of the two APIs.

  \<^bold>\<open>How the parts interact.\<close> The RSS worker stores new posts; the statement of \<open>SavePost\<close>
  writes one intent per follower into the outbox of the monolith. The relay publishes the outbox to
  Kafka. The consumer of the notifier checks each request and puts it with one delivery per enabled
  channel into its own database (inbox and fan-out). Workers claim deliveries under a lease and a
  token, send them and record the result; a retry or a dead letter goes to a second outbox, which a
  second relay publishes, and a retry comes back through the consumer. The API of the channels
  changes the channels and cancels what waits on one that goes away.

  \<^bold>\<open>Theories and code\<close> (paths under \<open>src/\<close>).
  \<^item> \<open>Prelude\<close>: identifiers, durations, tables as lists of rows, the collection \<open>db_simps\<close>.
    \<open>GoText\<close>: the functions of \<open>strings\<close>, \<open>strconv\<close> and UTF-8 that the code calls.
    \<open>GoErrors\<close>: error trees with \<open>errors.Is\<close>, \<open>errors.As\<close>, \<open>errors.Join\<close>.
    \<open>Float64\<close>: binary64 for the jitter. \<open>Json\<close>: decoding into structs; the external
    functions are the record \<open>lib\<close>.
  \<^item> \<open>Retry\<close>: \<open>internal/notification/retry/retry.go\<close>. \<open>Contract\<close>:
    \<open>internal/notification/contract\<close>. \<open>NotifModel\<close>: \<open>model\<close> and \<open>sender\<close>.
    \<open>Kafka\<close>: \<open>broker/broker.go\<close> and the records.
  \<^item> \<open>NotifDB\<close>, \<open>NotifStore\<close>, \<open>NotifInv\<close>: the tables, the statements and methods of
    \<open>postgres/pipeline.go\<close>, and the invariant \<open>pipeline_inv\<close> that each method keeps.
    \<open>Channels\<close>: \<open>postgres/channels.go\<close>.
  \<^item> \<open>PipelineWorker\<close> and \<open>Consumer\<close>: \<open>pipeline/worker.go\<close>, \<open>pipeline/consumer.go\<close>,
    proved over the locales \<open>delivery_store\<close> and \<open>event_inbox\<close>, which the PostgreSQL store
    interprets. \<open>Relay\<close>: \<open>relay/relay.go\<close> over the locale \<open>outbox_table\<close>, interpreted on
    both outboxes. \<open>RoundTrip\<close>: what crosses Kafka.
  \<^item> \<open>System\<close>: the notification service as a step relation \<open>sys_step\<close> with crashes, and its
    abstract specification \<open>life\<close>, the automaton of one delivery.
  \<^item> \<open>Storage\<close>: \<open>internal/database/storage\<close>. \<open>Rss\<close>: \<open>internal/worker\<close>, over the locale
    \<open>feed_store\<close>. \<open>Cache\<close>: \<open>internal/cache\<close>. \<open>ApiHandlers\<close>: \<open>internal/handler\<close>.
    \<open>HttpApi\<close>: \<open>internal/httpapi\<close>. \<open>Auth\<close>: \<open>internal/auth\<close>.
    \<open>Legacy\<close>: the first delivery pipeline (\<open>postgres/outbox.go\<close>, \<open>postgres/deliveries.go\<close>,
    \<open>notification/worker\<close>), which no program starts any more.
  \<^item> \<open>ChannelApi\<close>: \<open>notification/httpapi\<close>, over the locale \<open>channel_storage\<close>, interpreted
    on \<open>Channels\<close>. \<open>Telegram\<close>, \<open>Email\<close>: the senders. \<open>Gateway\<close>, \<open>Config\<close>,
    \<open>Closer\<close>: \<open>internal/gateway\<close>, \<open>internal/config\<close>, \<open>internal/closer\<close>.
    \<open>Services\<close> and \<open>Programs\<close>: what the programs under \<open>cmd\<close> decide from their settings,
    and what they open, return and close.
  \<^item> \<open>Demo\<close>: a concrete instance of \<open>lib\<close> and a concrete run; the witnesses use it.
    \<open>Drain\<close> and \<open>RelayDrain\<close> hold the progress of the worker and of the relay, proved over the
    locales \<open>draining_store\<close> and \<open>drainable_outbox\<close>.
    \<open>PipelineProps\<close>, \<open>EndToEnd\<close>, \<open>ServiceProps\<close>, \<open>SenderProps\<close>, \<open>BatchProps\<close> hold the
    properties, this theory those of the service as a whole.

  \<^bold>\<open>How state is modelled.\<close> A table is a list of rows, a statement a function on the tables, a
  method the sequence of its statements in a transaction. Every round trip has an outcome: applied,
  refused, or applied with the answer lost. Clocks, generated identifiers, random numbers, rows locked
  by others and the answers of Kafka, Redis, HTTP and SMTP servers are arguments, so a theorem holds
  for all of them. Durations are 64-bit words read with \<open>sint\<close>; instants are integers.
  Concurrency is a schedule: which transaction, goroutine or process takes the next step.

  \<^bold>\<open>What the lemmas show.\<close> The invariant and its preservation by every method and every step; the
  refinement of \<open>life\<close>; the exact result of fan-out, claim, success, failure and recovery; the
  exclusion of two workers; at-least-once delivery through both outboxes and the consumer; the round
  trips of requests, retries, tokens and cached pages; the closed form and the bounds of the back-off;
  the separation of users; what a successful send means; that the worker and the relay empty their
  queues; and that every program closes what it opened. Two theorems state behaviour the code should not
  have: a refused request stops its partition (\<open>poison_record_blocks\<close>), and deleting a channel can
  leave a delivery nobody takes (\<open>delete_race_orphans\<close>).

  \<^bold>\<open>Bounds and fuel.\<close> \<open>all_pages\<close> has fuel, the number of pages; one more than the number of
  feeds is enough (\<open>feeds_paging_complete\<close>). The loops of the worker, the consumer, the relay and
  the RSS worker run until their context ends; they are recursive on the list of their rounds, of any
  length; the worker needs one round per unfinished delivery (\<open>worker_drains\<close>), the
  relay one per unpublished record (\<open>requests_reach_kafka\<close>). A goroutine of an RSS batch needs a turn
  per item and one more (\<open>feeds_batch_complete\<close>). The loop of the back-off terminates by a measure.

  \<^bold>\<open>Assumptions.\<close> Transactions that lock the same rows do not interleave, except where a theorem
  interleaves their statements; the token of a claim is not drawn again while a worker holds it; the
  texts of UUIDs, times and JSON can be read back where a round trip says so; the JWT library keeps
  \<open>jwt_laws\<close>.

  \<^bold>\<open>Not modelled.\<close> Logging; the options of servers and pools, and what opening, serving and
  stopping does beyond its error; the text syntax of JSON, XML, URLs and dates, the
  SMTP and HTTP protocols below a command or a request, and the signature scheme, which are third-party
  or standard library code and stay parameters; time-outs other than as errors; the expiry of Redis
  keys; the SQL of the migrations, whose constraints are part of \<open>schema_ok\<close> and \<open>mdb_ok\<close>;
  deployment scripts.
\<close>

section \<open>The delivery pipeline\<close>



text \<open>C2: every step of the service is a step of the abstract automaton for every delivery (or
  leaves it alone), keeps its identity, and creates deliveries only in the state pending with no
  attempt: the detailed operations implement the life of a delivery.\<close>

theorem steps_implement_life:
  assumes "reachable L s" "sys_step L s s'"
  shows "table_evolves (deliveries (sdb s)) (deliveries (sdb s'))"
  using sys_step_evolves [OF assms(2)] reachable_inv [OF assms(1)] by (simp add: sys_inv_def)

theorem steps_implement_life_witness:
  "abs_of demo_claimed = (StProcessing, 1) \<and> abs_of demo_waiting = (StRetryWait, 1) \<and>
   table_evolves [demo_claimed] [demo_waiting]"
  using steps_implement_life [OF demo_before_reachable demo_step]
  by (simp add: demo_before_def demo_sys_def db3_def db4_def abs_of_def demo_waiting_def
      release_row_def demo_row_defs)

text \<open>C8: a delivery that is sent, failed or cancelled stays exactly as it is, whatever happens
  later.\<close>

theorem finished_forever:
  assumes "reachable L s" "(sys_step L)\<^sup>*\<^sup>* s s'" "d \<in> set (deliveries (sdb s))" "finished (d_status d)"
  shows "d \<in> set (deliveries (sdb s'))"
  using execution_row [OF assms(2) reachable_inv [OF assms(1)] assms(3)] assms(4) by auto

theorem finished_forever_witness:
  "finished (d_status demo_sent) \<and> demo_sent \<in> set (deliveries (sdb (demo_done\<lparr>held := []\<rparr>)))"
proof -
  have step: "(sys_step demo_lib)\<^sup>*\<^sup>* demo_done (demo_done\<lparr>held := []\<rparr>)"
    by (intro r_into_rtranclp sys_step.crash) simp
  have fin: "finished (d_status demo_sent)" by (simp add: demo_sent_def sent_row_def finished_def)
  show ?thesis
    using finished_forever [OF demo_done_reachable step _ fin] fin by (simp add: demo_done_def db5_def)
qed

text \<open>C9: a delivery is claimed at most eight times: the attempts of a reachable delivery are
  between 0 and 8, they never go down, and the deliveries a worker or a retry can still pick up
  have fewer than 8.\<close>

theorem attempts_bounded:
  assumes "reachable L s" "(sys_step L)\<^sup>*\<^sup>* s s'" "d \<in> set (deliveries (sdb s))"
  shows "\<exists>d' \<in> set (deliveries (sdb s')). d_id d' = d_id d \<and> 0 \<le> d_attempts d \<and>
    d_attempts d \<le> d_attempts d' \<and> d_attempts d' \<le> 8 \<and>
    (d_status d' \<in> {StPending, StRetryWait} \<longrightarrow> d_attempts d' < 8)"
proof -
  note inv = reachable_inv [OF assms(1)]
  have p: "pipeline_inv L 8 (sdb s)" "pipeline_inv L 8 (sdb s')"
    using inv steps_inv [OF assms(2) inv] by (simp_all add: sys_inv_def)
  from execution_row [OF assms(2) inv assms(3)] obtain d' where
    d': "d' \<in> set (deliveries (sdb s'))" "same_delivery d d'" "life\<^sup>*\<^sup>* (abs_of d) (abs_of d')" by blast
  show ?thesis
    using d' lives_attempts [OF d'(3)] pipeline_inv_delivery [OF p(2) d'(1)]
      schema_delivery(1) [OF pipeline_inv_schema [OF p(1)] assms(3)]
    by (intro bexI [of _ d']) (auto simp: abs_of_def same_delivery_def delivery_ok_def)
qed

theorem attempts_bounded_witness:
  "\<exists>d' \<in> set (deliveries (sdb demo_sys)). d_id d' = d_id demo_claimed \<and> 0 \<le> d_attempts demo_claimed \<and>
    d_attempts demo_claimed \<le> d_attempts d' \<and> d_attempts d' \<le> 8 \<and>
    (d_status d' \<in> {StPending, StRetryWait} \<longrightarrow> d_attempts d' < 8)"
  by (rule attempts_bounded [OF demo_before_reachable r_into_rtranclp [of "sys_step demo_lib", OF demo_step]])
    (simp add: demo_before_def db3_def)

text \<open>C10: no retry and no dead letter is lost: a delivery that waits for a retry has the retry
  message of its current attempt in the dispatch outbox, on one of the three retry topics, and a
  failed delivery has its dead letter there.\<close>

theorem outbox_announces:
  assumes "reachable L s" "d \<in> set (deliveries (sdb s))" "d_status d \<in> {StRetryWait, StFailed}"
  shows "\<exists>r \<in> set (dispatch (sdb s)).
    announces L d (if d_status d = StFailed then ''dlq'' else ''retry'') r \<and>
    (if d_status d = StFailed then o_topic r = DLQTopicV1 else IsRetryTopic (o_topic r))"
proof -
  have p: "pipeline_inv L 8 (sdb s)" using reachable_inv [OF assms(1)] by (simp add: sys_inv_def)
  from pipeline_inv_delivery [OF p assms(2)] assms(3) obtain r where
    r: "r \<in> set (dispatch (sdb s))" "announces L d (if d_status d = StFailed then ''dlq'' else ''retry'') r"
    by (auto simp: delivery_ok_def)
  have "o_kind r = ''dlq'' \<and> o_topic r = DLQTopicV1 \<or> o_kind r = ''retry'' \<and> IsRetryTopic (o_topic r)"
    using pipeline_inv_schema [OF p] r(1) by (simp add: schema_ok_def)
  then show ?thesis using r assms(3) by (intro bexI [of _ r]) (auto simp: announces_def split: if_splits)
qed

theorem outbox_announces_witness:
  "\<exists>r \<in> set (dispatch (sdb demo_sys)). announces demo_lib demo_waiting ''retry'' r \<and> IsRetryTopic (o_topic r)"
  using outbox_announces [OF demo_reachable, of demo_waiting]
  by (simp add: demo_sys_def db4_def demo_waiting_def release_row_def)

text \<open>C4: what the relay has marked as published in the dispatch outbox is in Kafka: no message
  is dropped between the outbox and the topic, whatever fails in between.\<close>

theorem published_was_sent:
  assumes "reachable L s" "r \<in> set (dispatch (sdb s))" "o_published r \<noteq> None"
  shows "dispatch_message L r \<in> set (slog s)"
proof -
  have i: "sys_inv L s" by (rule reachable_inv [OF assms(1)])
  then have "distinct (map o_id (dispatch (sdb s)))"
    using pipeline_inv_schema by (auto simp: sys_inv_def schema_ok_def)
  then have "dispatch_message_of L (o_id r) (sdb s) = Some (dispatch_message L r)"
    using find_unique [OF _ assms(2), of o_id "o_id r"] by (simp add: dispatch_message_of_def)
  moreover have "dispatch_published (o_id r) (sdb s)"
    using assms(2,3) by (auto simp: dispatch_published_def)
  ultimately show ?thesis
    using i by (auto simp: sys_inv_def dob.sent_all_def)
qed

theorem published_was_sent_witness:
  "o_published demo_published \<noteq> None \<and> dispatch_message demo_lib demo_published \<in> set (slog demo_relayed)"
  using published_was_sent [OF demo_relayed_reachable, of demo_published]
  by (simp add: demo_relayed_def db6_def) (simp add: demo_published_def)

end
